theory Spec2Isabelle
  imports Main "HOL-Library.Char_ord" "HOL-Library.List_Lexorder"
begin

section \<open>The LatestFiles updater (latestfiles\_update.py)\<close>

text \<open>
  The script is one function, \<open>lambda_handler(event, context)\<close>. It reads a parsed JSON
  payload, extracts the S3 record of an object creation (unwrapping one SNS envelope),
  prints a banner, and then walks the registrations of the bucket in the DynamoDB table
  \<open>LatestFiles\<close>, page by page, issuing one conditional \<open>UpdateItem\<close> per registration whose
  pattern matches the object key.

  Strings are byte lists (\<open>string\<close>), read as the UTF-8 encoding of the Python string; the
  order \<open><\<close> on them (lexicographic on the byte values) is the order DynamoDB uses to
  compare string attributes.
\<close>

subsection \<open>Python values and exceptions\<close>

text \<open>
  The payload is what \<open>json.loads\<close> produces: dicts, lists, strings, numbers, booleans and
  \<open>None\<close>. A dict is the list of its entries, read by \<open>map_of\<close>. The handler never
  computes with a number: every operation it applies to one raises \<open>TypeError\<close>, for a
  float as for an integer, so integers stand for all numbers.
\<close>

datatype json =
    JNull
  | JBool bool
  | JNum int
  | JStr string
  | JArr "json list"
  | JObj "(string \<times> json) list"

text \<open>
  The exceptions the handler can end with. \<open>ClientError\<close> carries
  \<open>e.response['Error']['Code']\<close>; \<open>BotoCoreError\<close> stands for the exceptions of botocore that
  are not a \<open>ClientError\<close> (parameter validation, connection failures), named by their class.
\<close>

datatype exn =
    AssertionError
  | KeyError
  | IndexError
  | TypeError
  | JSONDecodeError
  | RegexError
  | ClientError string
  | BotoCoreError string

fun and_then :: "exn + 'a \<Rightarrow> ('a \<Rightarrow> exn + 'b) \<Rightarrow> exn + 'b" where
  "and_then (Inl e) f = Inl e"
| "and_then (Inr x) f = f x"

text \<open>\<open>v[k]\<close> for a string key \<open>k\<close>: only a dict can be subscripted by a string.\<close>

fun subscript :: "json \<Rightarrow> string \<Rightarrow> exn + json" where
  "subscript (JObj kvs) k = (case map_of kvs k of None \<Rightarrow> Inl KeyError | Some v \<Rightarrow> Inr v)"
| "subscript v k = Inl TypeError"

text \<open>
  A byte \<open>10xxxxxx\<close> continues a UTF-8 sequence; Python counts and indexes code points, which
  are the other bytes together with the continuation bytes that follow them.
\<close>

definition utf8_continuation :: "char \<Rightarrow> bool" where
  "utf8_continuation c = (128 \<le> (of_char c :: nat) \<and> (of_char c :: nat) < 192)"

text \<open>\<open>len(v)\<close>: the keys of a dict, the elements of a list, the code points of a string.\<close>

fun py_len :: "json \<Rightarrow> exn + nat" where
  "py_len (JObj kvs) = Inr (length (remdups (map fst kvs)))"
| "py_len (JArr vs) = Inr (length vs)"
| "py_len (JStr s) = Inr (length (filter (\<lambda>c. \<not> utf8_continuation c) s))"
| "py_len v = Inl TypeError"

text \<open>\<open>v[0]\<close>: the keys of a parsed JSON dict are strings, so \<open>0\<close> is never one of them.\<close>

fun index0 :: "json \<Rightarrow> exn + json" where
  "index0 (JArr []) = Inl IndexError"
| "index0 (JArr (v # vs)) = Inr v"
| "index0 (JObj kvs) = Inl KeyError"
| "index0 (JStr []) = Inl IndexError"
| "index0 (JStr (c # cs)) = Inr (JStr (c # takeWhile utf8_continuation cs))"
| "index0 v = Inl TypeError"

fun str_contains :: "string \<Rightarrow> string \<Rightarrow> bool" where
  "str_contains sub [] = (sub = [])"
| "str_contains sub (c # cs) = (take (length sub) (c # cs) = sub \<or> str_contains sub cs)"

text \<open>\<open>k in v\<close> for a string \<open>k\<close>: a key of a dict, an element of a list, a substring of a string.\<close>

fun py_in :: "string \<Rightarrow> json \<Rightarrow> exn + bool" where
  "py_in k (JObj kvs) = Inr (k \<in> fst ` set kvs)"
| "py_in k (JArr vs) = Inr (JStr k \<in> set vs)"
| "py_in k (JStr s) = Inr (str_contains k s)"
| "py_in k v = Inl TypeError"

text \<open>
  \<open>json.loads(v)\<close>. The parser is the standard library's: it is a parameter \<open>loads\<close> of the
  model, \<open>None\<close> where it raises \<open>JSONDecodeError\<close>. Only a string can be parsed.
\<close>

fun json_loads :: "(string \<Rightarrow> json option) \<Rightarrow> json \<Rightarrow> exn + json" where
  "json_loads loads (JStr s) = (case loads s of None \<Rightarrow> Inl JSONDecodeError | Some v \<Rightarrow> Inr v)"
| "json_loads loads v = Inl TypeError"

subsection \<open>Extracting the S3 record (lines 80 to 86)\<close>

text \<open>\<open>assert len(event['Records']) == 1\<close>\<close>

definition assert_one_record :: "json \<Rightarrow> exn + unit" where
  "assert_one_record event =
     and_then (subscript event ''Records'') (\<lambda>recs.
     and_then (py_len recs) (\<lambda>n.
     if n = 1 then Inr () else Inl AssertionError))"

text \<open>\<open>event['Records'][0]\<close>\<close>

definition first_record :: "json \<Rightarrow> exn + json" where
  "first_record event = and_then (subscript event ''Records'') index0"

text \<open>
  Lines 80 to 85: the value of \<open>event\<close> once the optional envelope is removed. An SNS
  delivery is unwrapped once: the message of the envelope is parsed and takes the place of
  \<open>event\<close>.
\<close>

definition unwrapped :: "(string \<Rightarrow> json option) \<Rightarrow> json \<Rightarrow> exn + json" where
  "unwrapped loads event =
     and_then (assert_one_record event) (\<lambda>_.
     and_then (first_record event) (\<lambda>r.
     and_then (py_in ''Sns'' r) (\<lambda>is_sns.
     if is_sns then
       and_then (first_record event) (\<lambda>r1.
       and_then (subscript r1 ''Sns'') (\<lambda>sns.
       and_then (subscript sns ''Message'') (\<lambda>msg.
       and_then (json_loads loads msg) (\<lambda>inner.
       and_then (assert_one_record inner) (\<lambda>_. Inr inner)))))
     else Inr event)))"

text \<open>Line 86: \<open>s3ev = event['Records'][0]['s3']\<close>, on the event of lines 80 to 85.\<close>

definition s3ev_of :: "(string \<Rightarrow> json option) \<Rightarrow> json \<Rightarrow> exn + json" where
  "s3ev_of loads event =
     and_then (unwrapped loads event) (\<lambda>event'.
     and_then (first_record event') (\<lambda>r'. subscript r' ''s3''))"

text \<open>\<open>s3ev['bucket']['name']\<close> and \<open>s3ev['object']['key']\<close>\<close>

definition bucket_name :: "json \<Rightarrow> exn + json" where
  "bucket_name s3ev = and_then (subscript s3ev ''bucket'') (\<lambda>b. subscript b ''name'')"

definition object_key :: "json \<Rightarrow> exn + json" where
  "object_key s3ev = and_then (subscript s3ev ''object'') (\<lambda>ob. subscript ob ''key'')"

text \<open>
  The creation event of the specification: the two identifiers the handler reads from the
  record, in the order it first reads them (lines 86, 88 and 89). The handler does not check
  that they are strings, so they are carried as the values found.
\<close>

record creation_event =
  collection_id :: json
  object_id :: json

definition normalize :: "(string \<Rightarrow> json option) \<Rightarrow> json \<Rightarrow> exn + creation_event" where
  "normalize loads event =
     and_then (s3ev_of loads event) (\<lambda>s3ev.
     and_then (bucket_name s3ev) (\<lambda>b.
     and_then (object_key s3ev) (\<lambda>k.
     Inr \<lparr>collection_id = b, object_id = k\<rparr>)))"

subsection \<open>The DynamoDB client, as the handler uses it\<close>

text \<open>An attribute value of DynamoDB, by its type tag; the handler asks for \<open>S\<close> only.\<close>

datatype attribute_value =
    S string
  | N string
  | B string
  | BOOL bool
  | NULL
  | SS "string list"
  | NS "string list"
  | BS "string list"
  | L "attribute_value list"
  | M "(string \<times> attribute_value) list"

type_synonym item = "string \<rightharpoonup> attribute_value"

record 'tok query_output =
  Items :: "item list"
  LastEvaluatedKey :: "'tok option"

text \<open>
  The expressions of an \<open>update_item\<close> request, as far as the script writes them: a
  condition is built from \<open>attribute_not_exists(a)\<close>, \<open>x < y\<close> and \<open>OR\<close>, an operand being an
  attribute name or a placeholder \<open>:p\<close>; an update is \<open>SET a = :p\<close>.
\<close>

datatype operand = Path string | Placeholder string

datatype condition =
    AttributeNotExists string
  | Less operand operand
  | Or condition condition

datatype update = SET string string

text \<open>
  The keyword arguments of \<open>update_item\<close> (lines 114 to 125), the table name apart. The
  key holds the value given for \<open>Bucket\<close> under the type tag \<open>S\<close> and the attribute given for
  \<open>Channel\<close>; \<open>ExpressionAttributeValues\<close> binds each placeholder to the value given under
  the type tag \<open>S\<close>.
\<close>

record update_item_input =
  KeyBucket :: json
  KeyChannel :: attribute_value
  UpdateExpression :: update
  ConditionExpression :: condition
  ExpressionAttributeValues :: "(string \<times> json) list"

text \<open>
  The two calls of the handler on \<open>db\<close>, over a store state \<open>'s\<close>:
  \<^item> \<open>query\<close> (lines 94 to 105) takes the value bound to \<open>:bucket\<close> and the
    \<open>ExclusiveStartKey\<close> of \<open>resume\<close>, if any; the table name, the projection
    \<open>Channel,Pattern\<close> and the key condition \<open>#BKT = :bucket\<close> are fixed;
  \<^item> \<open>update_item\<close> (lines 114 to 125) takes the request with its key, its update, its
    condition and its values.
  Each returns its result or the exception it raises, and the store after the call.
\<close>

record ('s, 'tok) client =
  query :: "json \<Rightarrow> 'tok option \<Rightarrow> 's \<Rightarrow> (exn + 'tok query_output) \<times> 's"
  update_item :: "update_item_input \<Rightarrow> 's \<Rightarrow> (exn + unit) \<times> 's"

text \<open>
  The request of lines 114 to 125 for the bucket name \<open>bucket\<close>, the \<open>Channel\<close> attribute \<open>ch\<close>
  of the item and the object key \<open>key\<close>.
\<close>

definition update_item_call :: "json \<Rightarrow> attribute_value \<Rightarrow> json \<Rightarrow> update_item_input" where
  "update_item_call bucket ch key =
     \<lparr>KeyBucket = bucket,
      KeyChannel = ch,
      UpdateExpression = SET ''ObjectKey'' '':key'',
      ConditionExpression =
        Or (AttributeNotExists ''ObjectKey'') (Less (Path ''ObjectKey'') (Placeholder '':key'')),
      ExpressionAttributeValues = [('':key'', key)]\<rparr>"

text \<open>
  A client that keeps, beside the state of the client it wraps, the requests it was
  handed by \<open>update_item\<close>, in the order of the calls, whatever their result.
\<close>

definition recording :: "('s, 'tok) client \<Rightarrow> ('s \<times> update_item_input list, 'tok) client" where
  "recording db =
     \<lparr>query = (\<lambda>bucket resume (st, log).
        (case query db bucket resume st of (res, st') \<Rightarrow> (res, (st', log)))),
      update_item = (\<lambda>req (st, log).
        (case update_item db req st of (res, st') \<Rightarrow> (res, (st', log @ [req]))))\<rparr>"

subsection \<open>What an invocation leaves behind\<close>

text \<open>
  The lines printed, one constructor per \<open>print\<close> of the script, holding the value the
  line formats:
  \<^item> \<open>Rule\<close>: the line of forty \<open>=\<close> (lines 87 and 90);
  \<^item> \<open>BucketLine v\<close>: \<open>Bucket:  {v}\<close> (line 88); \<open>KeyLine v\<close>: \<open>Key:     {v}\<close> (line 89);
  \<^item> \<open>Blank\<close>: the empty line (line 91);
  \<^item> \<open>Updating c\<close>: \<open>Updating {c}...\<close> (line 113);
  \<^item> \<open>Ok\<close>: \<open>OK\<close> (line 126); \<open>AlreadyUpToDate\<close>: \<open>Already up to date.\<close> (line 130).
\<close>

datatype line =
    Rule
  | BucketLine json
  | KeyLine json
  | Blank
  | Updating string
  | Ok
  | AlreadyUpToDate

text \<open>
  An invocation ends by returning (\<open>raised = None\<close>) or with an exception; either way the
  store is as the calls made so far left it and the lines printed so far stay printed.
\<close>

record 's outcome =
  raised :: "exn option"
  store :: 's
  printed :: "line list"

subsection \<open>The loop over the items of a page (lines 106 to 130)\<close>

text \<open>
  \<open>re.search(pattern, string)\<close> compiles the pattern and searches the string with the
  compiled pattern. The regular-expression engine is the standard library's: it is a
  parameter \<open>re_compile\<close> of the model, \<open>None\<close> where the pattern does not compile
  (\<open>re.error\<close>), and otherwise the search as a predicate on the subject string. A subject
  that is not a string is a \<open>TypeError\<close> of the search.
\<close>

definition re_search :: "(string \<Rightarrow> (string \<Rightarrow> bool) option) \<Rightarrow> string \<Rightarrow> json \<Rightarrow> exn + bool" where
  "re_search re_compile p subject =
     (case re_compile p of
        None \<Rightarrow> Inl RegexError
      | Some search \<Rightarrow> (case subject of JStr s \<Rightarrow> Inr (search s) | _ \<Rightarrow> Inl TypeError))"

text \<open>\<open>item['Channel']['S']\<close> in the line printed before the write.\<close>

fun attr_S :: "attribute_value \<Rightarrow> exn + string" where
  "attr_S (S s) = Inr s"
| "attr_S a = Inl KeyError"

text \<open>
  Lines 107 to 111: the assertions on the item and the match test. \<open>Inr None\<close> is
  \<open>continue\<close>; \<open>Inr (Some (ch, c))\<close> is a match, with the \<open>Channel\<close> attribute and the
  channel name that line 113 prints.
\<close>

definition match_item ::
  "(string \<Rightarrow> (string \<Rightarrow> bool) option) \<Rightarrow> json \<Rightarrow> item \<Rightarrow> exn + (attribute_value \<times> string) option" where
  "match_item re_compile s3ev it =
     (case it ''Channel'' of
        None \<Rightarrow> Inl AssertionError
      | Some ch \<Rightarrow>
     (case it ''Pattern'' of
        None \<Rightarrow> Inl AssertionError
      | Some (S p) \<Rightarrow>
          and_then (object_key s3ev) (\<lambda>k.
          and_then (re_search re_compile p k) (\<lambda>found.
          if \<not> found then Inr None
          else and_then (attr_S ch) (\<lambda>c. Inr (Some (ch, c)))))
      | Some _ \<Rightarrow> Inl AssertionError))"

text \<open>
  Lines 112 to 130 for a matching item: the line \<open>Updating\<close>, then the conditional write.
  A \<open>ClientError\<close> whose code is \<open>ConditionalCheckFailedException\<close> is caught; every other
  exception leaves the \<open>try\<close>.
\<close>

definition write_item ::
  "('s, 'tok) client \<Rightarrow> json \<Rightarrow> attribute_value \<Rightarrow> string \<Rightarrow> 's \<Rightarrow> line list \<Rightarrow> 's outcome" where
  "write_item db s3ev ch c st out =
     (case bucket_name s3ev of
        Inl e \<Rightarrow> \<lparr>raised = Some e, store = st, printed = out @ [Updating c]\<rparr>
      | Inr b \<Rightarrow>
     (case object_key s3ev of
        Inl e \<Rightarrow> \<lparr>raised = Some e, store = st, printed = out @ [Updating c]\<rparr>
      | Inr k \<Rightarrow>
     (case update_item db (update_item_call b ch k) st of
        (Inr _, st') \<Rightarrow> \<lparr>raised = None, store = st', printed = out @ [Updating c, Ok]\<rparr>
      | (Inl (ClientError code), st') \<Rightarrow>
          if code \<noteq> ''ConditionalCheckFailedException''
          then \<lparr>raised = Some (ClientError code), store = st', printed = out @ [Updating c]\<rparr>
          else \<lparr>raised = None, store = st', printed = out @ [Updating c, AlreadyUpToDate]\<rparr>
      | (Inl e, st') \<Rightarrow> \<lparr>raised = Some e, store = st', printed = out @ [Updating c]\<rparr>)))"

text \<open>The body of the \<open>for\<close> loop for one item.\<close>

definition do_item ::
  "('s, 'tok) client \<Rightarrow> (string \<Rightarrow> (string \<Rightarrow> bool) option) \<Rightarrow> json \<Rightarrow> item \<Rightarrow> 's \<Rightarrow> line list
     \<Rightarrow> 's outcome" where
  "do_item db re_compile s3ev it st out =
     (case match_item re_compile s3ev it of
        Inl e \<Rightarrow> \<lparr>raised = Some e, store = st, printed = out\<rparr>
      | Inr None \<Rightarrow> \<lparr>raised = None, store = st, printed = out\<rparr>
      | Inr (Some (ch, c)) \<Rightarrow> write_item db s3ev ch c st out)"

text \<open>\<open>for item in qr['Items']\<close>: an exception ends the loop.\<close>

fun for_items ::
  "('s, 'tok) client \<Rightarrow> (string \<Rightarrow> (string \<Rightarrow> bool) option) \<Rightarrow> json \<Rightarrow> item list \<Rightarrow> 's \<Rightarrow> line list
     \<Rightarrow> 's outcome" where
  "for_items db re_compile s3ev [] st out = \<lparr>raised = None, store = st, printed = out\<rparr>"
| "for_items db re_compile s3ev (it # its) st out =
     (let r = do_item db re_compile s3ev it st out in
      case raised r of
        Some e \<Rightarrow> r
      | None \<Rightarrow> for_items db re_compile s3ev its (store r) (printed r))"

subsection \<open>The loop over the pages (lines 92 to 134)\<close>

text \<open>
  \<open>while True\<close>: query with \<open>resume\<close>, process the items, and go on while the answer has a
  \<open>LastEvaluatedKey\<close>. The loop ends only when the store returns an answer without one, so
  the function is partial: \<open>None\<close> is an invocation that never returns.
\<close>

partial_function (option) query_loop ::
  "('s, 'tok) client \<Rightarrow> (string \<Rightarrow> (string \<Rightarrow> bool) option) \<Rightarrow> json \<Rightarrow> 'tok option \<Rightarrow> 's \<Rightarrow> line list
     \<Rightarrow> 's outcome option" where
  "query_loop db re_compile s3ev resume st out =
     (case bucket_name s3ev of
        Inl e \<Rightarrow> Some \<lparr>raised = Some e, store = st, printed = out\<rparr>
      | Inr b \<Rightarrow>
     (case query db b resume st of
        (Inl e, st') \<Rightarrow> Some \<lparr>raised = Some e, store = st', printed = out\<rparr>
      | (Inr qr, st') \<Rightarrow>
     (case raised (for_items db re_compile s3ev (Items qr) st' out) of
        Some e \<Rightarrow> Some (for_items db re_compile s3ev (Items qr) st' out)
      | None \<Rightarrow>
     (case LastEvaluatedKey qr of
        Some tok \<Rightarrow>
          query_loop db re_compile s3ev (Some tok)
            (store (for_items db re_compile s3ev (Items qr) st' out))
            (printed (for_items db re_compile s3ev (Items qr) st' out))
      | None \<Rightarrow> Some (for_items db re_compile s3ev (Items qr) st' out)))))"

subsection \<open>The handler\<close>

text \<open>
  Lines 80 to 91 as they run: the extraction of the two identifiers together with the
  lines printed on the way. The bucket name is first read inside the \<open>print\<close> of line 88
  and the object key inside the one of line 89, after the rule of line 87 is out; so an
  extraction that fails there has printed already.
\<close>

definition extraction :: "(string \<Rightarrow> json option) \<Rightarrow> json \<Rightarrow> (exn + creation_event) \<times> line list" where
  "extraction loads event =
     (case s3ev_of loads event of
        Inl e \<Rightarrow> (Inl e, [])
      | Inr s3ev \<Rightarrow>
     (case bucket_name s3ev of
        Inl e \<Rightarrow> (Inl e, [Rule])
      | Inr b \<Rightarrow>
     (case object_key s3ev of
        Inl e \<Rightarrow> (Inl e, [Rule, BucketLine b])
      | Inr k \<Rightarrow>
          (Inr \<lparr>collection_id = b, object_id = k\<rparr>,
           [Rule, BucketLine b, KeyLine k, Rule, Blank]))))"

text \<open>The whole of \<open>lambda_handler\<close>: lines 80 to 91, then the loop over the pages.\<close>

definition lambda_handler ::
  "(string \<Rightarrow> json option) \<Rightarrow> (string \<Rightarrow> (string \<Rightarrow> bool) option) \<Rightarrow> ('s, 'tok) client \<Rightarrow> json \<Rightarrow> 's
     \<Rightarrow> 's outcome option" where
  "lambda_handler loads re_compile db event st =
     (case s3ev_of loads event of
        Inl e \<Rightarrow> Some \<lparr>raised = Some e, store = st, printed = []\<rparr>
      | Inr s3ev \<Rightarrow>
     (case bucket_name s3ev of
        Inl e \<Rightarrow> Some \<lparr>raised = Some e, store = st, printed = [Rule]\<rparr>
      | Inr b \<Rightarrow>
     (case object_key s3ev of
        Inl e \<Rightarrow> Some \<lparr>raised = Some e, store = st, printed = [Rule, BucketLine b]\<rparr>
      | Inr k \<Rightarrow>
          query_loop db re_compile s3ev None st
            [Rule, BucketLine b, KeyLine k, Rule, Blank])))"

text \<open>
  The payload of the direct invocation (lines 140 to 151), which is also the shape of an
  S3 notification reduced to the fields the handler reads.
\<close>

definition s3_record :: "string \<Rightarrow> string \<Rightarrow> json" where
  "s3_record b k =
     JObj [(''bucket'', JObj [(''name'', JStr b)]), (''object'', JObj [(''key'', JStr k)])]"

definition direct_payload :: "string \<Rightarrow> string \<Rightarrow> json" where
  "direct_payload b k = JObj [(''Records'', JArr [JObj [(''s3'', s3_record b k)]])]"

text \<open>
  An SNS delivery reduced to the fields the handler reads: one record whose \<open>Sns\<close> entry
  holds the serialized inner payload as its \<open>Message\<close>.
\<close>

definition sns_payload :: "string \<Rightarrow> json" where
  "sns_payload msg =
     JObj [(''Records'', JArr [JObj [(''Sns'', JObj [(''Message'', JStr msg)])]])]"

subsection \<open>The table \<open>LatestFiles\<close>\<close>

text \<open>
  The store is not part of the script; the model below is the table the header of the
  script describes (lines 24 to 67), with the two operations as DynamoDB documents them
  for the expressions the script sends. It has no failures of its own (throttling,
  network): those are covered by the properties stated for every client.

  A row has the partition key \<open>Bucket\<close> and the sort key \<open>Channel\<close>, both strings, and the
  attributes \<open>Pattern\<close> and \<open>ObjectKey\<close>, which a row may lack or hold with another type.
  The table is the list of its rows in the order a query walks them; the keys of a table
  are distinct.
\<close>

record row =
  Bucket :: string
  Channel :: string
  Pattern :: "attribute_value option"
  ObjectKey :: "attribute_value option"

type_synonym table = "row list"

definition key_of :: "row \<Rightarrow> string \<times> string" where
  "key_of r = (Bucket r, Channel r)"

definition distinct_keys :: "table \<Rightarrow> bool" where
  "distinct_keys tbl = distinct (map key_of tbl)"

text \<open>The rows of a bucket, which a query with \<open>Bucket = :bucket\<close> walks.\<close>

definition bucket_rows :: "string \<Rightarrow> table \<Rightarrow> row list" where
  "bucket_rows b tbl = filter (\<lambda>r. Bucket r = b) tbl"

text \<open>The stored pointer of a channel: the \<open>ObjectKey\<close> of the row with that key, if any.\<close>

definition pointer :: "table \<Rightarrow> string \<Rightarrow> string \<Rightarrow> attribute_value option" where
  "pointer tbl b c =
     (case find (\<lambda>r. key_of r = (b, c)) tbl of None \<Rightarrow> None | Some r \<Rightarrow> ObjectKey r)"

text \<open>The projection \<open>Channel,Pattern\<close> of a row: the item a query returns for it.\<close>

definition projected :: "row \<Rightarrow> item" where
  "projected r =
     (\<lambda>a. if a = ''Channel'' then Some (S (Channel r))
          else if a = ''Pattern'' then Pattern r
          else None)"

text \<open>
  A continuation token is the key of the last row of the page, as \<open>LastEvaluatedKey\<close> is.
  How many rows a page holds is the store's choice: the model takes the sizes of the
  successive pages of one invocation as a parameter \<open>sizes\<close> and, since the token is opaque
  to the handler, carries the sizes still to come in the token. A page of size \<open>n\<close> ends
  with a token when at least \<open>n\<close> rows remain (so the last page may be empty); when the
  sizes are used up, or the size is \<open>0\<close> or more than what remains, the rest is one page
  without a token.
\<close>

type_synonym token = "(string \<times> string) \<times> nat list"

definition rows_after :: "(string \<times> string) option \<Rightarrow> row list \<Rightarrow> row list" where
  "rows_after start rows =
     (case start of
        None \<Rightarrow> rows
      | Some k \<Rightarrow> tl (dropWhile (\<lambda>r. key_of r \<noteq> k) rows))"

fun json_str :: "json \<Rightarrow> string option" where
  "json_str (JStr s) = Some s"
| "json_str v = None"

text \<open>
  \<open>Query\<close> with the key condition \<open>Bucket = :bucket\<close>. A value bound to \<open>:bucket\<close> under the
  type tag \<open>S\<close> that is not a string is refused by the client before any request is sent.
  Every string is answered, the empty one too, which the service refuses as the value of
  a key; no row of a table has an empty bucket name there.
\<close>

definition dynamodb_query ::
  "nat list \<Rightarrow> json \<Rightarrow> token option \<Rightarrow> table \<Rightarrow> (exn + token query_output) \<times> table" where
  "dynamodb_query sizes bucket resume tbl =
     (case json_str bucket of
        None \<Rightarrow> (Inl (BotoCoreError ''ParamValidationError''), tbl)
      | Some b \<Rightarrow>
          (let rows = rows_after (map_option fst resume) (bucket_rows b tbl) in
           case (case resume of None \<Rightarrow> sizes | Some (k, rest) \<Rightarrow> rest) of
             [] \<Rightarrow> (Inr \<lparr>Items = map projected rows, LastEvaluatedKey = None\<rparr>, tbl)
           | n # rest \<Rightarrow>
               if 0 < n \<and> n \<le> length rows
               then (Inr \<lparr>Items = map projected (take n rows),
                          LastEvaluatedKey = Some (key_of (rows ! (n - 1)), rest)\<rparr>, tbl)
               else (Inr \<lparr>Items = map projected rows, LastEvaluatedKey = None\<rparr>, tbl)))"

text \<open>
  The condition \<open>attribute_not_exists(ObjectKey) OR (ObjectKey < :key)\<close> on the current
  value of the attribute, \<open>:key\<close> being a string: a stored value of another type is not
  less than a string.
\<close>

fun condition_holds :: "attribute_value option \<Rightarrow> string \<Rightarrow> bool" where
  "condition_holds None k = True"
| "condition_holds (Some (S s)) k = (s < k)"
| "condition_holds (Some a) k = False"

text \<open>
  The attributes of a row by name, and those of a key that has no row: none.
\<close>

definition attribute :: "row option \<Rightarrow> string \<Rightarrow> attribute_value option" where
  "attribute found a =
     (case found of
        None \<Rightarrow> None
      | Some r \<Rightarrow>
          if a = ''Bucket'' then Some (S (Bucket r))
          else if a = ''Channel'' then Some (S (Channel r))
          else if a = ''Pattern'' then Pattern r
          else if a = ''ObjectKey'' then ObjectKey r
          else None)"

text \<open>
  The value of a condition on the attributes of the addressed item. A placeholder stands
  for the string bound to it; \<open><\<close> holds between two strings, byte-wise, and between no
  other values.
\<close>

fun operand_value ::
  "row option \<Rightarrow> (string \<times> json) list \<Rightarrow> operand \<Rightarrow> attribute_value option" where
  "operand_value found vals (Path a) = attribute found a"
| "operand_value found vals (Placeholder p) =
     (case map_of vals p of None \<Rightarrow> None | Some v \<Rightarrow> map_option S (json_str v))"

fun attribute_less :: "attribute_value option \<Rightarrow> attribute_value option \<Rightarrow> bool" where
  "attribute_less (Some (S s)) (Some (S t)) = (s < t)"
| "attribute_less x y = False"

fun condition_value :: "row option \<Rightarrow> (string \<times> json) list \<Rightarrow> condition \<Rightarrow> bool" where
  "condition_value found vals (AttributeNotExists a) = (attribute found a = None)"
| "condition_value found vals (Less x y) =
     attribute_less (operand_value found vals x) (operand_value found vals y)"
| "condition_value found vals (Or p q) =
     (condition_value found vals p \<or> condition_value found vals q)"

text \<open>The placeholders of a request, and the attribute its update assigns.\<close>

fun operand_placeholders :: "operand \<Rightarrow> string list" where
  "operand_placeholders (Path a) = []"
| "operand_placeholders (Placeholder p) = [p]"

fun placeholders :: "condition \<Rightarrow> string list" where
  "placeholders (AttributeNotExists a) = []"
| "placeholders (Less x y) = operand_placeholders x @ operand_placeholders y"
| "placeholders (Or p q) = placeholders p @ placeholders q"

fun assigned :: "update \<Rightarrow> string" where
  "assigned (SET a p) = a"

fun assigned_from :: "update \<Rightarrow> string" where
  "assigned_from (SET a p) = p"

text \<open>
  A request the store accepts: every placeholder of its expressions is bound, and its
  update assigns no attribute of the key.
\<close>

definition accepted :: "update_item_input \<Rightarrow> bool" where
  "accepted req =
     (list_all (\<lambda>p. map_of (ExpressionAttributeValues req) p \<noteq> None)
        (assigned_from (UpdateExpression req) # placeholders (ConditionExpression req)) \<and>
      assigned (UpdateExpression req) \<noteq> ''Bucket'' \<and>
      assigned (UpdateExpression req) \<noteq> ''Channel'')"

text \<open>
  The row after the update \<open>SET a = :p\<close>. The table keeps the attributes \<open>Pattern\<close> and
  \<open>ObjectKey\<close> of a row beside its key; an assignment to another attribute leaves the row
  as it is.
\<close>

definition assign :: "update \<Rightarrow> (string \<times> json) list \<Rightarrow> row \<Rightarrow> row" where
  "assign u vals r =
     (case operand_value None vals (Placeholder (assigned_from u)) of
        None \<Rightarrow> r
      | Some v \<Rightarrow>
          if assigned u = ''ObjectKey'' then r\<lparr>ObjectKey := Some v\<rparr>
          else if assigned u = ''Pattern'' then r\<lparr>Pattern := Some v\<rparr>
          else r)"

text \<open>
  \<open>UpdateItem\<close>. The client refuses a bucket name or a bound value that is not a string
  before anything is sent. The store refuses a \<open>Channel\<close> that is not a string, as it does
  not fit the key schema, and a request that is not accepted. Then the condition is
  checked on the addressed item and the update applied in one step. A key that has no
  row is an item without attributes: the condition is evaluated on it, and the update
  creates the row. A failed condition is the \<open>ClientError\<close> with the code
  \<open>ConditionalCheckFailedException\<close> and leaves the table as it is.
\<close>

definition dynamodb_update_item ::
  "update_item_input \<Rightarrow> table \<Rightarrow> (exn + unit) \<times> table" where
  "dynamodb_update_item req tbl =
     (case json_str (KeyBucket req) of
        None \<Rightarrow> (Inl (BotoCoreError ''ParamValidationError''), tbl)
      | Some b \<Rightarrow>
     if list_ex (\<lambda>(p, v). json_str v = None) (ExpressionAttributeValues req)
     then (Inl (BotoCoreError ''ParamValidationError''), tbl)
     else
     (case attr_S (KeyChannel req) of
        Inl _ \<Rightarrow> (Inl (ClientError ''ValidationException''), tbl)
      | Inr c \<Rightarrow>
     if \<not> accepted req
     then (Inl (ClientError ''ValidationException''), tbl)
     else
     (let found = find (\<lambda>r. key_of r = (b, c)) tbl in
      if \<not> condition_value found (ExpressionAttributeValues req) (ConditionExpression req)
      then (Inl (ClientError ''ConditionalCheckFailedException''), tbl)
      else
        (case found of
           None \<Rightarrow>
             (Inr (),
              tbl @ [assign (UpdateExpression req) (ExpressionAttributeValues req)
                       \<lparr>Bucket = b, Channel = c, Pattern = None, ObjectKey = None\<rparr>])
         | Some r \<Rightarrow>
             (Inr (),
              map (\<lambda>x. if key_of x = (b, c)
                       then assign (UpdateExpression req) (ExpressionAttributeValues req) x
                       else x) tbl)))))"

definition dynamodb :: "nat list \<Rightarrow> (table, token) client" where
  "dynamodb sizes = \<lparr>query = dynamodb_query sizes, update_item = dynamodb_update_item\<rparr>"

subsection \<open>Notions the properties are stated with\<close>

text \<open>
  The order of pointers: an absent pointer is below every pointer, string pointers are
  ordered as their bytes are, and a pointer of another type is comparable to itself only.
\<close>

fun ptr_le :: "attribute_value option \<Rightarrow> attribute_value option \<Rightarrow> bool" where
  "ptr_le None q = True"
| "ptr_le (Some (S s)) (Some (S t)) = (s \<le> t)"
| "ptr_le (Some a) q = (q = Some a)"

text \<open>The registration of a row: all of it but the pointer.\<close>

definition registration_of :: "row \<Rightarrow> string \<times> string \<times> attribute_value option" where
  "registration_of r = (Bucket r, Channel r, Pattern r)"

text \<open>
  A row whose pattern is a string that compiles; the exception the loop ends with on a row
  that is not (lines 108, 109 and 110); a row whose pattern is found in the key \<open>k\<close>.
\<close>

definition valid_pattern :: "(string \<Rightarrow> (string \<Rightarrow> bool) option) \<Rightarrow> row \<Rightarrow> bool" where
  "valid_pattern re_compile r =
     (case Pattern r of Some (S p) \<Rightarrow> re_compile p \<noteq> None | _ \<Rightarrow> False)"

definition registration_error :: "row \<Rightarrow> exn" where
  "registration_error r = (case Pattern r of Some (S p) \<Rightarrow> RegexError | _ \<Rightarrow> AssertionError)"

definition matches :: "(string \<Rightarrow> (string \<Rightarrow> bool) option) \<Rightarrow> row \<Rightarrow> string \<Rightarrow> bool" where
  "matches re_compile r k =
     (case Pattern r of
        Some (S p) \<Rightarrow> (case re_compile p of None \<Rightarrow> False | Some search \<Rightarrow> search k)
      | _ \<Rightarrow> False)"

text \<open>Every registration of the bucket \<open>b\<close> has a string pattern that compiles.\<close>

definition valid_registrations :: "(string \<Rightarrow> (string \<Rightarrow> bool) option) \<Rightarrow> string \<Rightarrow> table \<Rightarrow> bool" where
  "valid_registrations re_compile b tbl =
     list_all (\<lambda>r. Bucket r \<noteq> b \<or> valid_pattern re_compile r) tbl"

text \<open>
  The rows an invocation for the bucket \<open>b\<close> gets through: those before the first row
  whose pattern is not valid. What the invocation for the creation of \<open>k\<close> does to such a
  row, and what it prints for it.
\<close>

definition processed :: "(string \<Rightarrow> (string \<Rightarrow> bool) option) \<Rightarrow> string \<Rightarrow> table \<Rightarrow> row list" where
  "processed re_compile b tbl = takeWhile (valid_pattern re_compile) (bucket_rows b tbl)"

definition advanced :: "(string \<Rightarrow> (string \<Rightarrow> bool) option) \<Rightarrow> string \<Rightarrow> row \<Rightarrow> row" where
  "advanced re_compile k r =
     (if matches re_compile r k \<and> condition_holds (ObjectKey r) k
      then r\<lparr>ObjectKey := Some (S k)\<rparr> else r)"

definition report :: "(string \<Rightarrow> (string \<Rightarrow> bool) option) \<Rightarrow> string \<Rightarrow> row \<Rightarrow> line list" where
  "report re_compile k r =
     (if matches re_compile r k
      then [Updating (Channel r), if condition_holds (ObjectKey r) k then Ok else AlreadyUpToDate]
      else [])"

text \<open>
  The requests an invocation for the creation of \<open>k\<close> in the bucket \<open>b\<close> hands to
  \<open>update_item\<close>: one for each row it gets through whose pattern is found in \<open>k\<close>, in order.
\<close>

definition update_requests ::
  "(string \<Rightarrow> (string \<Rightarrow> bool) option) \<Rightarrow> string \<Rightarrow> string \<Rightarrow> table \<Rightarrow> update_item_input list" where
  "update_requests re_compile b k tbl =
     map (\<lambda>r. update_item_call (JStr b) (S (Channel r)) (JStr k))
       (filter (\<lambda>r. matches re_compile r k) (processed re_compile b tbl))"

text \<open>
  The exception an invocation for the bucket \<open>b\<close> ends with, if any, and the table it
  leaves, when its identifiers are strings.
\<close>

definition failure :: "(string \<Rightarrow> (string \<Rightarrow> bool) option) \<Rightarrow> string \<Rightarrow> table \<Rightarrow> exn option" where
  "failure re_compile b tbl =
     (case dropWhile (valid_pattern re_compile) (bucket_rows b tbl) of
        [] \<Rightarrow> None
      | r # rest \<Rightarrow> Some (registration_error r))"

definition applied :: "(string \<Rightarrow> (string \<Rightarrow> bool) option) \<Rightarrow> string \<Rightarrow> string \<Rightarrow> table \<Rightarrow> table" where
  "applied re_compile b k tbl =
     map (\<lambda>r. if r \<in> set (processed re_compile b tbl) then advanced re_compile k r else r) tbl"

text \<open>The lines printed before the first query (lines 87 to 91).\<close>

definition banner :: "json \<Rightarrow> json \<Rightarrow> line list" where
  "banner b k = [Rule, BucketLine b, KeyLine k, Rule, Blank]"





subsection \<open>Example data\<close>

text \<open>
  A parser that knows three messages, an engine that knows two patterns, and the table
  of the scenario of the specification with a second channel, and a second bucket whose
  last registration has a pattern that does not compile.
\<close>

definition example_loads :: "string \<Rightarrow> json option" where
  "example_loads s =
     (if s = ''M1'' then Some (direct_payload ''example.com'' ''builds/v1.zip'')
      else if s = ''M2'' then Some (sns_payload ''M1'')
      else if s = ''M3'' then Some (JObj [(''Records'', JArr [JNull, JNull])])
      else None)"

definition example_re_compile :: "string \<Rightarrow> (string \<Rightarrow> bool) option" where
  "example_re_compile p =
     (if p = ''^builds/'' then Some (\<lambda>s. take 7 s = ''builds/'')
      else if p = ''zip'' then Some (str_contains ''zip'')
      else None)"

text \<open>A client whose writes are all refused for a reason other than the condition.\<close>

definition example_throttled :: "(table, token) client" where
  "example_throttled =
     \<lparr>query = dynamodb_query [],
      update_item = (\<lambda>req tbl. (Inl (ClientError ''ProvisionedThroughputExceededException''), tbl))\<rparr>"

definition example_table :: table where
  "example_table =
     [\<lparr>Bucket = ''example.com'', Channel = ''latest'', Pattern = Some (S ''^builds/''), ObjectKey = None\<rparr>,
      \<lparr>Bucket = ''example.com'', Channel = ''zips'', Pattern = Some (S ''zip''), ObjectKey = Some (S ''a.zip'')\<rparr>,
      \<lparr>Bucket = ''other.org'', Channel = ''builds'', Pattern = Some (S ''^builds/''), ObjectKey = None\<rparr>,
      \<lparr>Bucket = ''other.org'', Channel = ''latest'', Pattern = Some (S ''(''), ObjectKey = None\<rparr>]"

text \<open>
  A bucket whose first registration has a pattern that does not compile, before one whose
  pattern does.
\<close>

definition example_blocked :: table where
  "example_blocked =
     [\<lparr>Bucket = ''example.net'', Channel = ''broken'', Pattern = Some (S ''(''), ObjectKey = None\<rparr>,
      \<lparr>Bucket = ''example.net'', Channel = ''zips'', Pattern = Some (S ''zip''), ObjectKey = None\<rparr>]"

section \<open>Properties\<close>

lemma s3ev_of_direct_payload:
  "s3ev_of loads (direct_payload b k) = Inr (s3_record b k)"
  by (simp add: s3ev_of_def unwrapped_def direct_payload_def assert_one_record_def first_record_def)

subsection \<open>The payload\<close>

lemma and_then_Inr_iff:
  "and_then m f = Inr y \<longleftrightarrow> (\<exists>x. m = Inr x \<and> f x = Inr y)"
  by (cases m) auto

lemma and_then_Inl_iff:
  "and_then m f = Inl e \<longleftrightarrow> (m = Inl e \<or> (\<exists>x. m = Inr x \<and> f x = Inl e))"
  by (cases m) auto

lemma handler_normalize_fails:
  "normalize loads event = Inl e \<Longrightarrow>
   lambda_handler loads rc db event st =
     Some \<lparr>raised = Some e, store = st,
       printed = (case s3ev_of loads event of Inl _ \<Rightarrow> []
                  | Inr s3ev \<Rightarrow> (case bucket_name s3ev of Inl _ \<Rightarrow> [Rule] | Inr b \<Rightarrow> [Rule, BucketLine b]))\<rparr>"
  by (auto simp: normalize_def lambda_handler_def split: sum.splits)

lemma handler_normalize_ok:
  "normalize loads event = Inr ev \<Longrightarrow>
   \<exists>s3ev. s3ev_of loads event = Inr s3ev \<and> bucket_name s3ev = Inr (collection_id ev) \<and>
     object_key s3ev = Inr (object_id ev) \<and>
     lambda_handler loads rc db event st =
       query_loop db rc s3ev None st
         [Rule, BucketLine (collection_id ev), KeyLine (object_id ev), Rule, Blank]"
  by (auto simp: normalize_def lambda_handler_def split: sum.splits)

lemma assert_one_record_fails:
  "subscript event ''Records'' = Inr recs \<Longrightarrow> py_len recs = Inr n \<Longrightarrow> n \<noteq> 1 \<Longrightarrow>
   assert_one_record event = Inl AssertionError"
  by (simp add: assert_one_record_def)

lemma assert_one_record_ok:
  "subscript event ''Records'' = Inr recs \<Longrightarrow> py_len recs = Inr 1 \<Longrightarrow>
   assert_one_record event = Inr ()"
  by (simp add: assert_one_record_def)

lemma unwrapped_count_fails:
  "subscript event ''Records'' = Inr recs \<Longrightarrow> py_len recs = Inr n \<Longrightarrow> n \<noteq> 1 \<Longrightarrow>
   unwrapped loads event = Inl AssertionError"
  by (simp add: unwrapped_def assert_one_record_fails)

lemma unwrapped_envelope:
  "subscript event ''Records'' = Inr recs \<Longrightarrow> py_len recs = Inr 1 \<Longrightarrow> index0 recs = Inr r \<Longrightarrow>
   py_in ''Sns'' r = Inr True \<Longrightarrow> subscript r ''Sns'' = Inr sns \<Longrightarrow>
   subscript sns ''Message'' = Inr (JStr msg) \<Longrightarrow> loads msg = Some inner \<Longrightarrow>
   unwrapped loads event = and_then (assert_one_record inner) (\<lambda>_. Inr inner)"
  by (simp add: unwrapped_def assert_one_record_ok first_record_def)

lemma unwrapped_direct:
  "subscript event ''Records'' = Inr recs \<Longrightarrow> py_len recs = Inr 1 \<Longrightarrow> index0 recs = Inr r \<Longrightarrow>
   py_in ''Sns'' r = Inr False \<Longrightarrow>
   unwrapped loads event = Inr event"
  by (simp add: unwrapped_def assert_one_record_ok first_record_def)

lemma normalize_of_unwrapped:
  "unwrapped loads event = Inr ev \<Longrightarrow> first_record ev = Inr r \<Longrightarrow> subscript r ''s3'' = Inr s3ev \<Longrightarrow>
   bucket_name s3ev = Inr b \<Longrightarrow> object_key s3ev = Inr k \<Longrightarrow>
   normalize loads event = Inr \<lparr>collection_id = b, object_id = k\<rparr>"
  by (simp add: normalize_def s3ev_of_def)

lemma normalize_unwrapped_fails:
  "unwrapped loads event = Inl e \<Longrightarrow> normalize loads event = Inl e"
  by (simp add: normalize_def s3ev_of_def)

lemma subscript_missing:
  "k \<notin> fst ` set kvs \<Longrightarrow> subscript (JObj kvs) k = Inl KeyError"
proof -
  assume "k \<notin> fst ` set kvs"
  then have "map_of kvs k = None" by (simp add: map_of_eq_None_iff)
  then show ?thesis by simp
qed

lemma normalize_no_s3:
  "unwrapped loads event = Inr ev \<Longrightarrow> first_record ev = Inr (JObj kvs) \<Longrightarrow> ''s3'' \<notin> fst ` set kvs \<Longrightarrow>
   normalize loads event = Inl KeyError \<and> s3ev_of loads event = Inl KeyError"
  by (simp add: normalize_def s3ev_of_def subscript_missing del: subscript.simps)

lemma unwrapped_sns_payload:
  "loads m = Some inner \<Longrightarrow>
   unwrapped loads (sns_payload m) = and_then (assert_one_record inner) (\<lambda>_. Inr inner)"
  by (simp add: unwrapped_def sns_payload_def assert_one_record_def first_record_def)

lemma assert_one_record_sns: "assert_one_record (sns_payload m) = Inr ()"
  by (simp add: sns_payload_def assert_one_record_def)

lemma assert_one_record_direct: "assert_one_record (direct_payload b k) = Inr ()"
  by (simp add: direct_payload_def assert_one_record_def)

lemma bucket_name_s3_record: "bucket_name (s3_record b k) = Inr (JStr b)"
  by (simp add: bucket_name_def s3_record_def)

lemma object_key_s3_record: "object_key (s3_record b k) = Inr (JStr k)"
  by (simp add: object_key_def s3_record_def)

lemma normalize_direct_payload:
  "normalize loads (direct_payload b k) = Inr \<lparr>collection_id = JStr b, object_id = JStr k\<rparr>"
  by (simp add: normalize_def s3ev_of_direct_payload bucket_name_s3_record object_key_s3_record)


lemma handler_unwrapped_fails:
  "unwrapped loads event = Inl e \<Longrightarrow>
   lambda_handler loads rc db event st = Some \<lparr>raised = Some e, store = st, printed = []\<rparr>"
  by (simp add: lambda_handler_def s3ev_of_def)

lemma handler_s3ev_fails:
  "s3ev_of loads event = Inl e \<Longrightarrow>
   lambda_handler loads rc db event st = Some \<lparr>raised = Some e, store = st, printed = []\<rparr>"
  by (simp add: lambda_handler_def)

text \<open>
  Claim C5. The assertion of line 80 fails whenever the record count of the payload is
  not one, and the invocation ends there, with nothing printed and the store untouched.
  When the only record has an \<open>Sns\<close> entry, the event becomes the parsed message of the
  envelope, whatever that message holds, provided its own record count is one (line 85);
  otherwise the assertion of line 85 fails. When the record has no \<open>Sns\<close> entry the event is
  kept. In both cases the identifiers of the creation event are the values found under
  \<open>s3.bucket.name\<close> and \<open>s3.object.key\<close> of the first record, unchanged. The
  \<open>MalformedEventError\<close> of the specification is the \<open>AssertionError\<close> of the script.
\<close>

theorem normalize_single_record:
  "(subscript event ''Records'' = Inr recs \<and> py_len recs = Inr n \<and> n \<noteq> 1 \<longrightarrow>
      normalize loads event = Inl AssertionError \<and>
      lambda_handler loads rc db event st =
        Some \<lparr>raised = Some AssertionError, store = st, printed = []\<rparr>)
   \<and> (subscript event ''Records'' = Inr recs \<and> py_len recs = Inr 1 \<and> index0 recs = Inr r \<and>
       py_in ''Sns'' r = Inr True \<and> subscript r ''Sns'' = Inr sns \<and>
       subscript sns ''Message'' = Inr (JStr msg) \<and> loads msg = Some inner \<longrightarrow>
         unwrapped loads event = and_then (assert_one_record inner) (\<lambda>_. Inr inner))
   \<and> (subscript event ''Records'' = Inr recs \<and> py_len recs = Inr 1 \<and> index0 recs = Inr r \<and>
       py_in ''Sns'' r = Inr True \<and> subscript r ''Sns'' = Inr sns \<and>
       subscript sns ''Message'' = Inr (JStr msg) \<and> loads msg = Some inner \<and>
       subscript inner ''Records'' = Inr recs' \<and> py_len recs' = Inr n' \<and> n' \<noteq> 1 \<longrightarrow>
         normalize loads event = Inl AssertionError \<and>
         lambda_handler loads rc db event st =
           Some \<lparr>raised = Some AssertionError, store = st, printed = []\<rparr>)
   \<and> (subscript event ''Records'' = Inr recs \<and> py_len recs = Inr 1 \<and> index0 recs = Inr r \<and>
       py_in ''Sns'' r = Inr False \<longrightarrow>
         unwrapped loads event = Inr event)
   \<and> (unwrapped loads event = Inr ev \<and> first_record ev = Inr r' \<and> subscript r' ''s3'' = Inr s3ev \<and>
       bucket_name s3ev = Inr b \<and> object_key s3ev = Inr k \<longrightarrow>
         normalize loads event = Inr \<lparr>collection_id = b, object_id = k\<rparr>)"
proof (intro conjI impI)
  assume "subscript event ''Records'' = Inr recs \<and> py_len recs = Inr n \<and> n \<noteq> 1"
  then have u: "unwrapped loads event = Inl AssertionError"
    by (simp add: unwrapped_count_fails)
  show "normalize loads event = Inl AssertionError"
    using u by (rule normalize_unwrapped_fails)
  show "lambda_handler loads rc db event st =
      Some \<lparr>raised = Some AssertionError, store = st, printed = []\<rparr>"
    using u by (rule handler_unwrapped_fails)
next
  assume "subscript event ''Records'' = Inr recs \<and> py_len recs = Inr 1 \<and> index0 recs = Inr r \<and>
       py_in ''Sns'' r = Inr True \<and> subscript r ''Sns'' = Inr sns \<and>
       subscript sns ''Message'' = Inr (JStr msg) \<and> loads msg = Some inner"
  then show "unwrapped loads event = and_then (assert_one_record inner) (\<lambda>_. Inr inner)"
    by (simp add: unwrapped_envelope)
next
  assume h: "subscript event ''Records'' = Inr recs \<and> py_len recs = Inr 1 \<and> index0 recs = Inr r \<and>
       py_in ''Sns'' r = Inr True \<and> subscript r ''Sns'' = Inr sns \<and>
       subscript sns ''Message'' = Inr (JStr msg) \<and> loads msg = Some inner \<and>
       subscript inner ''Records'' = Inr recs' \<and> py_len recs' = Inr n' \<and> n' \<noteq> 1"
  then have "unwrapped loads event = and_then (assert_one_record inner) (\<lambda>_. Inr inner)"
    by (simp add: unwrapped_envelope)
  moreover from h have "assert_one_record inner = Inl AssertionError"
    by (simp add: assert_one_record_fails)
  ultimately have u: "unwrapped loads event = Inl AssertionError" by simp
  show "normalize loads event = Inl AssertionError"
    using u by (rule normalize_unwrapped_fails)
  show "lambda_handler loads rc db event st =
      Some \<lparr>raised = Some AssertionError, store = st, printed = []\<rparr>"
    using u by (rule handler_unwrapped_fails)
next
  assume "subscript event ''Records'' = Inr recs \<and> py_len recs = Inr 1 \<and> index0 recs = Inr r \<and>
       py_in ''Sns'' r = Inr False"
  then show "unwrapped loads event = Inr event"
    by (simp add: unwrapped_direct)
next
  assume "unwrapped loads event = Inr ev \<and> first_record ev = Inr r' \<and> subscript r' ''s3'' = Inr s3ev \<and>
       bucket_name s3ev = Inr b \<and> object_key s3ev = Inr k"
  then show "normalize loads event = Inr \<lparr>collection_id = b, object_id = k\<rparr>"
    by (simp add: normalize_of_unwrapped)
qed

theorem normalize_single_record_witness:
  "normalize example_loads (JObj [(''Records'', JArr [])]) = Inl AssertionError
   \<and> normalize example_loads (JObj [(''Records'', JArr [JNull, JNull])]) = Inl AssertionError
   \<and> normalize example_loads (sns_payload ''M3'') = Inl AssertionError
   \<and> unwrapped example_loads (sns_payload ''M1'') = Inr (direct_payload ''example.com'' ''builds/v1.zip'')
   \<and> unwrapped example_loads (direct_payload ''example.com'' ''builds/v1.zip'')
       = Inr (direct_payload ''example.com'' ''builds/v1.zip'')
   \<and> normalize example_loads (sns_payload ''M1'')
       = Inr \<lparr>collection_id = JStr ''example.com'', object_id = JStr ''builds/v1.zip''\<rparr>"
proof -
  let ?d = "direct_payload ''example.com'' ''builds/v1.zip''"
  let ?s3 = "s3_record ''example.com'' ''builds/v1.zip''"
  let ?env = "\<lambda>m. JObj [(''Sns'', JObj [(''Message'', JStr m)])]"
  have a: "normalize example_loads (JObj [(''Records'', JArr [])]) = Inl AssertionError"
    by (rule normalize_single_record [where recs = "JArr []" and n = 0,
          THEN conjunct1, THEN mp, THEN conjunct1]) simp
  have b: "normalize example_loads (JObj [(''Records'', JArr [JNull, JNull])]) = Inl AssertionError"
    by (rule normalize_single_record [where recs = "JArr [JNull, JNull]" and n = 2,
          THEN conjunct1, THEN mp, THEN conjunct1]) simp
  have c: "normalize example_loads (sns_payload ''M3'') = Inl AssertionError"
    by (rule normalize_single_record [where recs = "JArr [?env ''M3'']" and r = "?env ''M3''"
          and sns = "JObj [(''Message'', JStr ''M3'')]" and msg = "''M3''"
          and inner = "JObj [(''Records'', JArr [JNull, JNull])]"
          and recs' = "JArr [JNull, JNull]" and n' = 2,
          THEN conjunct2, THEN conjunct2, THEN conjunct1, THEN mp, THEN conjunct1])
      (simp add: sns_payload_def example_loads_def)
  have d: "unwrapped example_loads (sns_payload ''M1'') = Inr ?d"
    using normalize_single_record [where event = "sns_payload ''M1''"
          and recs = "JArr [?env ''M1'']" and r = "?env ''M1''" and loads = example_loads
          and sns = "JObj [(''Message'', JStr ''M1'')]" and msg = "''M1''" and inner = ?d,
          THEN conjunct2, THEN conjunct1, THEN mp]
    by (simp add: sns_payload_def example_loads_def assert_one_record_direct)
  have e: "unwrapped example_loads ?d = Inr ?d"
    by (rule normalize_single_record [where recs = "JArr [JObj [(''s3'', ?s3)]]"
          and r = "JObj [(''s3'', ?s3)]",
          THEN conjunct2, THEN conjunct2, THEN conjunct2, THEN conjunct1, THEN mp])
      (simp add: direct_payload_def)
  have f: "normalize example_loads (sns_payload ''M1'')
       = Inr \<lparr>collection_id = JStr ''example.com'', object_id = JStr ''builds/v1.zip''\<rparr>"
    by (rule normalize_single_record [where ev = ?d and r' = "JObj [(''s3'', ?s3)]" and ?s3ev = ?s3,
          THEN conjunct2, THEN conjunct2, THEN conjunct2, THEN conjunct2, THEN mp])
      (simp add: d direct_payload_def first_record_def bucket_name_s3_record object_key_s3_record)
  from a b c d e f show ?thesis by simp
qed

text \<open>
  Claim C10. When the first record of the event that lines 80 to 85 arrive at (the payload
  itself, or the parsed message of the one envelope removed) is a dict without the key
  \<open>s3\<close>, line 86 raises \<open>KeyError\<close>, not the \<open>AssertionError\<close> of a malformed event: nothing is
  printed and the store is untouched. A payload enveloped twice is such an event: the
  inner envelope has one record, with \<open>Sns\<close> and without \<open>s3\<close>, and is not unwrapped.
\<close>

theorem missing_s3_key_error:
  "(unwrapped loads event = Inr ev \<and> first_record ev = Inr (JObj kvs) \<and> ''s3'' \<notin> fst ` set kvs \<longrightarrow>
      normalize loads event = Inl KeyError \<and>
      lambda_handler loads rc db event st = Some \<lparr>raised = Some KeyError, store = st, printed = []\<rparr>)
   \<and> (subscript event ''Records'' = Inr (JArr [JObj kvs]) \<and> ''Sns'' \<notin> fst ` set kvs \<and>
       ''s3'' \<notin> fst ` set kvs \<longrightarrow>
      lambda_handler loads rc db event st = Some \<lparr>raised = Some KeyError, store = st, printed = []\<rparr>)
   \<and> (loads m1 = Some (sns_payload m2) \<longrightarrow>
      unwrapped loads (sns_payload m1) = Inr (sns_payload m2) \<and>
      normalize loads (sns_payload m1) = Inl KeyError \<and>
      lambda_handler loads rc db (sns_payload m1) st =
        Some \<lparr>raised = Some KeyError, store = st, printed = []\<rparr>)"
proof (intro conjI impI; (elim conjE)?)
  assume u: "unwrapped loads event = Inr ev" and f: "first_record ev = Inr (JObj kvs)"
    and n: "''s3'' \<notin> fst ` set kvs"
  from normalize_no_s3 [OF u f n]
  show "normalize loads event = Inl KeyError"
    and "lambda_handler loads rc db event st = Some \<lparr>raised = Some KeyError, store = st, printed = []\<rparr>"
    by (simp_all add: handler_s3ev_fails)
next
  assume r: "subscript event ''Records'' = Inr (JArr [JObj kvs])" and s: "''Sns'' \<notin> fst ` set kvs"
    and n: "''s3'' \<notin> fst ` set kvs"
  have u: "unwrapped loads event = Inr event"
    by (rule unwrapped_direct [OF r, of "JObj kvs"]) (use s in simp_all)
  have f: "first_record event = Inr (JObj kvs)"
    by (simp add: first_record_def r)
  from normalize_no_s3 [OF u f n]
  show "lambda_handler loads rc db event st = Some \<lparr>raised = Some KeyError, store = st, printed = []\<rparr>"
    by (simp add: handler_s3ev_fails)
next
  assume l: "loads m1 = Some (sns_payload m2)"
  show u: "unwrapped loads (sns_payload m1) = Inr (sns_payload m2)"
    using l by (simp add: unwrapped_sns_payload assert_one_record_sns)
  have f: "first_record (sns_payload m2) = Inr (JObj [(''Sns'', JObj [(''Message'', JStr m2)])])"
    by (simp add: first_record_def sns_payload_def)
  have n: "''s3'' \<notin> fst ` set [(''Sns'', JObj [(''Message'', JStr m2)])]" by simp
  from normalize_no_s3 [OF u f n]
  show "normalize loads (sns_payload m1) = Inl KeyError"
    and "lambda_handler loads rc db (sns_payload m1) st =
        Some \<lparr>raised = Some KeyError, store = st, printed = []\<rparr>"
    by (simp_all add: handler_s3ev_fails)
qed

lemma unwrapped_direct_payload:
  "unwrapped loads (direct_payload b k) = Inr (direct_payload b k)"
  by (simp add: unwrapped_def direct_payload_def assert_one_record_def first_record_def)

lemma extraction_normalize: "fst (extraction loads event) = normalize loads event"
  by (simp add: extraction_def normalize_def split: sum.splits)

lemma handler_extraction_fails:
  "normalize loads event = Inl e \<Longrightarrow>
   lambda_handler loads rc db event st =
     Some \<lparr>raised = Some e, store = st, printed = snd (extraction loads event)\<rparr>"
  by (auto simp: normalize_def lambda_handler_def extraction_def split: sum.splits)

lemma extraction_fails_length:
  "normalize loads event = Inl e \<Longrightarrow> length (snd (extraction loads event)) \<le> 2"
  by (auto simp: normalize_def extraction_def split: sum.splits)

lemma extraction_ok:
  "normalize loads event = Inr ev \<Longrightarrow>
   snd (extraction loads event) = banner (collection_id ev) (object_id ev)"
  by (auto simp: normalize_def extraction_def banner_def split: sum.splits)

lemma normalize_okD:
  "normalize loads event = Inr ev \<Longrightarrow>
   \<exists>s3ev. s3ev_of loads event = Inr s3ev \<and> bucket_name s3ev = Inr (collection_id ev) \<and>
     object_key s3ev = Inr (object_id ev)"
  by (auto simp: normalize_def and_then_Inr_iff)

lemma handler_of_s3ev:
  "s3ev_of loads event = Inr s3ev \<Longrightarrow> bucket_name s3ev = Inr bj \<Longrightarrow> object_key s3ev = Inr kj \<Longrightarrow>
   lambda_handler loads rc db event st = query_loop db rc s3ev None st (banner bj kj)"
  by (simp add: lambda_handler_def banner_def)

text \<open>
  Claim C8, in the form in which it holds. Lines 80 to 91 are deterministic and touch no
  store, but they are not free of output: they print the banner on standard output, as
  far as they get. The creation event that \<open>extraction\<close> returns beside the lines printed
  is the one of \<open>normalize\<close>. Take two runs on the same payload, each with a pattern
  engine, a client and a state of the store of its own. When the extraction fails, both
  end with the same exception, each store as it was, having printed the same lines, at
  most the first two of the banner. When it succeeds, both have printed the whole banner
  and go on to the loop with the same record and the identifiers extracted. The
  identifiers are the strings of the payload, byte for byte, direct or enveloped.
\<close>

theorem normalize_deterministic:
  "fst (extraction loads event) = normalize loads event
   \<and> (normalize loads event = Inl e \<longrightarrow>
        lambda_handler loads rc db event st =
          Some \<lparr>raised = Some e, store = st, printed = snd (extraction loads event)\<rparr> \<and>
        lambda_handler loads rc' db' event st' =
          Some \<lparr>raised = Some e, store = st', printed = snd (extraction loads event)\<rparr> \<and>
        length (snd (extraction loads event)) \<le> 2)
   \<and> (normalize loads event = Inr ev \<longrightarrow>
        snd (extraction loads event) = banner (collection_id ev) (object_id ev) \<and>
        (\<exists>s3ev. bucket_name s3ev = Inr (collection_id ev) \<and>
           object_key s3ev = Inr (object_id ev) \<and>
           lambda_handler loads rc db event st =
             query_loop db rc s3ev None st (banner (collection_id ev) (object_id ev)) \<and>
           lambda_handler loads rc' db' event st' =
             query_loop db' rc' s3ev None st' (banner (collection_id ev) (object_id ev))))
   \<and> normalize loads (direct_payload b k) = Inr \<lparr>collection_id = JStr b, object_id = JStr k\<rparr>
   \<and> (loads msg = Some (direct_payload b k) \<longrightarrow>
        normalize loads (sns_payload msg) = Inr \<lparr>collection_id = JStr b, object_id = JStr k\<rparr>)"
proof (intro conjI impI)
  show "fst (extraction loads event) = normalize loads event"
    by (rule extraction_normalize)
next
  assume n: "normalize loads event = Inl e"
  from n show "lambda_handler loads rc db event st =
      Some \<lparr>raised = Some e, store = st, printed = snd (extraction loads event)\<rparr>"
    by (rule handler_extraction_fails)
  from n show "lambda_handler loads rc' db' event st' =
      Some \<lparr>raised = Some e, store = st', printed = snd (extraction loads event)\<rparr>"
    by (rule handler_extraction_fails)
  from n show "length (snd (extraction loads event)) \<le> 2"
    by (rule extraction_fails_length)
next
  assume n: "normalize loads event = Inr ev"
  from n show "snd (extraction loads event) = banner (collection_id ev) (object_id ev)"
    by (rule extraction_ok)
  from normalize_okD [OF n]
  obtain s3ev where s: "s3ev_of loads event = Inr s3ev"
    and b: "bucket_name s3ev = Inr (collection_id ev)"
    and k: "object_key s3ev = Inr (object_id ev)" by blast
  from b k handler_of_s3ev [OF s b k, of rc db st] handler_of_s3ev [OF s b k, of rc' db' st']
  show "\<exists>s3ev. bucket_name s3ev = Inr (collection_id ev) \<and>
           object_key s3ev = Inr (object_id ev) \<and>
           lambda_handler loads rc db event st =
             query_loop db rc s3ev None st (banner (collection_id ev) (object_id ev)) \<and>
           lambda_handler loads rc' db' event st' =
             query_loop db' rc' s3ev None st' (banner (collection_id ev) (object_id ev))"
    by blast
next
  show "normalize loads (direct_payload b k) = Inr \<lparr>collection_id = JStr b, object_id = JStr k\<rparr>"
    by (rule normalize_direct_payload)
next
  assume l: "loads msg = Some (direct_payload b k)"
  have u: "unwrapped loads (sns_payload msg) = Inr (direct_payload b k)"
    using l by (simp add: unwrapped_sns_payload assert_one_record_direct)
  have "s3ev_of loads (sns_payload msg) = s3ev_of loads (direct_payload b k)"
    by (simp only: s3ev_of_def u unwrapped_direct_payload)
  then show "normalize loads (sns_payload msg) = Inr \<lparr>collection_id = JStr b, object_id = JStr k\<rparr>"
    using normalize_direct_payload [of loads b k] by (simp add: normalize_def)
qed

subsection \<open>The loops, for every client\<close>

lemma for_items_append:
  "for_items db rc s3ev (xs @ ys) st out =
     (case raised (for_items db rc s3ev xs st out) of
        Some e \<Rightarrow> for_items db rc s3ev xs st out
      | None \<Rightarrow> for_items db rc s3ev ys (store (for_items db rc s3ev xs st out))
                  (printed (for_items db rc s3ev xs st out)))"
  by (induction xs arbitrary: st out) (auto simp: Let_def split: option.splits)

lemma for_items_append_ok:
  "for_items db rc s3ev xs st0 out0 = \<lparr>raised = None, store = st, printed = out\<rparr> \<Longrightarrow>
   for_items db rc s3ev (xs @ ys) st0 out0 = for_items db rc s3ev ys st out"
  by (simp add: for_items_append)

lemma for_items_Cons_raised:
  "raised (do_item db rc s3ev it st out) = Some e \<Longrightarrow>
   for_items db rc s3ev (it # its) st out = do_item db rc s3ev it st out"
  by (simp add: Let_def)

lemma for_items_Cons_ok:
  "do_item db rc s3ev it st out = \<lparr>raised = None, store = st', printed = out'\<rparr> \<Longrightarrow>
   for_items db rc s3ev (it # its) st out = for_items db rc s3ev its st' out'"
  by (simp add: Let_def)

lemma query_loop_raised:
  "bucket_name s3ev = Inr b \<Longrightarrow> query db b resume st = (Inr qr, st1) \<Longrightarrow>
   raised (for_items db rc s3ev (Items qr) st1 out) = Some e \<Longrightarrow>
   query_loop db rc s3ev resume st out = Some (for_items db rc s3ev (Items qr) st1 out)"
  by (subst query_loop.simps) simp

lemma query_loop_last_page:
  "bucket_name s3ev = Inr b \<Longrightarrow> query db b resume st = (Inr qr, st1) \<Longrightarrow>
   LastEvaluatedKey qr = None \<Longrightarrow>
   query_loop db rc s3ev resume st out = Some (for_items db rc s3ev (Items qr) st1 out)"
  by (subst query_loop.simps) (simp split: option.splits)

lemma query_loop_next_page:
  "bucket_name s3ev = Inr b \<Longrightarrow> query db b resume st = (Inr qr, st1) \<Longrightarrow>
   LastEvaluatedKey qr = Some tok \<Longrightarrow>
   for_items db rc s3ev (Items qr) st1 out = \<lparr>raised = None, store = st2, printed = out2\<rparr> \<Longrightarrow>
   query_loop db rc s3ev resume st out = query_loop db rc s3ev (Some tok) st2 out2"
  by (subst query_loop.simps) simp

lemma query_loop_query_fails:
  "bucket_name s3ev = Inr b \<Longrightarrow> query db b resume st = (Inl e, st1) \<Longrightarrow>
   query_loop db rc s3ev resume st out = Some \<lparr>raised = Some e, store = st1, printed = out\<rparr>"
  by (subst query_loop.simps) simp

lemma write_item_failed_condition:
  "bucket_name s3ev = Inr b \<Longrightarrow> object_key s3ev = Inr k \<Longrightarrow>
   update_item db (update_item_call b ch k) st = (Inl (ClientError ''ConditionalCheckFailedException''), st') \<Longrightarrow>
   write_item db s3ev ch c st out =
     \<lparr>raised = None, store = st', printed = out @ [Updating c, AlreadyUpToDate]\<rparr>"
  by (simp add: write_item_def)

lemma write_item_other_error:
  "bucket_name s3ev = Inr b \<Longrightarrow> object_key s3ev = Inr k \<Longrightarrow>
   update_item db (update_item_call b ch k) st = (Inl e, st') \<Longrightarrow> e \<noteq> ClientError ''ConditionalCheckFailedException'' \<Longrightarrow>
   write_item db s3ev ch c st out = \<lparr>raised = Some e, store = st', printed = out @ [Updating c]\<rparr>"
  by (cases e) (simp_all add: write_item_def)

lemma write_item_ok:
  "bucket_name s3ev = Inr b \<Longrightarrow> object_key s3ev = Inr k \<Longrightarrow>
   update_item db (update_item_call b ch k) st = (Inr u, st') \<Longrightarrow>
   write_item db s3ev ch c st out = \<lparr>raised = None, store = st', printed = out @ [Updating c, Ok]\<rparr>"
  by (simp add: write_item_def)

lemma do_item_match:
  "match_item rc s3ev it = Inr (Some (ch, c)) \<Longrightarrow>
   do_item db rc s3ev it st out = write_item db s3ev ch c st out"
  by (simp add: do_item_def)

lemma do_item_no_match:
  "match_item rc s3ev it = Inr None \<Longrightarrow>
   do_item db rc s3ev it st out = \<lparr>raised = None, store = st, printed = out\<rparr>"
  by (simp add: do_item_def)

lemma do_item_match_fails:
  "match_item rc s3ev it = Inl e \<Longrightarrow>
   do_item db rc s3ev it st out = \<lparr>raised = Some e, store = st, printed = out\<rparr>"
  by (simp add: do_item_def)

lemma match_item_bad_pattern:
  "it ''Channel'' = Some ch \<Longrightarrow> it ''Pattern'' = Some (S p) \<Longrightarrow> rc p = None \<Longrightarrow>
   object_key s3ev = Inr k \<Longrightarrow> match_item rc s3ev it = Inl RegexError"
  by (simp add: match_item_def re_search_def)

text \<open>
  Claim C4. Let the items \<open>pre\<close> of a page be processed without an exception, and let the
  next item match. If its write ends with the \<open>ClientError\<close> of code
  \<open>ConditionalCheckFailedException\<close>, the line \<open>Already up to date.\<close> is printed and the loop
  goes on with the remaining items, from the store the call left. If the write ends with
  any other exception \<open>e\<close>, the invocation ends with \<open>e\<close> itself: the remaining items and
  pages are not looked at, no further call reaches the store, and the store is the one
  the earlier writes and the failed call left. This holds for every client.
\<close>

theorem store_errors_on_write:
  "match_item rc s3ev it = Inr (Some (ch, c)) \<and> bucket_name s3ev = Inr b \<and> object_key s3ev = Inr k \<and>
   for_items db rc s3ev pre sti outi = \<lparr>raised = None, store = st, printed = out\<rparr> \<longrightarrow>
     (update_item db (update_item_call b ch k) st = (Inl (ClientError ''ConditionalCheckFailedException''), st') \<longrightarrow>
        for_items db rc s3ev (pre @ it # its) sti outi =
          for_items db rc s3ev its st' (out @ [Updating c, AlreadyUpToDate]))
   \<and> (update_item db (update_item_call b ch k) st = (Inl e, st') \<and> e \<noteq> ClientError ''ConditionalCheckFailedException'' \<longrightarrow>
        for_items db rc s3ev (pre @ it # its) sti outi =
          \<lparr>raised = Some e, store = st', printed = out @ [Updating c]\<rparr>
        \<and> (query db b resume stq = (Inr qr, sti) \<and> Items qr = pre @ it # its \<longrightarrow>
             query_loop db rc s3ev resume stq outi =
               Some \<lparr>raised = Some e, store = st', printed = out @ [Updating c]\<rparr>))"
proof (intro impI conjI; (elim conjE)?)
  assume m: "match_item rc s3ev it = Inr (Some (ch, c))"
    and b: "bucket_name s3ev = Inr b" and k: "object_key s3ev = Inr k"
    and pre: "for_items db rc s3ev pre sti outi = \<lparr>raised = None, store = st, printed = out\<rparr>"
  {
    assume u: "update_item db (update_item_call b ch k) st = (Inl (ClientError ''ConditionalCheckFailedException''), st')"
    have "do_item db rc s3ev it st out =
        \<lparr>raised = None, store = st', printed = out @ [Updating c, AlreadyUpToDate]\<rparr>"
      by (simp add: do_item_match [OF m] write_item_failed_condition [OF b k u])
    then show "for_items db rc s3ev (pre @ it # its) sti outi =
        for_items db rc s3ev its st' (out @ [Updating c, AlreadyUpToDate])"
      by (simp add: for_items_append_ok [OF pre] for_items_Cons_ok)
  }
  {
    assume u: "update_item db (update_item_call b ch k) st = (Inl e, st')"
      and e: "e \<noteq> ClientError ''ConditionalCheckFailedException''"
    have d: "do_item db rc s3ev it st out = \<lparr>raised = Some e, store = st', printed = out @ [Updating c]\<rparr>"
      by (simp add: do_item_match [OF m] write_item_other_error [OF b k u e])
    then show r: "for_items db rc s3ev (pre @ it # its) sti outi =
        \<lparr>raised = Some e, store = st', printed = out @ [Updating c]\<rparr>"
      by (simp add: for_items_append_ok [OF pre] for_items_Cons_raised)
    assume q: "query db b resume stq = (Inr qr, sti)" and i: "Items qr = pre @ it # its"
    show "query_loop db rc s3ev resume stq outi =
        Some \<lparr>raised = Some e, store = st', printed = out @ [Updating c]\<rparr>"
      using query_loop_raised [OF b q, of rc outi e] r i by simp
  }
qed

text \<open>
  Claim C9. Let the items \<open>pre\<close> of a page be processed without an exception, and let the
  pattern of the next item be a string that does not compile. Then the invocation ends
  with the error of the engine (not with the \<open>AssertionError\<close> of a malformed event or
  registration, and without the line \<open>Already up to date.\<close>): the remaining items and
  pages are not looked at, and the store and the lines printed are those the earlier
  items left. This holds for every client.
\<close>

theorem bad_pattern_propagates:
  "it ''Channel'' = Some ch \<and> it ''Pattern'' = Some (S p) \<and> rc p = None \<and> object_key s3ev = Inr k \<and>
   for_items db rc s3ev pre sti outi = \<lparr>raised = None, store = st, printed = out\<rparr> \<longrightarrow>
     for_items db rc s3ev (pre @ it # its) sti outi =
       \<lparr>raised = Some RegexError, store = st, printed = out\<rparr>
     \<and> (bucket_name s3ev = Inr b \<and> query db b resume stq = (Inr qr, sti) \<and> Items qr = pre @ it # its \<longrightarrow>
          query_loop db rc s3ev resume stq outi =
            Some \<lparr>raised = Some RegexError, store = st, printed = out\<rparr>)"
proof (intro impI conjI; (elim conjE)?)
  assume c: "it ''Channel'' = Some ch" and p: "it ''Pattern'' = Some (S p)" and n: "rc p = None"
    and k: "object_key s3ev = Inr k"
    and pre: "for_items db rc s3ev pre sti outi = \<lparr>raised = None, store = st, printed = out\<rparr>"
  have "do_item db rc s3ev it st out = \<lparr>raised = Some RegexError, store = st, printed = out\<rparr>"
    using c p n k by (simp add: do_item_match_fails match_item_bad_pattern)
  then show r: "for_items db rc s3ev (pre @ it # its) sti outi =
      \<lparr>raised = Some RegexError, store = st, printed = out\<rparr>"
    by (simp add: for_items_append_ok [OF pre] for_items_Cons_raised)
  assume b: "bucket_name s3ev = Inr b" and q: "query db b resume stq = (Inr qr, sti)"
    and i: "Items qr = pre @ it # its"
  show "query_loop db rc s3ev resume stq outi =
      Some \<lparr>raised = Some RegexError, store = st, printed = out\<rparr>"
    using query_loop_raised [OF b q, of rc outi RegexError] r i by simp
qed

section \<open>The handler on the table\<close>

subsection \<open>Lists with distinct keys\<close>

lemma find_key_distinct:
  "distinct (map f xs) \<Longrightarrow> r \<in> set xs \<Longrightarrow> find (\<lambda>x. f x = f r) xs = Some r"
  by (induction xs) (auto simp: image_iff)

lemma map_update_key_distinct:
  "distinct (map f xs) \<Longrightarrow> r \<in> set xs \<Longrightarrow>
   map (\<lambda>x. if f x = f r then g x else x) xs = map (\<lambda>x. if x = r then g r else x) xs"
  by (rule map_cong) (auto simp: distinct_map inj_on_def)

lemma find_map_same_key:
  "(\<And>x. f (g x) = f x) \<Longrightarrow> find (\<lambda>x. f x = k) (map g xs) = map_option g (find (\<lambda>x. f x = k) xs)"
  by (induction xs) auto

lemma dropWhile_distinct_nth:
  "distinct (map f xs) \<Longrightarrow> i < length xs \<Longrightarrow> dropWhile (\<lambda>r. f r \<noteq> f (xs ! i)) xs = drop i xs"
proof (induction xs arbitrary: i)
  case Nil
  then show ?case by simp
next
  case (Cons x xs)
  show ?case
  proof (cases i)
    case 0
    then show ?thesis by simp
  next
    case (Suc j)
    with Cons.prems have j: "j < length xs" and d: "distinct (map f xs)" and
      n: "f x \<notin> f ` set xs" by auto
    from j have "xs ! j \<in> set xs" by simp
    with n have "f x \<noteq> f (xs ! j)" by auto
    with Suc Cons.IH [OF d j] show ?thesis by simp
  qed
qed

lemma rows_after_suffix: "\<exists>pre. ys = pre @ rows_after start ys"
proof (cases start)
  case None
  then show ?thesis by (simp add: rows_after_def)
next
  case (Some k)
  show ?thesis
  proof (cases "dropWhile (\<lambda>r. key_of r \<noteq> k) ys")
    case Nil
    with Some have "rows_after start ys = tl []" by (simp only: rows_after_def option.case)
    then show ?thesis by simp
  next
    case (Cons x rest)
    have "ys = takeWhile (\<lambda>r. key_of r \<noteq> k) ys @ dropWhile (\<lambda>r. key_of r \<noteq> k) ys"
      by simp
    with Cons have "ys = (takeWhile (\<lambda>r. key_of r \<noteq> k) ys @ [x]) @ rest" by simp
    moreover from Some Cons have "rows_after start ys = rest" by (simp add: rows_after_def)
    ultimately show ?thesis by blast
  qed
qed

lemma rows_after_next:
  assumes d: "distinct (map key_of ys)" and n: "0 < n" "n \<le> length (rows_after start ys)"
  shows "rows_after (Some (key_of (rows_after start ys ! (n - 1)))) ys = drop n (rows_after start ys)"
proof -
  define rows where "rows = rows_after start ys"
  obtain pre where ys: "ys = pre @ rows"
    using rows_after_suffix rows_def by blast
  define i where "i = length pre + (n - 1)"
  from n have n': "0 < n" "n \<le> length rows" by (simp_all add: rows_def)
  then have i: "i < length ys" and si: "Suc i = length pre + n"
    by (simp_all add: i_def ys)
  have nth: "ys ! i = rows ! (n - 1)"
    by (simp add: ys i_def nth_append)
  have "dropWhile (\<lambda>r. key_of r \<noteq> key_of (ys ! i)) ys = drop i ys"
    using d i by (rule dropWhile_distinct_nth)
  then have "tl (dropWhile (\<lambda>r. key_of r \<noteq> key_of (rows ! (n - 1))) ys) = tl (drop i ys)"
    by (simp only: nth)
  also have "tl (drop i ys) = drop (Suc i) ys"
    by (simp add: tl_drop drop_Suc)
  also have "drop (Suc i) ys = drop n rows"
    by (simp only: si) (simp add: ys)
  finally show ?thesis by (simp add: rows_after_def rows_def)
qed

subsection \<open>The order of pointers\<close>

lemma ptr_le_refl: "ptr_le p p"
  by (cases "(p, p)" rule: ptr_le.cases) auto

lemma ptr_le_trans: "ptr_le p q \<Longrightarrow> ptr_le q r \<Longrightarrow> ptr_le p r"
  by (cases "(p, q)" rule: ptr_le.cases; cases "(q, r)" rule: ptr_le.cases) auto

lemma ptr_le_condition: "condition_holds p k \<Longrightarrow> ptr_le p (Some (S k))"
  by (cases "(p, k)" rule: condition_holds.cases) auto


subsection \<open>The conditional write\<close>

lemma key_of_update [simp]: "key_of (r\<lparr>ObjectKey := v\<rparr>) = key_of r"
  by (simp add: key_of_def)

lemma registration_of_update [simp]: "registration_of (r\<lparr>ObjectKey := v\<rparr>) = registration_of r"
  by (simp add: registration_of_def)

lemma condition_value_call:
  "condition_value found [('':key'', JStr k)]
     (Or (AttributeNotExists ''ObjectKey'') (Less (Path ''ObjectKey'') (Placeholder '':key''))) =
   condition_holds (attribute found ''ObjectKey'') k"
  by (cases "attribute found ''ObjectKey''" rule: condition_holds.cases [of "(x, k)" for x])
     simp_all

lemma accepted_call [simp]: "accepted (update_item_call bucket ch key)"
  by (simp add: accepted_def update_item_call_def)

lemma assign_call [simp]:
  "assign (SET ''ObjectKey'' '':key'') [('':key'', JStr k)] r = r\<lparr>ObjectKey := Some (S k)\<rparr>"
  by (simp add: assign_def)

text \<open>The store on the request of the script.\<close>

lemma dynamodb_update_item_call:
  "dynamodb_update_item (update_item_call bucket ch key) tbl =
     (case json_str bucket of
        None \<Rightarrow> (Inl (BotoCoreError ''ParamValidationError''), tbl)
      | Some b \<Rightarrow>
     (case json_str key of
        None \<Rightarrow> (Inl (BotoCoreError ''ParamValidationError''), tbl)
      | Some k \<Rightarrow>
     (case attr_S ch of
        Inl _ \<Rightarrow> (Inl (ClientError ''ValidationException''), tbl)
      | Inr c \<Rightarrow>
     (case find (\<lambda>r. key_of r = (b, c)) tbl of
        None \<Rightarrow>
          (Inr (), tbl @ [\<lparr>Bucket = b, Channel = c, Pattern = None, ObjectKey = Some (S k)\<rparr>])
      | Some r \<Rightarrow>
          if condition_holds (ObjectKey r) k
          then (Inr (), map (\<lambda>x. if key_of x = (b, c) then x\<lparr>ObjectKey := Some (S k)\<rparr> else x) tbl)
          else (Inl (ClientError ''ConditionalCheckFailedException''), tbl)))))"
proof (cases "json_str bucket")
  case None
  then show ?thesis
    by (simp add: dynamodb_update_item_def update_item_call_def)
next
  case b: (Some b)
  show ?thesis
  proof (cases "json_str key")
    case None
    then show ?thesis
      using b by (simp add: dynamodb_update_item_def update_item_call_def)
  next
    case k: (Some k)
    then have key: "key = JStr k"
      by (cases key) simp_all
    show ?thesis
    proof (cases "attr_S ch")
      case (Inl e)
      then show ?thesis
        using b k by (simp add: dynamodb_update_item_def update_item_call_def)
    next
      case c: (Inr c)
      have acc: "accepted (update_item_call bucket ch key)"
        by simp
      show ?thesis
      proof (cases "find (\<lambda>r. key_of r = (b, c)) tbl")
        case None
        then show ?thesis
          using b k c acc
          by (simp add: dynamodb_update_item_def Let_def key condition_value_call attribute_def
              update_item_call_def [of bucket ch "JStr k"] del: condition_value.simps)
      next
        case (Some r)
        then show ?thesis
          using b k c acc
          by (simp add: dynamodb_update_item_def Let_def key condition_value_call attribute_def
              update_item_call_def [of bucket ch "JStr k"] del: condition_value.simps)
      qed
    qed
  qed
qed

lemma update_item_existing:
  assumes "distinct_keys tbl" and "r \<in> set tbl"
  shows "dynamodb_update_item (update_item_call (JStr (Bucket r)) (S (Channel r)) (JStr k)) tbl =
     (if condition_holds (ObjectKey r) k
      then (Inr (), map (\<lambda>x. if x = r then r\<lparr>ObjectKey := Some (S k)\<rparr> else x) tbl)
      else (Inl (ClientError ''ConditionalCheckFailedException''), tbl))"
proof -
  have k: "(Bucket r, Channel r) = key_of r" by (simp add: key_of_def)
  from assms have d: "distinct (map key_of tbl)" by (simp add: distinct_keys_def)
  have f: "find (\<lambda>x. key_of x = key_of r) tbl = Some r"
    using d assms(2) by (rule find_key_distinct)
  have m: "map (\<lambda>x. if key_of x = key_of r then x\<lparr>ObjectKey := Some (S k)\<rparr> else x) tbl =
      map (\<lambda>x. if x = r then r\<lparr>ObjectKey := Some (S k)\<rparr> else x) tbl"
    using d assms(2) by (rule map_update_key_distinct)
  show ?thesis
    by (simp add: dynamodb_update_item_call k f m)
qed

lemma update_item_unchanged_or:
  "snd (dynamodb_update_item (update_item_call bj ch kj) tbl) = tbl \<or>
   (\<exists>b c k. json_str bj = Some b \<and> attr_S ch = Inr c \<and> json_str kj = Some k \<and>
      (case find (\<lambda>r. key_of r = (b, c)) tbl of
         None \<Rightarrow> snd (dynamodb_update_item (update_item_call bj ch kj) tbl) =
                  tbl @ [\<lparr>Bucket = b, Channel = c, Pattern = None, ObjectKey = Some (S k)\<rparr>]
       | Some r \<Rightarrow> condition_holds (ObjectKey r) k \<and>
                  snd (dynamodb_update_item (update_item_call bj ch kj) tbl) =
                  map (\<lambda>x. if key_of x = (b, c) then x\<lparr>ObjectKey := Some (S k)\<rparr> else x) tbl))"
  by (auto simp: dynamodb_update_item_call split: option.splits sum.splits)

lemma update_item_registration:
  assumes "\<And>b c. json_str bj = Some b \<Longrightarrow> attr_S ch = Inr c \<Longrightarrow> (b, c) \<in> key_of ` set tbl"
  shows "map registration_of (snd (dynamodb_update_item (update_item_call bj ch kj) tbl)) = map registration_of tbl"
proof -
  from update_item_unchanged_or [of bj ch kj tbl]
  show ?thesis
  proof (elim disjE exE conjE)
    assume "snd (dynamodb_update_item (update_item_call bj ch kj) tbl) = tbl"
    then show ?thesis by simp
  next
    fix b c k
    assume b: "json_str bj = Some b" and c: "attr_S ch = Inr c"
      and f: "case find (\<lambda>r. key_of r = (b, c)) tbl of
         None \<Rightarrow> snd (dynamodb_update_item (update_item_call bj ch kj) tbl) =
                  tbl @ [\<lparr>Bucket = b, Channel = c, Pattern = None, ObjectKey = Some (S k)\<rparr>]
       | Some r \<Rightarrow> condition_holds (ObjectKey r) k \<and>
                  snd (dynamodb_update_item (update_item_call bj ch kj) tbl) =
                  map (\<lambda>x. if key_of x = (b, c) then x\<lparr>ObjectKey := Some (S k)\<rparr> else x) tbl"
    from assms [OF b c] have "find (\<lambda>r. key_of r = (b, c)) tbl \<noteq> None"
      by (auto simp: find_None_iff)
    then obtain r where "find (\<lambda>r. key_of r = (b, c)) tbl = Some r" by blast
    with f have "snd (dynamodb_update_item (update_item_call bj ch kj) tbl) =
        map (\<lambda>x. if key_of x = (b, c) then x\<lparr>ObjectKey := Some (S k)\<rparr> else x) tbl" by simp
    then show ?thesis
      by (simp add: comp_def if_distrib [of registration_of])
  qed
qed

lemma update_item_distinct:
  assumes "distinct_keys tbl"
  shows "distinct_keys (snd (dynamodb_update_item (update_item_call bj ch kj) tbl))"
proof -
  from update_item_unchanged_or [of bj ch kj tbl]
  show ?thesis
  proof (elim disjE exE conjE)
    assume "snd (dynamodb_update_item (update_item_call bj ch kj) tbl) = tbl"
    with assms show ?thesis by simp
  next
    fix b c k
    assume f: "case find (\<lambda>r. key_of r = (b, c)) tbl of
         None \<Rightarrow> snd (dynamodb_update_item (update_item_call bj ch kj) tbl) =
                  tbl @ [\<lparr>Bucket = b, Channel = c, Pattern = None, ObjectKey = Some (S k)\<rparr>]
       | Some r \<Rightarrow> condition_holds (ObjectKey r) k \<and>
                  snd (dynamodb_update_item (update_item_call bj ch kj) tbl) =
                  map (\<lambda>x. if key_of x = (b, c) then x\<lparr>ObjectKey := Some (S k)\<rparr> else x) tbl"
    show ?thesis
    proof (cases "find (\<lambda>r. key_of r = (b, c)) tbl")
      case None
      then have "(b, c) \<notin> key_of ` set tbl" by (auto simp: find_None_iff)
      with None f assms show ?thesis
        by (simp add: distinct_keys_def key_of_def)
    next
      case (Some r)
      with f have "map key_of (snd (dynamodb_update_item (update_item_call bj ch kj) tbl)) = map key_of tbl"
        by (simp add: comp_def if_distrib [of key_of])
      with assms show ?thesis by (simp add: distinct_keys_def)
    qed
  qed
qed

lemma pointer_map_same_key:
  "(\<And>x. key_of (g x) = key_of x) \<Longrightarrow>
   pointer (map g tbl) b c =
     (case find (\<lambda>r. key_of r = (b, c)) tbl of None \<Rightarrow> None | Some r \<Rightarrow> ObjectKey (g r))"
  by (simp add: pointer_def find_map_same_key [of key_of g] split: option.splits)

lemma find_append_new:
  "find P xs = None \<Longrightarrow> find P (xs @ [y]) = (if P y then Some y else None)"
  by (induction xs) (auto split: if_splits)

lemma find_append_old:
  "find P xs = Some x \<Longrightarrow> find P (xs @ ys) = Some x"
  by (induction xs) (auto split: if_splits)

lemma update_item_pointer:
  "pointer (snd (dynamodb_update_item (update_item_call bj ch kj) tbl)) b c = pointer tbl b c \<or>
   (\<exists>k. json_str bj = Some b \<and> attr_S ch = Inr c \<and> json_str kj = Some k \<and>
      condition_holds (pointer tbl b c) k \<and>
      pointer (snd (dynamodb_update_item (update_item_call bj ch kj) tbl)) b c = Some (S k))"
proof -
  from update_item_unchanged_or [of bj ch kj tbl]
  show ?thesis
  proof (elim disjE exE conjE)
    assume "snd (dynamodb_update_item (update_item_call bj ch kj) tbl) = tbl"
    then show ?thesis by simp
  next
    fix b' c' k
    assume b: "json_str bj = Some b'" and c: "attr_S ch = Inr c'" and k: "json_str kj = Some k"
      and f: "case find (\<lambda>r. key_of r = (b', c')) tbl of
         None \<Rightarrow> snd (dynamodb_update_item (update_item_call bj ch kj) tbl) =
                  tbl @ [\<lparr>Bucket = b', Channel = c', Pattern = None, ObjectKey = Some (S k)\<rparr>]
       | Some r \<Rightarrow> condition_holds (ObjectKey r) k \<and>
                  snd (dynamodb_update_item (update_item_call bj ch kj) tbl) =
                  map (\<lambda>x. if key_of x = (b', c') then x\<lparr>ObjectKey := Some (S k)\<rparr> else x) tbl"
    show ?thesis
    proof (cases "find (\<lambda>r. key_of r = (b', c')) tbl")
      case None
      with f have t: "snd (dynamodb_update_item (update_item_call bj ch kj) tbl) =
          tbl @ [\<lparr>Bucket = b', Channel = c', Pattern = None, ObjectKey = Some (S k)\<rparr>]" by simp
      show ?thesis
      proof (cases "(b, c) = (b', c')")
        case True
        with None b c k t show ?thesis
          by (simp add: pointer_def find_append_new key_of_def)
      next
        case False
        then show ?thesis
          by (cases "find (\<lambda>r. key_of r = (b, c)) tbl")
            (auto simp: t pointer_def find_append_new find_append_old key_of_def)
      qed
    next
      case (Some r)
      with f have h: "condition_holds (ObjectKey r) k"
        and t: "snd (dynamodb_update_item (update_item_call bj ch kj) tbl) =
          map (\<lambda>x. if key_of x = (b', c') then x\<lparr>ObjectKey := Some (S k)\<rparr> else x) tbl" by simp_all
      have p: "pointer (snd (dynamodb_update_item (update_item_call bj ch kj) tbl)) b c =
          (case find (\<lambda>r. key_of r = (b, c)) tbl of None \<Rightarrow> None
           | Some r \<Rightarrow> ObjectKey (if key_of r = (b', c') then r\<lparr>ObjectKey := Some (S k)\<rparr> else r))"
        unfolding t by (rule pointer_map_same_key) simp
      show ?thesis
      proof (cases "(b, c) = (b', c')")
        case True
        with Some h b c k p show ?thesis
          by (simp add: pointer_def)
      next
        case False
        have ne: "\<And>x. find (\<lambda>r. key_of r = (b, c)) tbl = Some x \<Longrightarrow> key_of x \<noteq> (b', c')"
          using False by (auto simp: find_Some_iff)
        have "pointer (snd (dynamodb_update_item (update_item_call bj ch kj) tbl)) b c = pointer tbl b c"
          unfolding p using ne by (auto simp: pointer_def split: option.splits)
        then show ?thesis by simp
      qed
    qed
  qed
qed

lemma update_item_monotone:
  "ptr_le (pointer tbl b c) (pointer (snd (dynamodb_update_item (update_item_call bj ch kj) tbl)) b c)"
  using update_item_pointer [of bj ch kj tbl b c]
  by (auto simp: ptr_le_refl ptr_le_condition)

subsection \<open>What a pass over items does to the store\<close>

lemma match_item_SomeD:
  "match_item rc s3ev it = Inr (Some (ch, c)) \<Longrightarrow> it ''Channel'' = Some ch \<and> attr_S ch = Inr c"
  by (auto simp: match_item_def and_then_Inr_iff
      split: option.splits attribute_value.splits if_splits)

lemma write_item_store:
  "store (write_item db s3ev ch c st out) = st \<or>
   (\<exists>bj kj. bucket_name s3ev = Inr bj \<and> object_key s3ev = Inr kj \<and>
      store (write_item db s3ev ch c st out) = snd (update_item db (update_item_call bj ch kj) st))"
  by (auto simp: write_item_def split: sum.splits prod.splits exn.splits)

lemma do_item_store:
  "store (do_item db rc s3ev it st out) = st \<or>
   (\<exists>ch c bj kj. it ''Channel'' = Some ch \<and> attr_S ch = Inr c \<and>
      bucket_name s3ev = Inr bj \<and> object_key s3ev = Inr kj \<and>
      store (do_item db rc s3ev it st out) = snd (update_item db (update_item_call bj ch kj) st))"
proof (cases "match_item rc s3ev it")
  case (Inl e)
  then show ?thesis by (simp add: do_item_def)
next
  case (Inr m)
  show ?thesis
  proof (cases m)
    case None
    with Inr show ?thesis by (simp add: do_item_def)
  next
    case (Some p)
    obtain ch c where p: "p = (ch, c)" by (cases p)
    from Inr Some p have m: "match_item rc s3ev it = Inr (Some (ch, c))" by simp
    from write_item_store [of db s3ev ch c st out] match_item_SomeD [OF m]
    show ?thesis
      by (auto simp: do_item_match [OF m])
  qed
qed

lemma for_items_store_induct:
  assumes "I st"
    and "\<And>it st out. it \<in> set its \<Longrightarrow> I st \<Longrightarrow> I (store (do_item db rc s3ev it st out))"
  shows "I (store (for_items db rc s3ev its st out))"
  using assms
proof (induction its arbitrary: st out)
  case Nil
  then show ?case by simp
next
  case (Cons it its)
  have d: "I (store (do_item db rc s3ev it st out))"
    using Cons.prems by simp
  show ?case
  proof (cases "raised (do_item db rc s3ev it st out)")
    case None
    then have "for_items db rc s3ev (it # its) st out =
        for_items db rc s3ev its (store (do_item db rc s3ev it st out))
          (printed (do_item db rc s3ev it st out))"
      by (simp add: Let_def)
    moreover have "I (store (for_items db rc s3ev its (store (do_item db rc s3ev it st out))
          (printed (do_item db rc s3ev it st out))))"
      using d Cons.prems(2) by (intro Cons.IH) simp_all
    ultimately show ?thesis by simp
  next
    case (Some e)
    with d show ?thesis by (simp add: Let_def)
  qed
qed

lemma update_item_dynamodb [simp]: "update_item (dynamodb sizes) = dynamodb_update_item"
  by (simp add: dynamodb_def)

lemma query_dynamodb [simp]: "query (dynamodb sizes) = dynamodb_query sizes"
  by (simp add: dynamodb_def)

lemma write_item_client:
  "update_item db = update_item db' \<Longrightarrow>
   write_item db s3ev ch c st out = write_item db' s3ev ch c st out"
proof -
  assume a: "update_item db = update_item db'"
  show ?thesis unfolding write_item_def a by (rule refl)
qed

lemma do_item_client:
  "update_item db = update_item db' \<Longrightarrow>
   do_item db rc s3ev it st out = do_item db' rc s3ev it st out"
proof -
  assume a: "update_item db = update_item db'"
  show ?thesis unfolding do_item_def write_item_client [OF a] by (rule refl)
qed

lemma for_items_client:
  "update_item db = update_item db' \<Longrightarrow>
   for_items db rc s3ev its st out = for_items db' rc s3ev its st out"
  by (induction its arbitrary: st out)
    (simp_all add: do_item_client [of db db'] Let_def split: option.splits)

text \<open>Monotone pointers and distinct keys, for any items.\<close>

lemma for_items_monotone:
  "ptr_le (pointer tbl b c) (pointer (store (for_items (dynamodb sizes) rc s3ev its tbl out)) b c)"
proof (rule for_items_store_induct [where I = "\<lambda>t. ptr_le (pointer tbl b c) (pointer t b c)"])
  show "ptr_le (pointer tbl b c) (pointer tbl b c)" by (rule ptr_le_refl)
next
  fix it st out
  assume i: "ptr_le (pointer tbl b c) (pointer st b c)"
  from do_item_store [of "dynamodb sizes" rc s3ev it st out]
  have "ptr_le (pointer st b c) (pointer (store (do_item (dynamodb sizes) rc s3ev it st out)) b c)"
    by (auto simp: ptr_le_refl update_item_monotone)
  with i show "ptr_le (pointer tbl b c) (pointer (store (do_item (dynamodb sizes) rc s3ev it st out)) b c)"
    by (rule ptr_le_trans)
qed

lemma for_items_distinct:
  assumes "distinct_keys tbl"
  shows "distinct_keys (store (for_items (dynamodb sizes) rc s3ev its tbl out))"
proof (rule for_items_store_induct [where I = distinct_keys])
  show "distinct_keys tbl" by fact
next
  fix it st out
  assume "distinct_keys st"
  with do_item_store [of "dynamodb sizes" rc s3ev it st out]
  show "distinct_keys (store (do_item (dynamodb sizes) rc s3ev it st out))"
    by (auto simp: update_item_distinct)
qed

text \<open>The registrations stay, when the items are those of rows of the table.\<close>

lemma projected_Channel [simp]: "projected r ''Channel'' = Some (S (Channel r))"
  by (simp add: projected_def)

lemma projected_Pattern [simp]: "projected r ''Pattern'' = Pattern r"
  by (simp add: projected_def)

lemma key_in_registrations:
  "map registration_of st = map registration_of tbl \<Longrightarrow> x \<in> set tbl \<Longrightarrow>
   key_of x \<in> key_of ` set st"
proof -
  assume m: "map registration_of st = map registration_of tbl" and x: "x \<in> set tbl"
  have k: "\<And>r. key_of r = (fst (registration_of r), fst (snd (registration_of r)))"
    by (simp add: key_of_def registration_of_def)
  from x have "registration_of x \<in> set (map registration_of tbl)" by simp
  with m have "registration_of x \<in> set (map registration_of st)" by simp
  then obtain y where y: "y \<in> set st" and "registration_of y = registration_of x" by auto
  then have "key_of y = key_of x" by (simp add: k)
  with y show ?thesis by (metis image_eqI)
qed

lemma for_items_registrations:
  assumes b: "bucket_name s3ev = Inr (JStr b)"
    and xs: "\<And>x. x \<in> set xs \<Longrightarrow> Bucket x = b \<and> x \<in> set tbl"
  shows "map registration_of (store (for_items (dynamodb sizes) rc s3ev (map projected xs) tbl out))
     = map registration_of tbl"
proof (rule for_items_store_induct
    [where I = "\<lambda>t. map registration_of t = map registration_of tbl"])
  show "map registration_of tbl = map registration_of tbl" by simp
next
  fix it st out
  assume it: "it \<in> set (map projected xs)"
    and i: "map registration_of st = map registration_of tbl"
  from it obtain x where x: "x \<in> set xs" and p: "it = projected x" by auto
  from xs [OF x] have bx: "Bucket x = b" and xt: "x \<in> set tbl" by simp_all
  have k: "(b, Channel x) \<in> key_of ` set st"
    using key_in_registrations [OF i xt] bx by (simp add: key_of_def)
  from do_item_store [of "dynamodb sizes" rc s3ev it st out]
  show "map registration_of (store (do_item (dynamodb sizes) rc s3ev it st out)) =
      map registration_of tbl"
  proof (elim disjE exE conjE)
    assume "store (do_item (dynamodb sizes) rc s3ev it st out) = st"
    with i show ?thesis by simp
  next
    fix ch c bj kj
    assume ch: "it ''Channel'' = Some ch" and c: "attr_S ch = Inr c"
      and bj: "bucket_name s3ev = Inr bj"
      and s: "store (do_item (dynamodb sizes) rc s3ev it st out) =
        snd (update_item (dynamodb sizes) (update_item_call bj ch kj) st)"
    from ch p have "ch = S (Channel x)" by simp
    moreover from bj b have "bj = JStr b" by simp
    ultimately have "map registration_of (snd (dynamodb_update_item (update_item_call bj ch kj) st)) =
        map registration_of st"
      using k by (intro update_item_registration) auto
    with s i show ?thesis by simp
  qed
qed

subsection \<open>Pages\<close>

lemma registrations_bucket_rows:
  assumes "map registration_of st = map registration_of tbl"
  shows "map registration_of (bucket_rows b st) = map registration_of (bucket_rows b tbl)"
proof -
  have "\<And>t. map registration_of (bucket_rows b t) =
      filter (\<lambda>g. fst g = b) (map registration_of t)"
    by (simp add: bucket_rows_def filter_map comp_def registration_of_def)
  with assms show ?thesis by simp
qed

lemma registrations_rows_after:
  assumes "map registration_of ys' = map registration_of ys"
  shows "map registration_of (rows_after start ys') = map registration_of (rows_after start ys)"
proof (cases start)
  case None
  with assms show ?thesis by (simp add: rows_after_def)
next
  case (Some k)
  have "\<And>t. map registration_of (tl (dropWhile (\<lambda>r. key_of r \<noteq> k) t)) =
      tl (dropWhile (\<lambda>g. (fst g, fst (snd g)) \<noteq> k) (map registration_of t))"
    by (simp add: map_tl dropWhile_map comp_def registration_of_def key_of_def)
  with assms Some show ?thesis by (simp add: rows_after_def)
qed

lemma registrations_projected:
  assumes "map registration_of ys' = map registration_of ys"
  shows "map projected ys' = map projected ys"
proof -
  define proj :: "string \<times> string \<times> attribute_value option \<Rightarrow> item"
    where "proj = (\<lambda>g a. if a = ''Channel'' then Some (S (fst (snd g)))
             else if a = ''Pattern'' then snd (snd g) else None)"
  have p: "\<And>r. projected r = proj (registration_of r)"
    by (rule ext) (simp add: proj_def projected_def registration_of_def)
  have m: "map projected t = map proj (map registration_of t)" for t
    by (simp add: comp_def p [symmetric])
  show ?thesis by (simp only: m [of ys'] m [of ys] assms)
qed

lemma items_after_registrations:
  assumes "map registration_of st = map registration_of tbl"
  shows "map projected (rows_after start (bucket_rows b st)) =
     map projected (rows_after start (bucket_rows b tbl))"
  by (intro registrations_projected registrations_rows_after registrations_bucket_rows assms)

lemma distinct_bucket_rows:
  "distinct_keys tbl \<Longrightarrow> distinct (map key_of (bucket_rows b tbl))"
  by (simp add: distinct_keys_def bucket_rows_def distinct_map_filter)

lemma set_rows_after: "x \<in> set (rows_after start ys) \<Longrightarrow> x \<in> set ys"
  using rows_after_suffix [of ys start] by (metis Un_iff set_append)

lemma set_bucket_rows [simp]: "x \<in> set (bucket_rows b tbl) \<longleftrightarrow> x \<in> set tbl \<and> Bucket x = b"
  by (auto simp: bucket_rows_def)

subsection \<open>The page loop on the table\<close>

lemma json_str_Some [simp]: "json_str v = Some s \<longleftrightarrow> v = JStr s"
  by (cases v) auto

lemma outcome_eta:
  "raised r = None \<Longrightarrow> r = \<lparr>raised = None, store = store r, printed = printed r\<rparr>"
  by (cases r) simp

lemma query_loop_continues:
  "bucket_name s3ev = Inr b \<Longrightarrow> query db b resume st = (Inr qr, st1) \<Longrightarrow>
   LastEvaluatedKey qr = Some tok \<Longrightarrow>
   raised (for_items db rc s3ev (Items qr) st1 out) = None \<Longrightarrow>
   query_loop db rc s3ev resume st out =
     query_loop db rc s3ev (Some tok) (store (for_items db rc s3ev (Items qr) st1 out))
       (printed (for_items db rc s3ev (Items qr) st1 out))"
  by (subst query_loop.simps) simp

lemma query_loop_dynamodb:
  assumes b: "bucket_name s3ev = Inr (JStr b)"
  shows "distinct_keys tbl \<Longrightarrow> (case resume of None \<Rightarrow> sizes | Some (k, rest) \<Rightarrow> rest) = sched \<Longrightarrow>
     query_loop (dynamodb sizes) rc s3ev resume tbl out =
       Some (for_items (dynamodb sizes) rc s3ev
         (map projected (rows_after (map_option fst resume) (bucket_rows b tbl))) tbl out)"
proof (induction sched arbitrary: resume tbl out)
  case Nil
  let ?rows = "rows_after (map_option fst resume) (bucket_rows b tbl)"
  have q: "query (dynamodb sizes) (JStr b) resume tbl =
      (Inr \<lparr>Items = map projected ?rows, LastEvaluatedKey = None\<rparr>, tbl)"
    using Nil.prems(2) by (simp add: dynamodb_query_def)
  show ?case
    using query_loop_last_page [OF b q, of rc out] by simp
next
  case (Cons n rest)
  let ?rows = "rows_after (map_option fst resume) (bucket_rows b tbl)"
  let ?db = "dynamodb sizes"
  show ?case
  proof (cases "0 < n \<and> n \<le> length ?rows")
    case False
    have q: "query ?db (JStr b) resume tbl =
        (Inr \<lparr>Items = map projected ?rows, LastEvaluatedKey = None\<rparr>, tbl)"
      using Cons.prems(2) False by (simp add: dynamodb_query_def Let_def)
    show ?thesis
      using query_loop_last_page [OF b q, of rc out] by simp
  next
    case True
    let ?tok = "(key_of (?rows ! (n - 1)), rest)"
    let ?page = "map projected (take n ?rows)"
    let ?r1 = "for_items ?db rc s3ev ?page tbl out"
    have q: "query ?db (JStr b) resume tbl =
        (Inr \<lparr>Items = ?page, LastEvaluatedKey = Some ?tok\<rparr>, tbl)"
      using Cons.prems(2) True by (simp add: dynamodb_query_def Let_def)
    have split: "map projected ?rows = ?page @ map projected (drop n ?rows)"
      by (simp flip: map_append)
    show ?thesis
    proof (cases "raised ?r1")
      case (Some e)
      have "query_loop ?db rc s3ev resume tbl out = Some ?r1"
        using query_loop_raised [OF b q, of rc out e] Some by simp
      moreover have "for_items ?db rc s3ev (map projected ?rows) tbl out = ?r1"
        unfolding split by (simp add: for_items_append Some)
      ultimately show ?thesis by simp
    next
      case None
      have step: "query_loop ?db rc s3ev resume tbl out =
          query_loop ?db rc s3ev (Some ?tok) (store ?r1) (printed ?r1)"
        using query_loop_continues [OF b q, of ?tok rc out] None by simp
      have d1: "distinct_keys (store ?r1)"
        using Cons.prems(1) by (rule for_items_distinct)
      have in_tbl: "\<And>x. x \<in> set (take n ?rows) \<Longrightarrow> Bucket x = b \<and> x \<in> set tbl"
        using set_rows_after set_bucket_rows by (metis in_set_takeD)
      have reg: "map registration_of (store ?r1) = map registration_of tbl"
        using b in_tbl by (rule for_items_registrations)
      have "map projected (rows_after (map_option fst (Some ?tok)) (bucket_rows b (store ?r1))) =
          map projected (rows_after (Some (key_of (?rows ! (n - 1)))) (bucket_rows b tbl))"
        using items_after_registrations [OF reg] by simp
      also have "rows_after (Some (key_of (?rows ! (n - 1)))) (bucket_rows b tbl) = drop n ?rows"
        using distinct_bucket_rows [OF Cons.prems(1)] True by (intro rows_after_next) simp_all
      finally have items: "map projected (rows_after (map_option fst (Some ?tok)) (bucket_rows b (store ?r1))) =
          map projected (drop n ?rows)" .
      have "query_loop ?db rc s3ev (Some ?tok) (store ?r1) (printed ?r1) =
          Some (for_items ?db rc s3ev (map projected (drop n ?rows)) (store ?r1) (printed ?r1))"
        using Cons.IH [of "store ?r1" "Some ?tok" "printed ?r1", OF d1] items by simp
      moreover have "for_items ?db rc s3ev (map projected ?rows) tbl out =
          for_items ?db rc s3ev (map projected (drop n ?rows)) (store ?r1) (printed ?r1)"
        unfolding split by (simp add: for_items_append None)
      ultimately show ?thesis using step by simp
    qed
  qed
qed

lemma handler_dynamodb:
  assumes d: "distinct_keys tbl" and s: "s3ev_of loads event = Inr s3ev"
    and b: "bucket_name s3ev = Inr (JStr b)" and k: "object_key s3ev = Inr kj"
  shows "lambda_handler loads rc (dynamodb sizes) event tbl =
     Some (for_items (dynamodb []) rc s3ev (map projected (bucket_rows b tbl)) tbl
        (banner (JStr b) kj))"
proof -
  have "query_loop (dynamodb sizes) rc s3ev None tbl (banner (JStr b) kj) =
      Some (for_items (dynamodb sizes) rc s3ev
         (map projected (rows_after (map_option fst (None :: token option)) (bucket_rows b tbl))) tbl
         (banner (JStr b) kj))"
    using query_loop_dynamodb [OF b d, where resume = None and sched = sizes and sizes = sizes
        and rc = rc and out = "banner (JStr b) kj"]
    by simp
  also have "\<dots> = Some (for_items (dynamodb []) rc s3ev (map projected (bucket_rows b tbl)) tbl
        (banner (JStr b) kj))"
    by (simp add: rows_after_def for_items_client [of "dynamodb sizes" "dynamodb []"])
  finally show ?thesis
    by (simp add: lambda_handler_def s b k banner_def)
qed

lemma handler_dynamodb_bad_bucket:
  assumes s: "s3ev_of loads event = Inr s3ev"
    and b: "bucket_name s3ev = Inr bj" and n: "json_str bj = None" and k: "object_key s3ev = Inr kj"
  shows "lambda_handler loads rc (dynamodb sizes) event tbl =
     Some \<lparr>raised = Some (BotoCoreError ''ParamValidationError''), store = tbl,
           printed = banner bj kj\<rparr>"
proof -
  have q: "query (dynamodb sizes) bj None tbl = (Inl (BotoCoreError ''ParamValidationError''), tbl)"
    using n by (simp add: dynamodb_query_def)
  show ?thesis
    using query_loop_query_fails [OF b q, of rc "banner bj kj"]
    by (simp add: lambda_handler_def s b k banner_def)
qed

lemma handler_dynamodb_pages:
  assumes d: "distinct_keys tbl"
  shows "lambda_handler loads rc (dynamodb sizes) event tbl =
     lambda_handler loads rc (dynamodb []) event tbl"
proof (cases "normalize loads event")
  case (Inl e)
  then show ?thesis by (simp add: handler_normalize_fails)
next
  case (Inr ev)
  from handler_normalize_ok [OF Inr, of rc "dynamodb []" tbl]
  obtain s3ev where s: "s3ev_of loads event = Inr s3ev"
    and b: "bucket_name s3ev = Inr (collection_id ev)"
    and k: "object_key s3ev = Inr (object_id ev)" by blast
  show ?thesis
  proof (cases "json_str (collection_id ev)")
    case None
    show ?thesis
      by (simp add: handler_dynamodb_bad_bucket [OF s b None k])
  next
    case (Some bs)
    then have "collection_id ev = JStr bs" by simp
    with b have b': "bucket_name s3ev = Inr (JStr bs)" by simp
    show ?thesis
      by (simp add: handler_dynamodb [OF d s b' k])
  qed
qed

lemma handler_dynamodb_total:
  assumes d: "distinct_keys tbl"
  shows "\<exists>r. lambda_handler loads rc (dynamodb sizes) event tbl = Some r \<and>
     distinct_keys (store r) \<and> (\<forall>b c. ptr_le (pointer tbl b c) (pointer (store r) b c))"
proof (cases "normalize loads event")
  case (Inl e)
  with d show ?thesis by (simp add: handler_normalize_fails ptr_le_refl)
next
  case (Inr ev)
  from handler_normalize_ok [OF Inr, of rc "dynamodb []" tbl]
  obtain s3ev where s: "s3ev_of loads event = Inr s3ev"
    and b: "bucket_name s3ev = Inr (collection_id ev)"
    and k: "object_key s3ev = Inr (object_id ev)" by blast
  show ?thesis
  proof (cases "json_str (collection_id ev)")
    case None
    with d show ?thesis
      by (simp add: handler_dynamodb_bad_bucket [OF s b None k] ptr_le_refl)
  next
    case (Some bs)
    then have "collection_id ev = JStr bs" by simp
    with b have b': "bucket_name s3ev = Inr (JStr bs)" by simp
    show ?thesis
      by (simp add: handler_dynamodb [OF d s b' k] for_items_distinct [OF d] for_items_monotone)
  qed
qed

subsection \<open>An invocation with string identifiers\<close>

lemma key_of_advanced [simp]: "key_of (advanced rc k r) = key_of r"
  by (simp add: advanced_def)

lemma match_item_row:
  "match_item rc (s3_record b k) (projected x) =
     (if valid_pattern rc x
      then Inr (if matches rc x k then Some (S (Channel x), Channel x) else None)
      else Inl (registration_error x))"
proof (cases "Pattern x")
  case None
  then show ?thesis
    by (simp add: match_item_def valid_pattern_def registration_error_def)
next
  case (Some a)
  then show ?thesis
    by (cases a)
      (auto simp: match_item_def valid_pattern_def matches_def registration_error_def
        re_search_def object_key_s3_record)
qed

lemma do_item_row:
  assumes d: "distinct_keys tbl" and x: "x \<in> set tbl" and b: "Bucket x = b"
  shows "do_item (dynamodb sizes) rc (s3_record b k) (projected x) tbl out =
     (if valid_pattern rc x
      then \<lparr>raised = None, store = map (\<lambda>y. if y = x then advanced rc k x else y) tbl,
            printed = out @ report rc k x\<rparr>
      else \<lparr>raised = Some (registration_error x), store = tbl, printed = out\<rparr>)"
proof (cases "valid_pattern rc x")
  case False
  then show ?thesis by (simp add: do_item_def match_item_row)
next
  case True
  show ?thesis
  proof (cases "matches rc x k")
    case False
    have a: "advanced rc k x = x" using False by (simp add: advanced_def)
    have same: "map (\<lambda>y. if y = x then advanced rc k x else y) tbl = tbl"
      by (rule map_idI) (simp add: a)
    from True False show ?thesis
      by (simp add: do_item_def match_item_row same report_def)
  next
    case m: True
    have u: "update_item (dynamodb sizes) (update_item_call (JStr b) (S (Channel x)) (JStr k)) tbl =
        (if condition_holds (ObjectKey x) k
         then (Inr (), map (\<lambda>y. if y = x then x\<lparr>ObjectKey := Some (S k)\<rparr> else y) tbl)
         else (Inl (ClientError ''ConditionalCheckFailedException''), tbl))"
      using update_item_existing [OF d x, of k] b by simp
    have w: "do_item (dynamodb sizes) rc (s3_record b k) (projected x) tbl out =
        write_item (dynamodb sizes) (s3_record b k) (S (Channel x)) (Channel x) tbl out"
      using True m by (simp add: do_item_def match_item_row)
    show ?thesis
    proof (cases "condition_holds (ObjectKey x) k")
      case c: True
      have a: "advanced rc k x = x\<lparr>ObjectKey := Some (S k)\<rparr>"
        using m c by (simp add: advanced_def)
      show ?thesis
        using True m c
        by (simp add: w write_item_def bucket_name_s3_record object_key_s3_record u a report_def
            del: update_item_dynamodb)
    next
      case c: False
      have a: "advanced rc k x = x" using c by (simp add: advanced_def)
      have same: "map (\<lambda>y. if y = x then advanced rc k x else y) tbl = tbl"
        by (rule map_idI) (simp add: a)
      show ?thesis
        using True m c
        by (simp add: w write_item_def bucket_name_s3_record object_key_s3_record u same report_def
            del: update_item_dynamodb)
    qed
  qed
qed

lemma for_items_rows:
  assumes "distinct_keys tbl" and "set xs \<subseteq> set tbl" and "distinct (map key_of xs)"
    and "\<forall>x\<in>set xs. Bucket x = b"
  shows "for_items (dynamodb sizes) rc (s3_record b k) (map projected xs) tbl out =
     \<lparr>raised = (case dropWhile (valid_pattern rc) xs of [] \<Rightarrow> None
                 | r # rest \<Rightarrow> Some (registration_error r)),
      store = map (\<lambda>y. if y \<in> set (takeWhile (valid_pattern rc) xs) then advanced rc k y else y) tbl,
      printed = out @ concat (map (report rc k) (takeWhile (valid_pattern rc) xs))\<rparr>"
  using assms
proof (induction xs arbitrary: tbl out)
  case Nil
  then show ?case by simp
next
  case (Cons x xs)
  from Cons.prems have d: "distinct_keys tbl" and x: "x \<in> set tbl" and b: "Bucket x = b"
    by simp_all
  note step = do_item_row [OF d x b, of sizes rc k out]
  show ?case
  proof (cases "valid_pattern rc x")
    case False
    then show ?thesis using step by (simp add: Let_def)
  next
    case True
    let ?tbl1 = "map (\<lambda>y. if y = x then advanced rc k x else y) tbl"
    let ?tw = "takeWhile (valid_pattern rc) xs"
    from Cons.prems(3) have "key_of x \<notin> key_of ` set xs" by simp
    then have nx: "\<And>y. y \<in> set xs \<Longrightarrow> key_of y \<noteq> key_of x"
      by (metis image_eqI)
    have keys: "map key_of ?tbl1 = map key_of tbl"
      by (simp add: comp_def if_distrib [of key_of])
    have d1: "distinct_keys ?tbl1"
      using d by (simp only: distinct_keys_def keys)
    have s1: "set xs \<subseteq> set ?tbl1"
    proof
      fix y assume y: "y \<in> set xs"
      with nx have "y \<noteq> x" by auto
      moreover from y Cons.prems(2) have "y \<in> set tbl" by auto
      ultimately show "y \<in> set ?tbl1" by (auto simp: image_iff)
    qed
    have ih: "for_items (dynamodb sizes) rc (s3_record b k) (map projected xs) ?tbl1
          (out @ report rc k x) =
        \<lparr>raised = (case dropWhile (valid_pattern rc) xs of [] \<Rightarrow> None
                 | r # rest \<Rightarrow> Some (registration_error r)),
         store = map (\<lambda>y. if y \<in> set ?tw then advanced rc k y else y) ?tbl1,
         printed = (out @ report rc k x) @ concat (map (report rc k) ?tw)\<rparr>"
      using d1 s1 Cons.prems(3,4) by (intro Cons.IH) simp_all
    have ax: "advanced rc k x \<notin> set ?tw"
    proof
      assume "advanced rc k x \<in> set ?tw"
      then have "advanced rc k x \<in> set xs" by (rule set_takeWhileD [THEN conjunct1])
      from nx [OF this] show False by simp
    qed
    have comp: "map (\<lambda>y. if y \<in> set ?tw then advanced rc k y else y) ?tbl1 =
        map (\<lambda>y. if y \<in> set (x # ?tw) then advanced rc k y else y) tbl"
      unfolding map_map by (rule map_cong) (use ax in auto)
    show ?thesis
      using True step ih comp by (simp add: Let_def)
  qed
qed

lemma handler_direct:
  assumes d: "distinct_keys tbl"
  shows "lambda_handler loads rc (dynamodb sizes) (direct_payload b k) tbl =
     Some \<lparr>raised = failure rc b tbl, store = applied rc b k tbl,
            printed = banner (JStr b) (JStr k) @ concat (map (report rc k) (processed rc b tbl))\<rparr>"
proof -
  have "for_items (dynamodb []) rc (s3_record b k) (map projected (bucket_rows b tbl)) tbl
        (banner (JStr b) (JStr k)) =
      \<lparr>raised = failure rc b tbl, store = applied rc b k tbl,
        printed = banner (JStr b) (JStr k) @ concat (map (report rc k) (processed rc b tbl))\<rparr>"
    unfolding failure_def applied_def processed_def
    using d distinct_bucket_rows [OF d, of b]
    by (intro for_items_rows) auto
  then show ?thesis
    using handler_dynamodb [OF d s3ev_of_direct_payload bucket_name_s3_record object_key_s3_record,
        where loads = loads and rc = rc and sizes = sizes]
    by simp
qed

lemma valid_registrations_iff:
  "valid_registrations rc b tbl \<longleftrightarrow> (\<forall>r\<in>set (bucket_rows b tbl). valid_pattern rc r)"
  by (auto simp: valid_registrations_def list_all_iff)

lemma processed_valid:
  "valid_registrations rc b tbl \<Longrightarrow> processed rc b tbl = bucket_rows b tbl"
  by (simp add: processed_def valid_registrations_iff)

lemma failure_valid:
  "valid_registrations rc b tbl \<Longrightarrow> failure rc b tbl = None"
proof -
  assume "valid_registrations rc b tbl"
  then have "dropWhile (valid_pattern rc) (bucket_rows b tbl) = []"
    by (simp add: valid_registrations_iff)
  then show ?thesis unfolding failure_def by (simp only: list.case)
qed

subsection \<open>The requests of an invocation\<close>

lemma query_recording [simp]:
  "query (recording db) bucket resume (st, log) =
     (case query db bucket resume st of (res, st') \<Rightarrow> (res, (st', log)))"
  by (simp add: recording_def)

lemma update_item_recording [simp]:
  "update_item (recording db) req (st, log) =
     (case update_item db req st of (res, st') \<Rightarrow> (res, (st', log @ [req])))"
  by (simp add: recording_def)

lemma write_item_recording:
  "bucket_name s3ev = Inr b \<Longrightarrow> object_key s3ev = Inr k \<Longrightarrow>
   write_item (recording db) s3ev ch c (st, log) out =
     \<lparr>raised = raised (write_item db s3ev ch c st out),
      store = (store (write_item db s3ev ch c st out), log @ [update_item_call b ch k]),
      printed = printed (write_item db s3ev ch c st out)\<rparr>"
  by (cases "update_item db (update_item_call b ch k) st")
    (auto simp: write_item_def split: sum.splits exn.splits)

lemma do_item_row_recording:
  assumes d: "distinct_keys tbl" and x: "x \<in> set tbl" and b: "Bucket x = b"
  shows "do_item (recording (dynamodb sizes)) rc (s3_record b k) (projected x) (tbl, log) out =
     (if valid_pattern rc x
      then \<lparr>raised = None,
            store = (map (\<lambda>y. if y = x then advanced rc k x else y) tbl,
                     log @ (if matches rc x k
                            then [update_item_call (JStr b) (S (Channel x)) (JStr k)] else [])),
            printed = out @ report rc k x\<rparr>
      else \<lparr>raised = Some (registration_error x), store = (tbl, log), printed = out\<rparr>)"
proof (cases "valid_pattern rc x")
  case False
  then show ?thesis by (simp add: do_item_def match_item_row)
next
  case True
  note plain = do_item_row [OF d x b, of sizes rc k out]
  show ?thesis
  proof (cases "matches rc x k")
    case False
    have a: "advanced rc k x = x" using False by (simp add: advanced_def)
    have same: "map (\<lambda>y. if y = x then advanced rc k x else y) tbl = tbl"
      by (rule map_idI) (simp add: a)
    from True False show ?thesis
      by (simp add: do_item_def match_item_row same report_def)
  next
    case m: True
    have w: "do_item db rc (s3_record b k) (projected x) st out =
        write_item db (s3_record b k) (S (Channel x)) (Channel x) st out" for db :: "('s, 'tok) client" and st
      using True m by (simp add: do_item_def match_item_row)
    have "write_item (dynamodb sizes) (s3_record b k) (S (Channel x)) (Channel x) tbl out =
        \<lparr>raised = None, store = map (\<lambda>y. if y = x then advanced rc k x else y) tbl,
          printed = out @ report rc k x\<rparr>"
      using plain True by (simp only: w if_True)
    then show ?thesis
      using True m
      by (simp only: w write_item_recording [OF bucket_name_s3_record object_key_s3_record]
          outcome.simps if_True)
  qed
qed

lemma for_items_rows_recording:
  assumes "distinct_keys tbl" and "set xs \<subseteq> set tbl" and "distinct (map key_of xs)"
    and "\<forall>x\<in>set xs. Bucket x = b"
  shows "for_items (recording (dynamodb sizes)) rc (s3_record b k) (map projected xs) (tbl, log) out =
     \<lparr>raised = (case dropWhile (valid_pattern rc) xs of [] \<Rightarrow> None
                 | r # rest \<Rightarrow> Some (registration_error r)),
      store = (map (\<lambda>y. if y \<in> set (takeWhile (valid_pattern rc) xs) then advanced rc k y else y) tbl,
               log @ map (\<lambda>r. update_item_call (JStr b) (S (Channel r)) (JStr k))
                       (filter (\<lambda>r. matches rc r k) (takeWhile (valid_pattern rc) xs))),
      printed = out @ concat (map (report rc k) (takeWhile (valid_pattern rc) xs))\<rparr>"
  using assms
proof (induction xs arbitrary: tbl log out)
  case Nil
  then show ?case by simp
next
  case (Cons x xs)
  from Cons.prems have d: "distinct_keys tbl" and x: "x \<in> set tbl" and b: "Bucket x = b"
    by simp_all
  note step = do_item_row_recording [OF d x b, of sizes rc k log out]
  show ?case
  proof (cases "valid_pattern rc x")
    case False
    then show ?thesis using step by (simp add: Let_def)
  next
    case True
    let ?tbl1 = "map (\<lambda>y. if y = x then advanced rc k x else y) tbl"
    let ?log1 = "log @ (if matches rc x k
                            then [update_item_call (JStr b) (S (Channel x)) (JStr k)] else [])"
    let ?tw = "takeWhile (valid_pattern rc) xs"
    from Cons.prems(3) have "key_of x \<notin> key_of ` set xs" by simp
    then have nx: "\<And>y. y \<in> set xs \<Longrightarrow> key_of y \<noteq> key_of x"
      by (metis image_eqI)
    have keys: "map key_of ?tbl1 = map key_of tbl"
      by (simp add: comp_def if_distrib [of key_of])
    have d1: "distinct_keys ?tbl1"
      using d by (simp only: distinct_keys_def keys)
    have s1: "set xs \<subseteq> set ?tbl1"
    proof
      fix y assume y: "y \<in> set xs"
      with nx have "y \<noteq> x" by auto
      moreover from y Cons.prems(2) have "y \<in> set tbl" by auto
      ultimately show "y \<in> set ?tbl1" by (auto simp: image_iff)
    qed
    have ih: "for_items (recording (dynamodb sizes)) rc (s3_record b k) (map projected xs)
          (?tbl1, ?log1) (out @ report rc k x) =
        \<lparr>raised = (case dropWhile (valid_pattern rc) xs of [] \<Rightarrow> None
                 | r # rest \<Rightarrow> Some (registration_error r)),
         store = (map (\<lambda>y. if y \<in> set ?tw then advanced rc k y else y) ?tbl1,
                  ?log1 @ map (\<lambda>r. update_item_call (JStr b) (S (Channel r)) (JStr k))
                       (filter (\<lambda>r. matches rc r k) ?tw)),
         printed = (out @ report rc k x) @ concat (map (report rc k) ?tw)\<rparr>"
      using d1 s1 Cons.prems(3,4) by (intro Cons.IH) simp_all
    have ax: "advanced rc k x \<notin> set ?tw"
    proof
      assume "advanced rc k x \<in> set ?tw"
      then have "advanced rc k x \<in> set xs" by (rule set_takeWhileD [THEN conjunct1])
      from nx [OF this] show False by simp
    qed
    have comp: "map (\<lambda>y. if y \<in> set ?tw then advanced rc k y else y) ?tbl1 =
        map (\<lambda>y. if y \<in> set (x # ?tw) then advanced rc k y else y) tbl"
      unfolding map_map by (rule map_cong) (use ax in auto)
    show ?thesis
      using True step ih comp by (simp add: Let_def)
  qed
qed

lemma query_loop_recording:
  "distinct_keys tbl \<Longrightarrow> (case resume of None \<Rightarrow> sizes | Some (k, rest) \<Rightarrow> rest) = sched \<Longrightarrow>
     query_loop (recording (dynamodb sizes)) rc (s3_record b k) resume (tbl, log) out =
       Some (for_items (recording (dynamodb sizes)) rc (s3_record b k)
         (map projected (rows_after (map_option fst resume) (bucket_rows b tbl))) (tbl, log) out)"
proof (induction sched arbitrary: resume tbl log out)
  case Nil
  let ?rows = "rows_after (map_option fst resume) (bucket_rows b tbl)"
  have q: "query (recording (dynamodb sizes)) (JStr b) resume (tbl, log) =
      (Inr \<lparr>Items = map projected ?rows, LastEvaluatedKey = None\<rparr>, (tbl, log))"
    using Nil.prems(2) by (simp add: dynamodb_query_def)
  show ?case
    using query_loop_last_page [OF bucket_name_s3_record [of b k] q, of rc out] by simp
next
  case (Cons n rest)
  let ?rows = "rows_after (map_option fst resume) (bucket_rows b tbl)"
  let ?db = "dynamodb sizes"
  let ?rec = "recording (dynamodb sizes)"
  let ?s3 = "s3_record b k"
  show ?case
  proof (cases "0 < n \<and> n \<le> length ?rows")
    case False
    have q: "query ?rec (JStr b) resume (tbl, log) =
        (Inr \<lparr>Items = map projected ?rows, LastEvaluatedKey = None\<rparr>, (tbl, log))"
      using Cons.prems(2) False by (simp add: dynamodb_query_def Let_def)
    show ?thesis
      using query_loop_last_page [OF bucket_name_s3_record [of b k] q, of rc out] by simp
  next
    case True
    let ?tok = "(key_of (?rows ! (n - 1)), rest)"
    let ?page = "map projected (take n ?rows)"
    let ?r1 = "for_items ?db rc ?s3 ?page tbl out"
    let ?R1 = "for_items ?rec rc ?s3 ?page (tbl, log) out"
    have q: "query ?rec (JStr b) resume (tbl, log) =
        (Inr \<lparr>Items = ?page, LastEvaluatedKey = Some ?tok\<rparr>, (tbl, log))"
      using Cons.prems(2) True by (simp add: dynamodb_query_def Let_def)
    have split: "map projected ?rows = ?page @ map projected (drop n ?rows)"
      by (simp flip: map_append)
    have in_tbl: "\<And>x. x \<in> set (take n ?rows) \<Longrightarrow> Bucket x = b \<and> x \<in> set tbl"
      using set_rows_after set_bucket_rows by (metis in_set_takeD)
    have dr: "distinct (map key_of ?rows)"
      using rows_after_suffix [of "bucket_rows b tbl" "map_option fst resume"]
        distinct_bucket_rows [OF Cons.prems(1), of b]
      by (metis distinct_append map_append)
    have dp: "distinct (map key_of (take n ?rows))"
      using dr by (simp add: take_map [symmetric] distinct_take)
    have sub: "set (take n ?rows) \<subseteq> set tbl" and bk: "\<forall>x\<in>set (take n ?rows). Bucket x = b"
      using in_tbl by auto
    note R1 = for_items_rows_recording [OF Cons.prems(1) sub dp bk, where sizes = sizes and rc = rc
        and k = k and log = log and out = out]
    note r1 = for_items_rows [OF Cons.prems(1) sub dp bk, where sizes = sizes and rc = rc
        and k = k and out = out]
    have same: "raised ?R1 = raised ?r1" "fst (store ?R1) = store ?r1" "printed ?R1 = printed ?r1"
      by (simp_all add: R1 r1)
    show ?thesis
    proof (cases "raised ?R1")
      case (Some e)
      have "query_loop ?rec rc ?s3 resume (tbl, log) out = Some ?R1"
        using query_loop_raised [OF bucket_name_s3_record [of b k] q, of rc out e] Some by simp
      moreover have "for_items ?rec rc ?s3 (map projected ?rows) (tbl, log) out = ?R1"
        unfolding split by (simp add: for_items_append Some)
      ultimately show ?thesis by simp
    next
      case None
      have step: "query_loop ?rec rc ?s3 resume (tbl, log) out =
          query_loop ?rec rc ?s3 (Some ?tok) (store ?R1) (printed ?R1)"
        using query_loop_continues [OF bucket_name_s3_record [of b k] q, of ?tok rc out] None by simp
      have st: "store ?R1 = (store ?r1, snd (store ?R1))"
        using same(2) by (metis prod.collapse)
      have d1: "distinct_keys (store ?r1)"
        using Cons.prems(1) by (rule for_items_distinct)
      have reg: "map registration_of (store ?r1) = map registration_of tbl"
        using bucket_name_s3_record [of b k] in_tbl by (rule for_items_registrations)
      have "map projected (rows_after (map_option fst (Some ?tok)) (bucket_rows b (store ?r1))) =
          map projected (rows_after (Some (key_of (?rows ! (n - 1)))) (bucket_rows b tbl))"
        using items_after_registrations [OF reg] by simp
      also have "rows_after (Some (key_of (?rows ! (n - 1)))) (bucket_rows b tbl) = drop n ?rows"
        using distinct_bucket_rows [OF Cons.prems(1)] True by (intro rows_after_next) simp_all
      finally have items: "map projected (rows_after (map_option fst (Some ?tok)) (bucket_rows b (store ?r1))) =
          map projected (drop n ?rows)" .
      have "query_loop ?rec rc ?s3 (Some ?tok) (store ?r1, snd (store ?R1)) (printed ?R1) =
          Some (for_items ?rec rc ?s3 (map projected (drop n ?rows)) (store ?r1, snd (store ?R1))
            (printed ?R1))"
        using Cons.IH [of "store ?r1" "Some ?tok" "snd (store ?R1)" "printed ?R1", OF d1] items
        by simp
      then have "query_loop ?rec rc ?s3 (Some ?tok) (store ?R1) (printed ?R1) =
          Some (for_items ?rec rc ?s3 (map projected (drop n ?rows)) (store ?R1) (printed ?R1))"
        using st by simp
      moreover have "for_items ?rec rc ?s3 (map projected ?rows) (tbl, log) out =
          for_items ?rec rc ?s3 (map projected (drop n ?rows)) (store ?R1) (printed ?R1)"
        unfolding split by (simp add: for_items_append None)
      ultimately show ?thesis using step by simp
    qed
  qed
qed

lemma handler_recording_direct:
  assumes d: "distinct_keys tbl"
  shows "lambda_handler loads rc (recording (dynamodb sizes)) (direct_payload b k) (tbl, log) =
     Some \<lparr>raised = failure rc b tbl,
            store = (applied rc b k tbl, log @ update_requests rc b k tbl),
            printed = banner (JStr b) (JStr k) @ concat (map (report rc k) (processed rc b tbl))\<rparr>"
proof -
  have "query_loop (recording (dynamodb sizes)) rc (s3_record b k) None (tbl, log)
        (banner (JStr b) (JStr k)) =
      Some (for_items (recording (dynamodb sizes)) rc (s3_record b k)
         (map projected (rows_after (map_option fst (None :: token option)) (bucket_rows b tbl)))
         (tbl, log) (banner (JStr b) (JStr k)))"
    using query_loop_recording [OF d, where resume = None and sched = sizes and sizes = sizes]
    by simp
  also have "for_items (recording (dynamodb sizes)) rc (s3_record b k)
         (map projected (rows_after (map_option fst (None :: token option)) (bucket_rows b tbl)))
         (tbl, log) (banner (JStr b) (JStr k)) =
       \<lparr>raised = failure rc b tbl,
            store = (applied rc b k tbl, log @ update_requests rc b k tbl),
            printed = banner (JStr b) (JStr k) @ concat (map (report rc k) (processed rc b tbl))\<rparr>"
    unfolding failure_def applied_def processed_def update_requests_def rows_after_def
      option.map option.case
    using d distinct_bucket_rows [OF d, of b]
    by (intro for_items_rows_recording) auto
  finally show ?thesis
    by (simp add: lambda_handler_def s3ev_of_direct_payload bucket_name_s3_record
        object_key_s3_record banner_def)
qed

section \<open>The claims about the table\<close>

lemma condition_holds_iff:
  "condition_holds p k \<longleftrightarrow> p = None \<or> (\<exists>s. p = Some (S s) \<and> s < k)"
  by (cases "(p, k)" rule: condition_holds.cases) auto

lemma update_item_result:
  "dynamodb_update_item (update_item_call (JStr b) (S c) (JStr k)) tbl =
     (if condition_holds (pointer tbl b c) k
      then (Inr (), snd (dynamodb_update_item (update_item_call (JStr b) (S c) (JStr k)) tbl))
      else (Inl (ClientError ''ConditionalCheckFailedException''), tbl))"
  by (simp add: dynamodb_update_item_call pointer_def split: option.splits)

lemma update_item_sets_pointer:
  "condition_holds (pointer tbl b c) k \<Longrightarrow>
   pointer (snd (dynamodb_update_item (update_item_call (JStr b) (S c) (JStr k)) tbl)) b c = Some (S k)"
proof (cases "find (\<lambda>r. key_of r = (b, c)) tbl")
  case None
  then show ?thesis
    by (simp add: dynamodb_update_item_call pointer_def find_append_new key_of_def)
next
  case (Some r)
  assume "condition_holds (pointer tbl b c) k"
  with Some have c: "condition_holds (ObjectKey r) k" by (simp add: pointer_def)
  have "pointer (map (\<lambda>x. if key_of x = (b, c) then x\<lparr>ObjectKey := Some (S k)\<rparr> else x) tbl) b c =
      (case find (\<lambda>r. key_of r = (b, c)) tbl of None \<Rightarrow> None
       | Some r \<Rightarrow> ObjectKey (if key_of r = (b, c) then r\<lparr>ObjectKey := Some (S k)\<rparr> else r))"
    by (rule pointer_map_same_key) simp
  moreover from Some have "key_of r = (b, c)" by (auto simp: find_Some_iff)
  ultimately show ?thesis
    using Some c by (simp add: dynamodb_update_item_call)
qed

lemma update_item_other_pointer:
  "(b', c') \<noteq> (b, c) \<Longrightarrow>
   pointer (snd (dynamodb_update_item (update_item_call (JStr b) (S c) (JStr k)) tbl)) b' c' = pointer tbl b' c'"
  using update_item_pointer [of "JStr b" "S c" "JStr k" tbl b' c'] by auto

text \<open>
  Claim C6. An item whose pattern compiles and is not found anywhere in the object key
  (the search of the engine, not a match of the whole string) is passed over: for every
  client the loop goes on with the next item from the same store, with nothing printed.
  So on the table, whatever else the invocation does, a row whose pattern is not found
  in the key is still in the table as it was, its pointer is the same, and no line
  \<open>Updating\<close> names its channel.
\<close>

theorem non_match_is_noop:
  "(it ''Channel'' = Some ch \<and> it ''Pattern'' = Some (S p) \<and> rc p = Some search \<and>
    object_key s3ev = Inr (JStr k) \<and> \<not> search k \<longrightarrow>
      do_item db rc s3ev it st out = \<lparr>raised = None, store = st, printed = out\<rparr> \<and>
      for_items db rc s3ev (it # its) st out = for_items db rc s3ev its st out)
   \<and> (distinct_keys tbl \<and> r \<in> set tbl \<and> Bucket r = b \<and> \<not> matches rc r k \<longrightarrow>
        (\<exists>res. lambda_handler loads rc (dynamodb sizes) (direct_payload b k) tbl = Some res \<and>
           r \<in> set (store res) \<and>
           pointer (store res) b (Channel r) = pointer tbl b (Channel r) \<and>
           Updating (Channel r) \<notin> set (printed res)))"
proof (intro conjI impI; (elim conjE)?)
  assume c: "it ''Channel'' = Some ch" and p: "it ''Pattern'' = Some (S p)" and s: "rc p = Some search"
    and k: "object_key s3ev = Inr (JStr k)" and n: "\<not> search k"
  have m: "match_item rc s3ev it = Inr None"
    using c p s k n by (simp add: match_item_def re_search_def)
  then show d: "do_item db rc s3ev it st out = \<lparr>raised = None, store = st, printed = out\<rparr>"
    by (rule do_item_no_match)
  then show "for_items db rc s3ev (it # its) st out = for_items db rc s3ev its st out"
    by (rule for_items_Cons_ok)
next
  assume d: "distinct_keys tbl" and r: "r \<in> set tbl" and b: "Bucket r = b" and n: "\<not> matches rc r k"
  let ?f = "\<lambda>y. if y \<in> set (processed rc b tbl) then advanced rc k y else y"
  let ?res = "\<lparr>raised = failure rc b tbl, store = applied rc b k tbl,
            printed = banner (JStr b) (JStr k) @ concat (map (report rc k) (processed rc b tbl))\<rparr>"
  have h: "lambda_handler loads rc (dynamodb sizes) (direct_payload b k) tbl = Some ?res"
    using d by (rule handler_direct)
  have fr: "?f r = r" using n by (simp add: advanced_def)
  have "?f r \<in> set (map ?f tbl)" using r by (intro imageI [of r "set tbl" ?f, folded set_map])
  then have in_store: "r \<in> set (applied rc b k tbl)" by (simp only: fr applied_def)
  have kr: "key_of r = (b, Channel r)" using b by (simp add: key_of_def)
  have fnd: "find (\<lambda>x. key_of x = (b, Channel r)) tbl = Some r"
    using find_key_distinct [of key_of tbl r] d r by (simp add: distinct_keys_def kr)
  have "pointer (map ?f tbl) b (Channel r) =
      (case find (\<lambda>x. key_of x = (b, Channel r)) tbl of None \<Rightarrow> None | Some x \<Rightarrow> ObjectKey (?f x))"
    by (rule pointer_map_same_key) simp
  then have ptr: "pointer (applied rc b k tbl) b (Channel r) = pointer tbl b (Channel r)"
    by (simp add: applied_def fnd fr pointer_def)
  have no_line: "Updating (Channel r) \<notin> set (concat (map (report rc k) (processed rc b tbl)))"
  proof
    assume "Updating (Channel r) \<in> set (concat (map (report rc k) (processed rc b tbl)))"
    then obtain x where x: "x \<in> set (processed rc b tbl)" and u: "Updating (Channel r) \<in> set (report rc k x)"
      by auto
    from u have mx: "matches rc x k" and cx: "Channel x = Channel r"
      by (auto simp: report_def split: if_splits)
    from x have xt: "x \<in> set tbl" and bx: "Bucket x = b"
      by (auto simp: processed_def dest: set_takeWhileD)
    from bx cx kr have "key_of x = key_of r" by (simp add: key_of_def)
    with d xt r have "x = r" by (auto simp: distinct_keys_def distinct_map inj_on_def)
    with mx n show False by simp
  qed
  have "Updating (Channel r) \<notin> set (printed ?res)"
    using no_line by (simp add: banner_def)
  with h in_store ptr
  show "\<exists>res. lambda_handler loads rc (dynamodb sizes) (direct_payload b k) tbl = Some res \<and>
           r \<in> set (store res) \<and>
           pointer (store res) b (Channel r) = pointer tbl b (Channel r) \<and>
           Updating (Channel r) \<notin> set (printed res)"
    by (intro exI [of _ ?res]) simp
qed

text \<open>
  Claim C7. However the store cuts the registrations of the bucket into pages, the
  invocation returns, and with the same outcome (the exception if any, the table, the
  lines printed) as when the store answers with one page: the handler asks again with
  each token it is given, and what it has done in the end is one pass over all the
  registrations of the bucket in the order of the pages.
\<close>

theorem pagination_transparent:
  "distinct_keys tbl \<longrightarrow>
     lambda_handler loads rc (dynamodb sizes) event tbl = lambda_handler loads rc (dynamodb []) event tbl
     \<and> (\<exists>res. lambda_handler loads rc (dynamodb sizes) event tbl = Some res)
     \<and> (s3ev_of loads event = Inr s3ev \<and> bucket_name s3ev = Inr (JStr b) \<and>
        object_key s3ev = Inr kj \<longrightarrow>
          lambda_handler loads rc (dynamodb sizes) event tbl =
            Some (for_items (dynamodb []) rc s3ev (map projected (bucket_rows b tbl)) tbl
                   (banner (JStr b) kj)))"
proof (intro conjI impI; (elim conjE)?)
  assume d: "distinct_keys tbl"
  show "lambda_handler loads rc (dynamodb sizes) event tbl = lambda_handler loads rc (dynamodb []) event tbl"
    using d by (rule handler_dynamodb_pages)
  show "\<exists>res. lambda_handler loads rc (dynamodb sizes) event tbl = Some res"
    using handler_dynamodb_total [OF d, of loads rc sizes event] by blast
  assume "s3ev_of loads event = Inr s3ev" and "bucket_name s3ev = Inr (JStr b)"
    and "object_key s3ev = Inr kj"
  with d show "lambda_handler loads rc (dynamodb sizes) event tbl =
            Some (for_items (dynamodb []) rc s3ev (map projected (bucket_rows b tbl)) tbl
                   (banner (JStr b) kj))"
    by (rule handler_dynamodb)
qed


lemma distinct_keys_example: "distinct_keys example_table"
  by (simp add: distinct_keys_def example_table_def key_of_def)

lemmas example_defs =
  failure_def applied_def processed_def bucket_rows_def valid_pattern_def advanced_def
  matches_def report_def registration_error_def example_table_def example_re_compile_def

theorem pagination_transparent_witness:
  "lambda_handler example_loads example_re_compile (dynamodb [1])
       (direct_payload ''example.com'' ''builds/v1.zip'') example_table =
     Some \<lparr>raised = None,
       store =
         [\<lparr>Bucket = ''example.com'', Channel = ''latest'', Pattern = Some (S ''^builds/''),
             ObjectKey = Some (S ''builds/v1.zip'')\<rparr>,
          \<lparr>Bucket = ''example.com'', Channel = ''zips'', Pattern = Some (S ''zip''),
             ObjectKey = Some (S ''builds/v1.zip'')\<rparr>,
          \<lparr>Bucket = ''other.org'', Channel = ''builds'', Pattern = Some (S ''^builds/''), ObjectKey = None\<rparr>,
          \<lparr>Bucket = ''other.org'', Channel = ''latest'', Pattern = Some (S ''(''), ObjectKey = None\<rparr>],
       printed = banner (JStr ''example.com'') (JStr ''builds/v1.zip'') @
         [Updating ''latest'', Ok, Updating ''zips'', Ok]\<rparr>
   \<and> fst (dynamodb_query [1] (JStr ''example.com'') None example_table) =
       Inr \<lparr>Items = [projected (example_table ! 0)],
            LastEvaluatedKey = Some ((''example.com'', ''latest''), [])\<rparr>"
proof (rule conjI)
  have v: "failure example_re_compile ''example.com'' example_table = None"
    "applied example_re_compile ''example.com'' ''builds/v1.zip'' example_table =
         [\<lparr>Bucket = ''example.com'', Channel = ''latest'', Pattern = Some (S ''^builds/''),
             ObjectKey = Some (S ''builds/v1.zip'')\<rparr>,
          \<lparr>Bucket = ''example.com'', Channel = ''zips'', Pattern = Some (S ''zip''),
             ObjectKey = Some (S ''builds/v1.zip'')\<rparr>,
          \<lparr>Bucket = ''other.org'', Channel = ''builds'', Pattern = Some (S ''^builds/''), ObjectKey = None\<rparr>,
          \<lparr>Bucket = ''other.org'', Channel = ''latest'', Pattern = Some (S ''(''), ObjectKey = None\<rparr>]"
    "concat (map (report example_re_compile ''builds/v1.zip'')
           (processed example_re_compile ''example.com'' example_table)) =
        [Updating ''latest'', Ok, Updating ''zips'', Ok]"
    by (simp_all add: example_defs)
  have "lambda_handler example_loads example_re_compile (dynamodb [1])
       (direct_payload ''example.com'' ''builds/v1.zip'') example_table =
      lambda_handler example_loads example_re_compile (dynamodb [])
       (direct_payload ''example.com'' ''builds/v1.zip'') example_table"
    by (rule pagination_transparent [THEN mp, OF distinct_keys_example, THEN conjunct1])
  also have "\<dots> = Some \<lparr>raised = failure example_re_compile ''example.com'' example_table,
       store = applied example_re_compile ''example.com'' ''builds/v1.zip'' example_table,
       printed = banner (JStr ''example.com'') (JStr ''builds/v1.zip'') @
         concat (map (report example_re_compile ''builds/v1.zip'')
           (processed example_re_compile ''example.com'' example_table))\<rparr>"
    by (rule handler_direct [OF distinct_keys_example])
  finally show "lambda_handler example_loads example_re_compile (dynamodb [1])
       (direct_payload ''example.com'' ''builds/v1.zip'') example_table =
     Some \<lparr>raised = None,
       store =
         [\<lparr>Bucket = ''example.com'', Channel = ''latest'', Pattern = Some (S ''^builds/''),
             ObjectKey = Some (S ''builds/v1.zip'')\<rparr>,
          \<lparr>Bucket = ''example.com'', Channel = ''zips'', Pattern = Some (S ''zip''),
             ObjectKey = Some (S ''builds/v1.zip'')\<rparr>,
          \<lparr>Bucket = ''other.org'', Channel = ''builds'', Pattern = Some (S ''^builds/''), ObjectKey = None\<rparr>,
          \<lparr>Bucket = ''other.org'', Channel = ''latest'', Pattern = Some (S ''(''), ObjectKey = None\<rparr>],
       printed = banner (JStr ''example.com'') (JStr ''builds/v1.zip'') @
         [Updating ''latest'', Ok, Updating ''zips'', Ok]\<rparr>"
    by (simp only: v)
next
  show "fst (dynamodb_query [1] (JStr ''example.com'') None example_table) =
       Inr \<lparr>Items = [projected (example_table ! 0)],
            LastEvaluatedKey = Some ((''example.com'', ''latest''), [])\<rparr>"
    by (simp add: dynamodb_query_def rows_after_def bucket_rows_def example_table_def key_of_def)
qed

lemma match_item_example_zips:
  "match_item example_re_compile (s3_record ''example.com'' ''a.zip'') (projected (example_table ! 1)) =
     Inr (Some (S ''zips'', ''zips''))"
  by (simp add: match_item_row valid_pattern_def matches_def example_table_def example_re_compile_def)

theorem non_match_is_noop_witness:
  "for_items (dynamodb []) example_re_compile (s3_record ''example.com'' ''notes.txt'')
       [projected (example_table ! 0), projected (example_table ! 1)] example_table [] =
     \<lparr>raised = None, store = example_table, printed = []\<rparr>
   \<and> (\<exists>res. lambda_handler example_loads example_re_compile (dynamodb [1])
          (direct_payload ''example.com'' ''a/b.zip'') example_table = Some res \<and>
        example_table ! 0 \<in> set (store res) \<and>
        pointer (store res) ''example.com'' ''latest'' = None \<and>
        Updating ''latest'' \<notin> set (printed res))"
proof -
  let ?s3 = "s3_record ''example.com'' ''notes.txt''"
  let ?db = "dynamodb [] :: (table, token) client"
  have z: "for_items ?db example_re_compile ?s3 [projected (example_table ! 1)] example_table [] =
      for_items ?db example_re_compile ?s3 [] example_table []"
    by (rule non_match_is_noop [where p = "''zip''" and search = "str_contains ''zip''"
          and k = "''notes.txt''" and ch = "S ''zips''",
          THEN conjunct1, THEN mp, THEN conjunct2])
      (simp add: example_table_def example_re_compile_def object_key_s3_record)
  have l: "for_items ?db example_re_compile ?s3
        [projected (example_table ! 0), projected (example_table ! 1)] example_table [] =
      for_items ?db example_re_compile ?s3 [projected (example_table ! 1)] example_table []"
    by (rule non_match_is_noop [where p = "''^builds/''" and search = "\<lambda>s. take 7 s = ''builds/''"
          and k = "''notes.txt''" and ch = "S ''latest''",
          THEN conjunct1, THEN mp, THEN conjunct2])
      (simp add: example_table_def example_re_compile_def object_key_s3_record)
  have a: "for_items ?db example_re_compile ?s3
       [projected (example_table ! 0), projected (example_table ! 1)] example_table [] =
     \<lparr>raised = None, store = example_table, printed = []\<rparr>"
    by (simp only: l z for_items.simps(1))
  have b: "\<exists>res. lambda_handler example_loads example_re_compile (dynamodb [1])
          (direct_payload ''example.com'' ''a/b.zip'') example_table = Some res \<and>
        example_table ! 0 \<in> set (store res) \<and>
        pointer (store res) ''example.com'' ''latest'' = None \<and>
        Updating ''latest'' \<notin> set (printed res)"
    using non_match_is_noop [where tbl = example_table and r = "example_table ! 0"
        and b = "''example.com''" and k = "''a/b.zip''" and rc = example_re_compile
        and loads = example_loads and sizes = "[1]", THEN conjunct2] distinct_keys_example
    by (simp add: matches_def example_re_compile_def example_table_def pointer_def key_of_def)
  from a b show ?thesis by simp
qed


lemma for_items_example_latest_skipped:
  "for_items db example_re_compile (s3_record ''example.com'' ''a.zip'')
     [projected (example_table ! 0)] example_table [] =
   \<lparr>raised = None, store = example_table, printed = []\<rparr>"
  by (simp add: do_item_def match_item_row valid_pattern_def matches_def example_table_def
      example_re_compile_def Let_def)

lemma query_example_com:
  "dynamodb_query [] (JStr ''example.com'') None example_table =
     (Inr \<lparr>Items = [projected (example_table ! 0), projected (example_table ! 1)],
           LastEvaluatedKey = None\<rparr>, example_table)"
  by (simp add: dynamodb_query_def rows_after_def bucket_rows_def example_table_def)

theorem store_errors_on_write_witness:
  "for_items (dynamodb []) example_re_compile (s3_record ''example.com'' ''a.zip'')
       [projected (example_table ! 0), projected (example_table ! 1)] example_table [] =
     \<lparr>raised = None, store = example_table, printed = [Updating ''zips'', AlreadyUpToDate]\<rparr>
   \<and> for_items example_throttled example_re_compile (s3_record ''example.com'' ''a.zip'')
       [projected (example_table ! 0), projected (example_table ! 1), projected (example_table ! 0)]
       example_table [] =
     \<lparr>raised = Some (ClientError ''ProvisionedThroughputExceededException''), store = example_table,
       printed = [Updating ''zips'']\<rparr>
   \<and> query_loop example_throttled example_re_compile (s3_record ''example.com'' ''a.zip'') None
       example_table [] =
     Some \<lparr>raised = Some (ClientError ''ProvisionedThroughputExceededException''),
       store = example_table, printed = [Updating ''zips'']\<rparr>"
proof -
  let ?s3 = "s3_record ''example.com'' ''a.zip''"
  let ?L = "projected (example_table ! 0)" and ?Z = "projected (example_table ! 1)"
  let ?db = "dynamodb [] :: (table, token) client"
  have "for_items ?db example_re_compile ?s3 ([?L] @ ?Z # []) example_table [] =
      for_items ?db example_re_compile ?s3 [] example_table ([] @ [Updating ''zips'', AlreadyUpToDate])"
  proof (rule store_errors_on_write [where ch = "S ''zips''" and b = "JStr ''example.com''"
        and k = "JStr ''a.zip''" and st = example_table, THEN mp, THEN conjunct1, THEN mp])
    show "match_item example_re_compile ?s3 ?Z = Inr (Some (S ''zips'', ''zips'')) \<and>
        bucket_name ?s3 = Inr (JStr ''example.com'') \<and> object_key ?s3 = Inr (JStr ''a.zip'') \<and>
        for_items ?db example_re_compile ?s3 [?L] example_table [] =
          \<lparr>raised = None, store = example_table, printed = []\<rparr>"
      by (simp only: match_item_example_zips bucket_name_s3_record object_key_s3_record
          for_items_example_latest_skipped simp_thms)
    show "update_item ?db (update_item_call (JStr ''example.com'') (S ''zips'') (JStr ''a.zip'')) example_table =
        (Inl (ClientError ''ConditionalCheckFailedException''), example_table)"
      by (simp add: dynamodb_update_item_call example_table_def key_of_def)
  qed
  then have a: "for_items ?db example_re_compile ?s3 [?L, ?Z] example_table [] =
     \<lparr>raised = None, store = example_table, printed = [Updating ''zips'', AlreadyUpToDate]\<rparr>"
    by simp
  have h: "match_item example_re_compile ?s3 ?Z = Inr (Some (S ''zips'', ''zips'')) \<and>
        bucket_name ?s3 = Inr (JStr ''example.com'') \<and> object_key ?s3 = Inr (JStr ''a.zip'') \<and>
        for_items example_throttled example_re_compile ?s3 [?L] example_table [] =
          \<lparr>raised = None, store = example_table, printed = []\<rparr>"
    by (simp only: match_item_example_zips bucket_name_s3_record object_key_s3_record
        for_items_example_latest_skipped simp_thms)
  have u: "update_item example_throttled (update_item_call (JStr ''example.com'') (S ''zips'') (JStr ''a.zip'')) example_table =
        (Inl (ClientError ''ProvisionedThroughputExceededException''), example_table) \<and>
      ClientError ''ProvisionedThroughputExceededException'' \<noteq>
        ClientError ''ConditionalCheckFailedException''"
    by (simp add: example_throttled_def)
  have "for_items example_throttled example_re_compile ?s3 ([?L] @ ?Z # [?L]) example_table [] =
      \<lparr>raised = Some (ClientError ''ProvisionedThroughputExceededException''), store = example_table,
        printed = [] @ [Updating ''zips'']\<rparr>"
    by (rule store_errors_on_write [THEN mp, OF h, THEN conjunct2, THEN mp, OF u, THEN conjunct1])
  then have b: "for_items example_throttled example_re_compile ?s3 [?L, ?Z, ?L] example_table [] =
      \<lparr>raised = Some (ClientError ''ProvisionedThroughputExceededException''), store = example_table,
        printed = [Updating ''zips'']\<rparr>"
    by simp
  have q: "query example_throttled (JStr ''example.com'') None example_table =
        (Inr \<lparr>Items = [?L, ?Z], LastEvaluatedKey = None\<rparr>, example_table) \<and>
      Items \<lparr>Items = [?L, ?Z], LastEvaluatedKey = (None :: token option)\<rparr> = [?L] @ ?Z # []"
    by (simp add: example_throttled_def query_example_com)
  have "query_loop example_throttled example_re_compile ?s3 None example_table [] =
      Some \<lparr>raised = Some (ClientError ''ProvisionedThroughputExceededException''),
        store = example_table, printed = [] @ [Updating ''zips'']\<rparr>"
    by (rule store_errors_on_write [THEN mp, OF h, THEN conjunct2, THEN mp, OF u, THEN conjunct2,
          THEN mp, OF q])
  then have c: "query_loop example_throttled example_re_compile ?s3 None example_table [] =
      Some \<lparr>raised = Some (ClientError ''ProvisionedThroughputExceededException''),
        store = example_table, printed = [Updating ''zips'']\<rparr>"
    by simp
  from a b c show ?thesis by simp
qed


theorem bad_pattern_propagates_witness:
  "for_items (dynamodb []) example_re_compile (s3_record ''other.org'' ''builds/v1.zip'')
       [projected (example_table ! 2), projected (example_table ! 3), projected (example_table ! 2)]
       example_table [] =
     \<lparr>raised = Some RegexError,
      store = example_table [2 := (example_table ! 2)\<lparr>ObjectKey := Some (S ''builds/v1.zip'')\<rparr>],
      printed = [Updating ''builds'', Ok]\<rparr>
   \<and> query_loop (dynamodb []) example_re_compile (s3_record ''other.org'' ''builds/v1.zip'') None
       example_table [] =
     Some \<lparr>raised = Some RegexError,
      store = example_table [2 := (example_table ! 2)\<lparr>ObjectKey := Some (S ''builds/v1.zip'')\<rparr>],
      printed = [Updating ''builds'', Ok]\<rparr>"
proof -
  let ?s3 = "s3_record ''other.org'' ''builds/v1.zip''"
  let ?B = "projected (example_table ! 2)" and ?O = "projected (example_table ! 3)"
  let ?db = "dynamodb [] :: (table, token) client"
  let ?t = "example_table [2 := (example_table ! 2)\<lparr>ObjectKey := Some (S ''builds/v1.zip'')\<rparr>]"
  have pre: "for_items ?db example_re_compile ?s3 [?B] example_table [] =
      \<lparr>raised = None, store = ?t, printed = [Updating ''builds'', Ok]\<rparr>"
    by (simp add: do_item_def match_item_row valid_pattern_def matches_def example_table_def
        example_re_compile_def write_item_def bucket_name_s3_record object_key_s3_record
        dynamodb_update_item_call key_of_def Let_def)
  have h: "?O ''Channel'' = Some (S ''latest'') \<and> ?O ''Pattern'' = Some (S ''('') \<and>
      example_re_compile ''('' = None \<and> object_key ?s3 = Inr (JStr ''builds/v1.zip'') \<and>
      for_items ?db example_re_compile ?s3 [?B] example_table [] =
        \<lparr>raised = None, store = ?t, printed = [Updating ''builds'', Ok]\<rparr>"
    by (intro conjI pre object_key_s3_record)
      (simp_all add: example_table_def example_re_compile_def)
  have "for_items ?db example_re_compile ?s3 ([?B] @ ?O # [?B]) example_table [] =
      \<lparr>raised = Some RegexError, store = ?t, printed = [Updating ''builds'', Ok]\<rparr>"
    by (rule bad_pattern_propagates [THEN mp, OF h, THEN conjunct1])
  then have a: "for_items ?db example_re_compile ?s3 [?B, ?O, ?B] example_table [] =
      \<lparr>raised = Some RegexError, store = ?t, printed = [Updating ''builds'', Ok]\<rparr>"
    by simp
  have q: "bucket_name ?s3 = Inr (JStr ''other.org'') \<and>
      query ?db (JStr ''other.org'') None example_table =
        (Inr \<lparr>Items = [?B, ?O], LastEvaluatedKey = None\<rparr>, example_table) \<and>
      Items \<lparr>Items = [?B, ?O], LastEvaluatedKey = (None :: token option)\<rparr> = [?B] @ ?O # []"
    by (simp add: bucket_name_s3_record dynamodb_query_def rows_after_def bucket_rows_def
        example_table_def)
  have b: "query_loop ?db example_re_compile ?s3 None example_table [] =
      Some \<lparr>raised = Some RegexError, store = ?t, printed = [Updating ''builds'', Ok]\<rparr>"
    by (rule bad_pattern_propagates [THEN mp, OF h, THEN conjunct2, THEN mp, OF q])
  from a b show ?thesis by (rule conjI)
qed

theorem missing_s3_key_error_witness:
  "lambda_handler example_loads example_re_compile (dynamodb []) (sns_payload ''M2'') example_table =
     Some \<lparr>raised = Some KeyError, store = example_table, printed = []\<rparr>
   \<and> unwrapped example_loads (sns_payload ''M2'') = Inr (sns_payload ''M1'')
   \<and> lambda_handler example_loads example_re_compile (dynamodb [])
       (JObj [(''Records'', JArr [JObj [(''eventName'', JStr ''ObjectCreated:Put'')]])]) example_table =
     Some \<lparr>raised = Some KeyError, store = example_table, printed = []\<rparr>
   \<and> normalize example_loads (sns_payload ''M2'') = Inl KeyError"
proof -
  have l: "example_loads ''M2'' = Some (sns_payload ''M1'')"
    by (simp add: example_loads_def)
  note t = missing_s3_key_error [where loads = example_loads and rc = example_re_compile
      and db = "dynamodb []" and st = example_table]
  have a: "lambda_handler example_loads example_re_compile (dynamodb []) (sns_payload ''M2'') example_table =
     Some \<lparr>raised = Some KeyError, store = example_table, printed = []\<rparr>"
    by (rule t [THEN conjunct2, THEN conjunct2, THEN mp, OF l, THEN conjunct2, THEN conjunct2])
  have b: "unwrapped example_loads (sns_payload ''M2'') = Inr (sns_payload ''M1'')"
    by (rule t [THEN conjunct2, THEN conjunct2, THEN mp, OF l, THEN conjunct1])
  have c: "lambda_handler example_loads example_re_compile (dynamodb [])
       (JObj [(''Records'', JArr [JObj [(''eventName'', JStr ''ObjectCreated:Put'')]])]) example_table =
     Some \<lparr>raised = Some KeyError, store = example_table, printed = []\<rparr>"
    by (rule t [where kvs = "[(''eventName'', JStr ''ObjectCreated:Put'')]",
          THEN conjunct2, THEN conjunct1, THEN mp]) simp
  have u: "unwrapped example_loads (sns_payload ''M2'') = Inr (sns_payload ''M1'') \<and>
      first_record (sns_payload ''M1'') = Inr (JObj [(''Sns'', JObj [(''Message'', JStr ''M1'')])]) \<and>
      ''s3'' \<notin> fst ` set [(''Sns'', JObj [(''Message'', JStr ''M1'')])]"
    by (simp add: b) (simp add: first_record_def sns_payload_def)
  have d: "normalize example_loads (sns_payload ''M2'') = Inl KeyError"
    by (rule t [THEN conjunct1, THEN mp, OF u, THEN conjunct1])
  from a b c d show ?thesis by simp
qed

theorem normalize_deterministic_witness:
  "lambda_handler example_loads example_re_compile (dynamodb [])
       (JObj [(''Records'', JArr [JObj [(''s3'', JObj [])]])]) example_table =
     Some \<lparr>raised = Some KeyError, store = example_table, printed = [Rule]\<rparr>
   \<and> lambda_handler example_loads (\<lambda>p. None) example_throttled
       (JObj [(''Records'', JArr [JObj [(''s3'', JObj [])]])]) [] =
     Some \<lparr>raised = Some KeyError, store = [], printed = [Rule]\<rparr>
   \<and> (\<exists>s3ev. lambda_handler example_loads example_re_compile (dynamodb [])
         (direct_payload ''Example.COM'' ''Builds/V1.zip'') example_table =
       query_loop (dynamodb []) example_re_compile s3ev None example_table
         [Rule, BucketLine (JStr ''Example.COM''), KeyLine (JStr ''Builds/V1.zip''), Rule, Blank] \<and>
       lambda_handler example_loads (\<lambda>p. None) example_throttled
         (direct_payload ''Example.COM'' ''Builds/V1.zip'') [] =
       query_loop example_throttled (\<lambda>p. None) s3ev None []
         [Rule, BucketLine (JStr ''Example.COM''), KeyLine (JStr ''Builds/V1.zip''), Rule, Blank])
   \<and> normalize example_loads (sns_payload ''M1'') =
       Inr \<lparr>collection_id = JStr ''example.com'', object_id = JStr ''builds/v1.zip''\<rparr>"
proof -
  let ?e = "JObj [(''Records'', JArr [JObj [(''s3'', JObj [])]])]"
  let ?ev = "\<lparr>collection_id = JStr ''Example.COM'', object_id = JStr ''Builds/V1.zip''\<rparr>"
  note t = normalize_deterministic [where loads = example_loads and rc = example_re_compile
      and db = "dynamodb []" and st = example_table and rc' = "\<lambda>p. None"
      and db' = example_throttled and st' = "[]"]
  have s: "s3ev_of example_loads ?e = Inr (JObj [])"
    by (simp add: s3ev_of_def unwrapped_def assert_one_record_def first_record_def)
  then have n: "normalize example_loads ?e = Inl KeyError"
    by (simp add: normalize_def bucket_name_def)
  have x: "snd (extraction example_loads ?e) = [Rule]"
    by (simp add: extraction_def s bucket_name_def)
  note f = t [THEN conjunct2, THEN conjunct1, THEN mp, OF n]
  have a: "lambda_handler example_loads example_re_compile (dynamodb []) ?e example_table =
      Some \<lparr>raised = Some KeyError, store = example_table, printed = [Rule]\<rparr>"
    using f [THEN conjunct1] by (simp only: x)
  have a': "lambda_handler example_loads (\<lambda>p. None) example_throttled ?e [] =
      Some \<lparr>raised = Some KeyError, store = [], printed = [Rule]\<rparr>"
    using f [THEN conjunct2, THEN conjunct1] by (simp only: x)
  have "normalize example_loads (direct_payload ''Example.COM'' ''Builds/V1.zip'') = Inr ?ev"
    by (rule t [THEN conjunct2, THEN conjunct2, THEN conjunct2, THEN conjunct1])
  note g = t [THEN conjunct2, THEN conjunct2, THEN conjunct1, THEN mp, OF this, THEN conjunct2]
  have b: "\<exists>s3ev. lambda_handler example_loads example_re_compile (dynamodb [])
         (direct_payload ''Example.COM'' ''Builds/V1.zip'') example_table =
       query_loop (dynamodb []) example_re_compile s3ev None example_table
         [Rule, BucketLine (JStr ''Example.COM''), KeyLine (JStr ''Builds/V1.zip''), Rule, Blank] \<and>
       lambda_handler example_loads (\<lambda>p. None) example_throttled
         (direct_payload ''Example.COM'' ''Builds/V1.zip'') [] =
       query_loop example_throttled (\<lambda>p. None) s3ev None []
         [Rule, BucketLine (JStr ''Example.COM''), KeyLine (JStr ''Builds/V1.zip''), Rule, Blank]"
    using g by (auto simp: banner_def)
  have l: "example_loads ''M1'' = Some (direct_payload ''example.com'' ''builds/v1.zip'')"
    by (simp add: example_loads_def)
  have c: "normalize example_loads (sns_payload ''M1'') =
       Inr \<lparr>collection_id = JStr ''example.com'', object_id = JStr ''builds/v1.zip''\<rparr>"
    by (rule t [THEN conjunct2, THEN conjunct2, THEN conjunct2, THEN conjunct2, THEN mp, OF l])
  from a a' b c show ?thesis by (intro conjI)
qed

text \<open>
  Claim C8 as stated, with an extraction that performs no output, fails: a record with a
  bucket name and no object key ends in \<open>KeyError\<close> at line 89 with two lines on standard
  output already, and on a complete record all five lines of the banner are out by the
  time the identifiers are known.
\<close>

theorem normalize_prints:
  "lambda_handler example_loads example_re_compile (dynamodb [])
       (JObj [(''Records'', JArr [JObj [(''s3'',
          JObj [(''bucket'', JObj [(''name'', JStr ''example.com'')])])]])]) example_table =
     Some \<lparr>raised = Some KeyError, store = example_table,
       printed = [Rule, BucketLine (JStr ''example.com'')]\<rparr>
   \<and> extraction example_loads (direct_payload ''example.com'' ''builds/v1.zip'') =
       (Inr \<lparr>collection_id = JStr ''example.com'', object_id = JStr ''builds/v1.zip''\<rparr>,
        [Rule, BucketLine (JStr ''example.com''), KeyLine (JStr ''builds/v1.zip''), Rule, Blank])"
proof (rule conjI)
  let ?e = "JObj [(''Records'', JArr [JObj [(''s3'',
          JObj [(''bucket'', JObj [(''name'', JStr ''example.com'')])])]])]"
  have s: "s3ev_of example_loads ?e = Inr (JObj [(''bucket'', JObj [(''name'', JStr ''example.com'')])])"
    by (simp add: s3ev_of_def unwrapped_def assert_one_record_def first_record_def)
  show "lambda_handler example_loads example_re_compile (dynamodb []) ?e example_table =
     Some \<lparr>raised = Some KeyError, store = example_table,
       printed = [Rule, BucketLine (JStr ''example.com'')]\<rparr>"
    by (simp add: lambda_handler_def s bucket_name_def object_key_def)
next
  show "extraction example_loads (direct_payload ''example.com'' ''builds/v1.zip'') =
       (Inr \<lparr>collection_id = JStr ''example.com'', object_id = JStr ''builds/v1.zip''\<rparr>,
        [Rule, BucketLine (JStr ''example.com''), KeyLine (JStr ''builds/v1.zip''), Rule, Blank])"
    by (simp add: extraction_def s3ev_of_direct_payload bucket_name_s3_record object_key_s3_record)
qed

subsection \<open>Redelivery\<close>

lemma matches_update [simp]: "matches rc (r\<lparr>ObjectKey := v\<rparr>) k = matches rc r k"
  by (simp add: matches_def)

lemma case_map_head:
  "(case map f xs of [] \<Rightarrow> a | r # rest \<Rightarrow> h r) = (case xs of [] \<Rightarrow> a | r # rest \<Rightarrow> h (f r))"
  by (cases xs) simp_all

lemma advanced_fields [simp]:
  "Bucket (advanced rc k r) = Bucket r" "Channel (advanced rc k r) = Channel r"
  "Pattern (advanced rc k r) = Pattern r"
  by (simp_all add: advanced_def)

lemma valid_pattern_advanced [simp]: "valid_pattern rc (advanced rc' k r) = valid_pattern rc r"
  by (simp add: valid_pattern_def)

lemma matches_advanced [simp]: "matches rc (advanced rc' k r) k' = matches rc r k'"
  by (simp add: matches_def)

lemma registration_error_advanced [simp]: "registration_error (advanced rc k r) = registration_error r"
  by (simp add: registration_error_def)

lemma advanced_idem: "advanced rc k (advanced rc k r) = advanced rc k r"
  by (simp add: advanced_def)

lemma report_advanced:
  "report rc k (advanced rc k r) =
     (if matches rc r k then [Updating (Channel r), AlreadyUpToDate] else [])"
  by (auto simp: report_def advanced_def)

lemma applied_keys: "map key_of (applied rc b k tbl) = map key_of tbl"
  by (simp add: applied_def comp_def if_distrib [of key_of])

lemma distinct_keys_applied: "distinct_keys tbl \<Longrightarrow> distinct_keys (applied rc b k tbl)"
  by (simp add: distinct_keys_def applied_keys)

lemma bucket_rows_applied:
  "bucket_rows b' (applied rc b k tbl) =
     map (\<lambda>r. if r \<in> set (processed rc b tbl) then advanced rc k r else r) (bucket_rows b' tbl)"
  by (simp add: bucket_rows_def applied_def filter_map comp_def if_distrib [of Bucket])

lemma processed_applied:
  "processed rc b (applied rc b k tbl) = map (advanced rc k) (processed rc b tbl)"
proof -
  let ?f = "\<lambda>r. if r \<in> set (processed rc b tbl) then advanced rc k r else r"
  have v: "valid_pattern rc \<circ> ?f = valid_pattern rc"
    by (rule ext) simp
  have "processed rc b (applied rc b k tbl) = map ?f (processed rc b tbl)"
    by (simp add: processed_def [of rc b "applied rc b k tbl"] bucket_rows_applied takeWhile_map v)
      (simp add: processed_def)
  also have "\<dots> = map (advanced rc k) (processed rc b tbl)"
    by (rule map_cong) simp_all
  finally show ?thesis .
qed

lemma failure_applied: "failure rc b (applied rc b k tbl) = failure rc b tbl"
proof -
  let ?f = "\<lambda>r. if r \<in> set (processed rc b tbl) then advanced rc k r else r"
  have v: "valid_pattern rc \<circ> ?f = valid_pattern rc"
    by (rule ext) simp
  have e: "\<And>r. registration_error (?f r) = registration_error r" by simp
  have dw: "dropWhile (valid_pattern rc) (bucket_rows b (applied rc b k tbl)) =
      map ?f (dropWhile (valid_pattern rc) (bucket_rows b tbl))"
    by (simp add: bucket_rows_applied dropWhile_map v)
  show ?thesis
    unfolding failure_def dw case_map_head e by (rule refl)
qed

lemma applied_idem:
  assumes d: "distinct_keys tbl"
  shows "applied rc b k (applied rc b k tbl) = applied rc b k tbl"
proof -
  let ?P = "set (processed rc b tbl)"
  let ?f = "\<lambda>r. if r \<in> ?P then advanced rc k r else r"
  let ?g = "\<lambda>r. if r \<in> set (map (advanced rc k) (processed rc b tbl)) then advanced rc k r else r"
  have sub: "?P \<subseteq> set tbl"
    by (auto simp: processed_def dest: set_takeWhileD)
  have inj: "\<And>x y. x \<in> set tbl \<Longrightarrow> y \<in> set tbl \<Longrightarrow> key_of x = key_of y \<Longrightarrow> x = y"
    using d by (auto simp: distinct_keys_def distinct_map inj_on_def)
  have "map ?g (map ?f tbl) = map ?f tbl"
    unfolding map_map
  proof (rule map_cong [OF refl])
    fix y assume y: "y \<in> set tbl"
    show "(?g \<circ> ?f) y = ?f y"
    proof (cases "y \<in> ?P")
      case True
      then show ?thesis by (simp add: advanced_idem)
    next
      case False
      have "y \<notin> advanced rc k ` ?P"
      proof
        assume "y \<in> advanced rc k ` ?P"
        then obtain x where x: "x \<in> ?P" and yx: "y = advanced rc k x" by auto
        from yx have "key_of y = key_of x" by simp
        with inj [OF y] x sub have "y = x" by auto
        with x False show False by simp
      qed
      with False show ?thesis by simp
    qed
  qed
  then show ?thesis
    by (simp add: applied_def [of rc b k "applied rc b k tbl"] processed_applied)
      (simp add: applied_def)
qed


lemma processed_rows:
  "r \<in> set (processed rc b tbl) \<Longrightarrow> r \<in> set tbl \<and> Bucket r = b \<and> valid_pattern rc r"
  by (auto simp: processed_def dest: set_takeWhileD)

lemma pointer_processed:
  assumes d: "distinct_keys tbl" and r: "r \<in> set (processed rc b tbl)"
  shows "pointer tbl b (Channel r) = ObjectKey r"
proof -
  from processed_rows [OF r] have rt: "r \<in> set tbl" and br: "Bucket r = b" by simp_all
  have kr: "(b, Channel r) = key_of r" using br by (simp add: key_of_def)
  have "find (\<lambda>x. key_of x = (b, Channel r)) tbl = Some r"
    unfolding kr using d rt by (intro find_key_distinct) (simp_all add: distinct_keys_def)
  then show ?thesis by (simp add: pointer_def)
qed

lemma pointer_applied:
  assumes d: "distinct_keys tbl" and r: "r \<in> set (processed rc b tbl)"
  shows "pointer (applied rc b k tbl) b (Channel r) = ObjectKey (advanced rc k r)"
proof -
  have "advanced rc k r \<in> set (processed rc b (applied rc b k tbl))"
    using r by (simp add: processed_applied)
  from pointer_processed [OF distinct_keys_applied [OF d] this]
  show ?thesis by simp
qed

text \<open>
  Claim C3, in the form in which it holds. The same creation event handled twice in a
  row, whatever the pages of the two invocations: the second invocation leaves the table
  as the first left it, ends as the first did, and prints \<open>Already up to date.\<close> for every
  matching registration it gets to and \<open>OK\<close> for none; when the registrations of the bucket
  are valid, both invocations return and that is every matching registration of the
  bucket. The condition of the second write fails because the pointer the first
  invocation left is not below the object key: it is the object key where the first
  invocation wrote it, and the pointer the table had before, already not below the object
  key, where the first invocation did not write.
\<close>

theorem redelivery_idempotent:
  "distinct_keys tbl \<longrightarrow>
     (\<exists>r1 r2.
        lambda_handler loads rc (dynamodb sizes) (direct_payload b k) tbl = Some r1 \<and>
        lambda_handler loads rc (dynamodb sizes') (direct_payload b k) (store r1) = Some r2 \<and>
        store r2 = store r1 \<and> raised r2 = raised r1 \<and>
        printed r2 = banner (JStr b) (JStr k) @
          concat (map (\<lambda>r. if matches rc r k then [Updating (Channel r), AlreadyUpToDate] else [])
            (processed rc b tbl)) \<and>
        Ok \<notin> set (printed r2) \<and>
        (\<forall>r\<in>set (processed rc b tbl). matches rc r k \<longrightarrow>
           \<not> condition_holds (pointer (store r1) b (Channel r)) k \<and>
           pointer (store r1) b (Channel r) =
             (if condition_holds (pointer tbl b (Channel r)) k then Some (S k)
              else pointer tbl b (Channel r))) \<and>
        (valid_registrations rc b tbl \<longrightarrow>
           raised r1 = None \<and> processed rc b tbl = bucket_rows b tbl))"
proof
  assume d: "distinct_keys tbl"
  let ?r1 = "\<lparr>raised = failure rc b tbl, store = applied rc b k tbl,
      printed = banner (JStr b) (JStr k) @ concat (map (report rc k) (processed rc b tbl))\<rparr>"
  let ?out = "banner (JStr b) (JStr k) @
      concat (map (\<lambda>r. if matches rc r k then [Updating (Channel r), AlreadyUpToDate] else [])
        (processed rc b tbl))"
  let ?r2 = "\<lparr>raised = failure rc b tbl, store = applied rc b k tbl, printed = ?out\<rparr>"
  have h1: "lambda_handler loads rc (dynamodb sizes) (direct_payload b k) tbl = Some ?r1"
    using d by (rule handler_direct)
  have rep: "map (report rc k) (map (advanced rc k) (processed rc b tbl)) =
      map (\<lambda>r. if matches rc r k then [Updating (Channel r), AlreadyUpToDate] else [])
        (processed rc b tbl)"
    by (simp add: comp_def report_advanced)
  have "lambda_handler loads rc (dynamodb sizes') (direct_payload b k) (applied rc b k tbl) =
      Some \<lparr>raised = failure rc b (applied rc b k tbl),
        store = applied rc b k (applied rc b k tbl),
        printed = banner (JStr b) (JStr k) @
          concat (map (report rc k) (processed rc b (applied rc b k tbl)))\<rparr>"
    using distinct_keys_applied [OF d] by (rule handler_direct)
  then have h2: "lambda_handler loads rc (dynamodb sizes') (direct_payload b k) (store ?r1) = Some ?r2"
    by (simp only: failure_applied applied_idem [OF d] processed_applied rep outcome.simps)
  have no_ok: "Ok \<notin> set ?out"
    by (auto simp: banner_def)
  have v: "valid_registrations rc b tbl \<longrightarrow>
      raised ?r1 = None \<and> processed rc b tbl = bucket_rows b tbl"
    by (simp add: failure_valid processed_valid)
  have why: "\<forall>r\<in>set (processed rc b tbl). matches rc r k \<longrightarrow>
      \<not> condition_holds (pointer (store ?r1) b (Channel r)) k \<and>
      pointer (store ?r1) b (Channel r) =
        (if condition_holds (pointer tbl b (Channel r)) k then Some (S k)
         else pointer tbl b (Channel r))"
  proof (intro ballI impI)
    fix r assume r: "r \<in> set (processed rc b tbl)" and m: "matches rc r k"
    have p: "pointer (store ?r1) b (Channel r) = ObjectKey (advanced rc k r)"
      using pointer_applied [OF d r, of k] by simp
    show "\<not> condition_holds (pointer (store ?r1) b (Channel r)) k \<and>
      pointer (store ?r1) b (Channel r) =
        (if condition_holds (pointer tbl b (Channel r)) k then Some (S k)
         else pointer tbl b (Channel r))"
      unfolding p pointer_processed [OF d r] using m by (simp add: advanced_def)
  qed
  show "\<exists>r1 r2.
        lambda_handler loads rc (dynamodb sizes) (direct_payload b k) tbl = Some r1 \<and>
        lambda_handler loads rc (dynamodb sizes') (direct_payload b k) (store r1) = Some r2 \<and>
        store r2 = store r1 \<and> raised r2 = raised r1 \<and>
        printed r2 = banner (JStr b) (JStr k) @
          concat (map (\<lambda>r. if matches rc r k then [Updating (Channel r), AlreadyUpToDate] else [])
            (processed rc b tbl)) \<and>
        Ok \<notin> set (printed r2) \<and>
        (\<forall>r\<in>set (processed rc b tbl). matches rc r k \<longrightarrow>
           \<not> condition_holds (pointer (store r1) b (Channel r)) k \<and>
           pointer (store r1) b (Channel r) =
             (if condition_holds (pointer tbl b (Channel r)) k then Some (S k)
              else pointer tbl b (Channel r))) \<and>
        (valid_registrations rc b tbl \<longrightarrow>
           raised r1 = None \<and> processed rc b tbl = bucket_rows b tbl)"
    using h1 h2 no_ok v why by (intro exI [of _ ?r1] exI [of _ ?r2]) simp
qed

lemma valid_registrations_example: "valid_registrations example_re_compile ''example.com'' example_table"
  by (simp add: valid_registrations_def valid_pattern_def example_table_def example_re_compile_def)

theorem redelivery_idempotent_witness:
  "\<exists>r1 r2.
      lambda_handler example_loads example_re_compile (dynamodb [1])
        (direct_payload ''example.com'' ''builds/v1.zip'') example_table = Some r1 \<and>
      lambda_handler example_loads example_re_compile (dynamodb [])
        (direct_payload ''example.com'' ''builds/v1.zip'') (store r1) = Some r2 \<and>
      store r2 = store r1 \<and> raised r1 = None \<and> raised r2 = None \<and>
      pointer (store r1) ''example.com'' ''latest'' = Some (S ''builds/v1.zip'') \<and>
      printed r1 = banner (JStr ''example.com'') (JStr ''builds/v1.zip'') @
        [Updating ''latest'', Ok, Updating ''zips'', Ok] \<and>
      printed r2 = banner (JStr ''example.com'') (JStr ''builds/v1.zip'') @
        [Updating ''latest'', AlreadyUpToDate, Updating ''zips'', AlreadyUpToDate]"
proof -
  let ?h = "lambda_handler example_loads example_re_compile"
  let ?e = "direct_payload ''example.com'' ''builds/v1.zip''"
  from redelivery_idempotent [THEN mp, OF distinct_keys_example,
      of example_loads example_re_compile "[1]" "''example.com''" "''builds/v1.zip''" "[]"]
  obtain r1 r2 where h1: "?h (dynamodb [1]) ?e example_table = Some r1"
    and h2: "?h (dynamodb []) ?e (store r1) = Some r2"
    and s: "store r2 = store r1" and r: "raised r2 = raised r1"
    and p: "printed r2 = banner (JStr ''example.com'') (JStr ''builds/v1.zip'') @
          concat (map (\<lambda>r. if matches example_re_compile r ''builds/v1.zip''
              then [Updating (Channel r), AlreadyUpToDate] else [])
            (processed example_re_compile ''example.com'' example_table))"
    and w: "\<forall>r\<in>set (processed example_re_compile ''example.com'' example_table).
        matches example_re_compile r ''builds/v1.zip'' \<longrightarrow>
           \<not> condition_holds (pointer (store r1) ''example.com'' (Channel r)) ''builds/v1.zip'' \<and>
           pointer (store r1) ''example.com'' (Channel r) =
             (if condition_holds (pointer example_table ''example.com'' (Channel r)) ''builds/v1.zip''
              then Some (S ''builds/v1.zip'')
              else pointer example_table ''example.com'' (Channel r))"
    and v: "valid_registrations example_re_compile ''example.com'' example_table \<longrightarrow>
           raised r1 = None \<and>
           processed example_re_compile ''example.com'' example_table =
             bucket_rows ''example.com'' example_table"
    by blast
  from v valid_registrations_example have r1: "raised r1 = None" by simp
  have p2: "printed r2 = banner (JStr ''example.com'') (JStr ''builds/v1.zip'') @
        [Updating ''latest'', AlreadyUpToDate, Updating ''zips'', AlreadyUpToDate]"
    unfolding p by (simp add: example_defs)
  have "?h (dynamodb [1]) ?e example_table =
      Some \<lparr>raised = failure example_re_compile ''example.com'' example_table,
        store = applied example_re_compile ''example.com'' ''builds/v1.zip'' example_table,
        printed = banner (JStr ''example.com'') (JStr ''builds/v1.zip'') @
          concat (map (report example_re_compile ''builds/v1.zip'')
            (processed example_re_compile ''example.com'' example_table))\<rparr>"
    by (rule handler_direct [OF distinct_keys_example])
  with h1 have "printed r1 = banner (JStr ''example.com'') (JStr ''builds/v1.zip'') @
          concat (map (report example_re_compile ''builds/v1.zip'')
            (processed example_re_compile ''example.com'' example_table))"
    by auto
  then have p1: "printed r1 = banner (JStr ''example.com'') (JStr ''builds/v1.zip'') @
        [Updating ''latest'', Ok, Updating ''zips'', Ok]"
    by (simp add: example_defs)
  have pl: "pointer example_table ''example.com'' ''latest'' = None"
    by (simp add: pointer_def example_table_def key_of_def)
  have pr: "processed example_re_compile ''example.com'' example_table =
      [\<lparr>Bucket = ''example.com'', Channel = ''latest'', Pattern = Some (S ''^builds/''),
          ObjectKey = None\<rparr>,
       \<lparr>Bucket = ''example.com'', Channel = ''zips'', Pattern = Some (S ''zip''),
          ObjectKey = Some (S ''a.zip'')\<rparr>]"
    by (simp add: processed_def bucket_rows_def valid_pattern_def example_table_def
        example_re_compile_def)
  have ml: "matches example_re_compile
      \<lparr>Bucket = ''example.com'', Channel = ''latest'', Pattern = Some (S ''^builds/''),
          ObjectKey = None\<rparr> ''builds/v1.zip''"
    by (simp add: matches_def example_re_compile_def)
  from w have q: "pointer (store r1) ''example.com'' ''latest'' = Some (S ''builds/v1.zip'')"
    by (simp add: pr ml pl)
  from h1 h2 s r r1 p1 p2 q show ?thesis by auto
qed

lemma distinct_keys_blocked: "distinct_keys example_blocked"
  by (simp add: distinct_keys_def example_blocked_def key_of_def)

lemma handler_blocked:
  "lambda_handler loads example_re_compile (dynamodb sizes)
       (direct_payload ''example.net'' ''a.zip'') example_blocked =
     Some \<lparr>raised = Some RegexError, store = example_blocked,
       printed = banner (JStr ''example.net'') (JStr ''a.zip'')\<rparr>"
proof -
  have v: "failure example_re_compile ''example.net'' example_blocked = Some RegexError"
    "processed example_re_compile ''example.net'' example_blocked = []"
    by (simp_all add: failure_def processed_def bucket_rows_def valid_pattern_def
        registration_error_def example_blocked_def example_re_compile_def)
  have a: "applied example_re_compile ''example.net'' ''a.zip'' example_blocked = example_blocked"
    by (simp add: applied_def v)
  show ?thesis
    by (simp add: handler_direct [OF distinct_keys_blocked] v a)
qed

text \<open>
  Claim C3 as stated fails on two counts. The pointer the second write meets need not be
  the object key: with \<open>a.zip\<close> stored, the event for \<open>A.zip\<close>, which is below it in the order
  of the bytes, is already up to date at the first invocation, which leaves the table as
  it was, so that the second invocation is the first one again. And not every matching
  channel is reported: behind a registration whose pattern does not compile, the
  invocation ends before the matching registration, with the banner alone printed.
\<close>

theorem redelivery_not_equal:
  "lambda_handler example_loads example_re_compile (dynamodb [])
       (direct_payload ''example.com'' ''A.zip'') example_table =
     Some \<lparr>raised = None, store = example_table,
       printed = banner (JStr ''example.com'') (JStr ''A.zip'') @
         [Updating ''zips'', AlreadyUpToDate]\<rparr>
   \<and> pointer example_table ''example.com'' ''zips'' = Some (S ''a.zip'')
   \<and> lambda_handler example_loads example_re_compile (dynamodb [])
       (direct_payload ''example.net'' ''a.zip'') example_blocked =
     Some \<lparr>raised = Some RegexError, store = example_blocked,
       printed = banner (JStr ''example.net'') (JStr ''a.zip'')\<rparr>
   \<and> matches example_re_compile
       \<lparr>Bucket = ''example.net'', Channel = ''zips'', Pattern = Some (S ''zip''), ObjectKey = None\<rparr>
       ''a.zip''
   \<and> \<lparr>Bucket = ''example.net'', Channel = ''zips'', Pattern = Some (S ''zip''), ObjectKey = None\<rparr>
       \<in> set example_blocked"
proof (intro conjI)
  have v: "failure example_re_compile ''example.com'' example_table = None"
    "applied example_re_compile ''example.com'' ''A.zip'' example_table = example_table"
    "concat (map (report example_re_compile ''A.zip'')
           (processed example_re_compile ''example.com'' example_table)) =
        [Updating ''zips'', AlreadyUpToDate]"
    by (simp_all add: example_defs)
  have "lambda_handler example_loads example_re_compile (dynamodb [])
       (direct_payload ''example.com'' ''A.zip'') example_table =
      Some \<lparr>raised = failure example_re_compile ''example.com'' example_table,
        store = applied example_re_compile ''example.com'' ''A.zip'' example_table,
        printed = banner (JStr ''example.com'') (JStr ''A.zip'') @
          concat (map (report example_re_compile ''A.zip'')
            (processed example_re_compile ''example.com'' example_table))\<rparr>"
    by (rule handler_direct [OF distinct_keys_example])
  then show "lambda_handler example_loads example_re_compile (dynamodb [])
       (direct_payload ''example.com'' ''A.zip'') example_table =
     Some \<lparr>raised = None, store = example_table,
       printed = banner (JStr ''example.com'') (JStr ''A.zip'') @
         [Updating ''zips'', AlreadyUpToDate]\<rparr>"
    by (simp only: v)
next
  show "pointer example_table ''example.com'' ''zips'' = Some (S ''a.zip'')"
    by (simp add: pointer_def example_table_def key_of_def)
next
  show "lambda_handler example_loads example_re_compile (dynamodb [])
       (direct_payload ''example.net'' ''a.zip'') example_blocked =
     Some \<lparr>raised = Some RegexError, store = example_blocked,
       printed = banner (JStr ''example.net'') (JStr ''a.zip'')\<rparr>"
    by (rule handler_blocked)
next
  show "matches example_re_compile
       \<lparr>Bucket = ''example.net'', Channel = ''zips'', Pattern = Some (S ''zip''), ObjectKey = None\<rparr>
       ''a.zip''"
    by (simp add: matches_def example_re_compile_def)
next
  show "\<lparr>Bucket = ''example.net'', Channel = ''zips'', Pattern = Some (S ''zip''), ObjectKey = None\<rparr>
       \<in> set example_blocked"
    by (simp add: example_blocked_def)
qed

subsection \<open>Sequences of invocations\<close>













subsection \<open>The writes of an invocation\<close>

lemma KeyChannel_call [simp]: "KeyChannel (update_item_call bj ch kj) = ch"
  by (simp add: update_item_call_def)

lemma condition_of_call:
  "condition_value found (ExpressionAttributeValues (update_item_call bj ch (JStr k)))
     (ConditionExpression (update_item_call bj ch (JStr k))) \<longleftrightarrow>
   attribute found ''ObjectKey'' = None \<or>
   (\<exists>s. attribute found ''ObjectKey'' = Some (S s) \<and> s < k)"
  by (simp only: update_item_call_def update_item_input.simps condition_value_call
      condition_holds_iff)

lemma processed_distinct_channels:
  assumes d: "distinct_keys tbl"
  shows "distinct (map Channel (processed rc b tbl))"
proof -
  have "map key_of (bucket_rows b tbl) = map (Pair b) (map Channel (bucket_rows b tbl))"
    by (simp add: key_of_def bucket_rows_def)
  with distinct_bucket_rows [OF d, of b]
  have "distinct (map (Pair b) (map Channel (bucket_rows b tbl)))"
    by (simp only:)
  then have "distinct (map Channel (bucket_rows b tbl))"
    by (metis distinct_map)
  moreover have "bucket_rows b tbl =
      processed rc b tbl @ dropWhile (valid_pattern rc) (bucket_rows b tbl)"
    by (simp add: processed_def)
  ultimately show ?thesis
    by (metis distinct_append map_append)
qed

lemma requests_for_channel:
  "distinct (map Channel xs) \<Longrightarrow>
   length (filter (\<lambda>req. KeyChannel req = S c)
     (map (\<lambda>r. update_item_call bj (S (Channel r)) kj) (filter P xs))) =
   (if \<exists>y\<in>set xs. Channel y = c \<and> P y then 1 else 0)"
  by (induction xs) (auto simp: image_iff filter_empty_conv)

lemma update_requests_channel:
  assumes d: "distinct_keys tbl" and x: "x \<in> set (processed rc b tbl)"
  shows "length (filter (\<lambda>req. KeyChannel req = S (Channel x)) (update_requests rc b k tbl)) =
     (if matches rc x k then 1 else 0)"
proof -
  note dc = processed_distinct_channels [OF d, of rc b]
  then have "inj_on Channel (set (processed rc b tbl))"
    by (simp add: distinct_map)
  with x have "(\<exists>y\<in>set (processed rc b tbl). Channel y = Channel x \<and> matches rc y k) \<longleftrightarrow>
      matches rc x k"
    by (auto dest: inj_onD)
  then show ?thesis
    unfolding update_requests_def by (simp only: requests_for_channel [OF dc])
qed

text \<open>
  Claim C2, in the form in which it holds. For a matching item the loop makes one call of
  \<open>update_item\<close>, with the request of lines 114 to 125 for the bucket of the event, the
  \<open>Channel\<close> of the item and the object key of the event: for every client the store after
  the item is the store that call returns, and a recording client has that one request
  more. The condition of the request holds on an item exactly when the attribute
  \<open>ObjectKey\<close> is absent or a string below the object key in the order of the bytes. On
  the table the request for the key \<open>(b, c)\<close> and the value \<open>k\<close> commits if and only if the
  pointer of \<open>(b, c)\<close> is absent or a string below \<open>k\<close>; it then sets that pointer to \<open>k\<close>;
  otherwise it ends with \<open>ConditionalCheckFailedException\<close> and the table is as before; no
  other pointer changes either way. An invocation hands the store exactly one such
  request for every matching registration it gets to, in order, and none for the others:
  the registrations of the bucket before the first one whose pattern is not a string that
  compiles, which is all of them when the registrations of the bucket are valid. After
  the invocation the pointer of such a registration is the object key if the condition
  held on the pointer it had, and that pointer otherwise.
\<close>

theorem conditioned_write:
  "(match_item rc s3ev it = Inr (Some (ch, c')) \<and> bucket_name s3ev = Inr bj \<and>
    object_key s3ev = Inr kj \<longrightarrow>
      store (do_item db rc s3ev it st out) = snd (update_item db (update_item_call bj ch kj) st) \<and>
      store (do_item (recording db) rc s3ev it (st, log) out) =
        (snd (update_item db (update_item_call bj ch kj) st), log @ [update_item_call bj ch kj]))
   \<and> (condition_value found (ExpressionAttributeValues (update_item_call bj ch (JStr k)))
         (ConditionExpression (update_item_call bj ch (JStr k))) \<longleftrightarrow>
       attribute found ''ObjectKey'' = None \<or>
       (\<exists>s. attribute found ''ObjectKey'' = Some (S s) \<and> s < k))
   \<and> dynamodb_update_item (update_item_call (JStr b) (S c) (JStr k)) tbl =
       (if pointer tbl b c = None \<or> (\<exists>s. pointer tbl b c = Some (S s) \<and> s < k)
        then (Inr (), snd (dynamodb_update_item (update_item_call (JStr b) (S c) (JStr k)) tbl))
        else (Inl (ClientError ''ConditionalCheckFailedException''), tbl))
   \<and> (pointer tbl b c = None \<or> (\<exists>s. pointer tbl b c = Some (S s) \<and> s < k) \<longrightarrow>
        pointer (snd (dynamodb_update_item (update_item_call (JStr b) (S c) (JStr k)) tbl)) b c = Some (S k))
   \<and> ((b', c'') \<noteq> (b, c) \<longrightarrow>
        pointer (snd (dynamodb_update_item (update_item_call (JStr b) (S c) (JStr k)) tbl)) b' c'' = pointer tbl b' c'')
   \<and> (distinct_keys tbl \<and> r \<in> set tbl \<and> Bucket r = b \<and> matches rc r k \<longrightarrow>
        do_item (dynamodb sizes) rc (s3_record b k) (projected r) tbl out =
          (if ObjectKey r = None \<or> (\<exists>s. ObjectKey r = Some (S s) \<and> s < k)
           then \<lparr>raised = None,
                 store = map (\<lambda>x. if x = r then r\<lparr>ObjectKey := Some (S k)\<rparr> else x) tbl,
                 printed = out @ [Updating (Channel r), Ok]\<rparr>
           else \<lparr>raised = None, store = tbl,
                 printed = out @ [Updating (Channel r), AlreadyUpToDate]\<rparr>))
   \<and> (distinct_keys tbl \<longrightarrow>
        lambda_handler loads rc (recording (dynamodb sizes)) (direct_payload b k) (tbl, log) =
          Some \<lparr>raised = failure rc b tbl,
                 store = (applied rc b k tbl, log @ update_requests rc b k tbl),
                 printed = banner (JStr b) (JStr k) @
                   concat (map (report rc k) (processed rc b tbl))\<rparr>)
   \<and> (distinct_keys tbl \<and> x \<in> set (processed rc b tbl) \<longrightarrow>
        length (filter (\<lambda>req. KeyChannel req = S (Channel x)) (update_requests rc b k tbl)) =
          (if matches rc x k then 1 else 0))
   \<and> (distinct_keys tbl \<and> x \<in> set (processed rc b tbl) \<and> matches rc x k \<longrightarrow>
        pointer (applied rc b k tbl) b (Channel x) =
          (if pointer tbl b (Channel x) = None \<or>
              (\<exists>s. pointer tbl b (Channel x) = Some (S s) \<and> s < k)
           then Some (S k) else pointer tbl b (Channel x)))
   \<and> (valid_registrations rc b tbl \<longrightarrow> processed rc b tbl = bucket_rows b tbl)"
proof (intro conjI impI; (elim conjE)?)
  assume m: "match_item rc s3ev it = Inr (Some (ch, c'))" and b: "bucket_name s3ev = Inr bj"
    and k: "object_key s3ev = Inr kj"
  show w: "store (do_item db rc s3ev it st out) = snd (update_item db (update_item_call bj ch kj) st)"
    by (cases "update_item db (update_item_call bj ch kj) st")
      (auto simp: do_item_match [OF m] write_item_def b k split: sum.splits exn.splits)
  show "store (do_item (recording db) rc s3ev it (st, log) out) =
      (snd (update_item db (update_item_call bj ch kj) st), log @ [update_item_call bj ch kj])"
    using w by (simp add: do_item_match [OF m] write_item_recording [OF b k])
next
  show "condition_value found (ExpressionAttributeValues (update_item_call bj ch (JStr k)))
         (ConditionExpression (update_item_call bj ch (JStr k))) \<longleftrightarrow>
       attribute found ''ObjectKey'' = None \<or>
       (\<exists>s. attribute found ''ObjectKey'' = Some (S s) \<and> s < k)"
    by (rule condition_of_call)
next
  show "dynamodb_update_item (update_item_call (JStr b) (S c) (JStr k)) tbl =
       (if pointer tbl b c = None \<or> (\<exists>s. pointer tbl b c = Some (S s) \<and> s < k)
        then (Inr (), snd (dynamodb_update_item (update_item_call (JStr b) (S c) (JStr k)) tbl))
        else (Inl (ClientError ''ConditionalCheckFailedException''), tbl))"
    using update_item_result [of b c k tbl] by (simp only: condition_holds_iff)
next
  assume "pointer tbl b c = None \<or> (\<exists>s. pointer tbl b c = Some (S s) \<and> s < k)"
  then have "condition_holds (pointer tbl b c) k" by (simp only: condition_holds_iff)
  then show "pointer (snd (dynamodb_update_item (update_item_call (JStr b) (S c) (JStr k)) tbl)) b c = Some (S k)"
    by (rule update_item_sets_pointer)
next
  assume "(b', c'') \<noteq> (b, c)"
  then show "pointer (snd (dynamodb_update_item (update_item_call (JStr b) (S c) (JStr k)) tbl)) b' c'' =
      pointer tbl b' c''"
    by (rule update_item_other_pointer)
next
  assume d: "distinct_keys tbl" and r: "r \<in> set tbl" and b: "Bucket r = b" and m: "matches rc r k"
  from m have v: "valid_pattern rc r"
    by (auto simp: matches_def valid_pattern_def split: option.splits attribute_value.splits)
  have a: "advanced rc k r = (if condition_holds (ObjectKey r) k then r\<lparr>ObjectKey := Some (S k)\<rparr> else r)"
    using m by (simp add: advanced_def)
  show "do_item (dynamodb sizes) rc (s3_record b k) (projected r) tbl out =
          (if ObjectKey r = None \<or> (\<exists>s. ObjectKey r = Some (S s) \<and> s < k)
           then \<lparr>raised = None,
                 store = map (\<lambda>x. if x = r then r\<lparr>ObjectKey := Some (S k)\<rparr> else x) tbl,
                 printed = out @ [Updating (Channel r), Ok]\<rparr>
           else \<lparr>raised = None, store = tbl,
                 printed = out @ [Updating (Channel r), AlreadyUpToDate]\<rparr>)"
  proof (cases "condition_holds (ObjectKey r) k")
    case True
    with a have "advanced rc k r = r\<lparr>ObjectKey := Some (S k)\<rparr>" by simp
    with True v m show ?thesis
      unfolding condition_holds_iff [symmetric]
      by (simp add: do_item_row [OF d r b] report_def)
  next
    case False
    with a have ar: "advanced rc k r = r" by simp
    have same': "map (\<lambda>y. if y = r then advanced rc k r else y) tbl = tbl"
      by (rule map_idI) (simp add: ar)
    from False v m show ?thesis
      unfolding condition_holds_iff [symmetric]
      by (simp add: do_item_row [OF d r b] report_def same')
  qed
next
  assume d: "distinct_keys tbl"
  then show "lambda_handler loads rc (recording (dynamodb sizes)) (direct_payload b k) (tbl, log) =
          Some \<lparr>raised = failure rc b tbl,
                 store = (applied rc b k tbl, log @ update_requests rc b k tbl),
                 printed = banner (JStr b) (JStr k) @
                   concat (map (report rc k) (processed rc b tbl))\<rparr>"
    by (rule handler_recording_direct)
next
  assume d: "distinct_keys tbl" and x: "x \<in> set (processed rc b tbl)"
  then show "length (filter (\<lambda>req. KeyChannel req = S (Channel x)) (update_requests rc b k tbl)) =
          (if matches rc x k then 1 else 0)"
    by (rule update_requests_channel)
next
  assume d: "distinct_keys tbl" and x: "x \<in> set (processed rc b tbl)" and m: "matches rc x k"
  show "pointer (applied rc b k tbl) b (Channel x) =
          (if pointer tbl b (Channel x) = None \<or>
              (\<exists>s. pointer tbl b (Channel x) = Some (S s) \<and> s < k)
           then Some (S k) else pointer tbl b (Channel x))"
    unfolding condition_holds_iff [symmetric] pointer_applied [OF d x] pointer_processed [OF d x]
    using m by (simp add: advanced_def)
next
  assume "valid_registrations rc b tbl"
  then show "processed rc b tbl = bucket_rows b tbl"
    by (rule processed_valid)
qed

theorem conditioned_write_witness:
  "do_item (dynamodb []) example_re_compile (s3_record ''example.com'' ''builds/v1.zip'')
       (projected (example_table ! 1)) example_table [] =
     \<lparr>raised = None,
      store =
        [\<lparr>Bucket = ''example.com'', Channel = ''latest'', Pattern = Some (S ''^builds/''), ObjectKey = None\<rparr>,
         \<lparr>Bucket = ''example.com'', Channel = ''zips'', Pattern = Some (S ''zip''),
            ObjectKey = Some (S ''builds/v1.zip'')\<rparr>,
         \<lparr>Bucket = ''other.org'', Channel = ''builds'', Pattern = Some (S ''^builds/''), ObjectKey = None\<rparr>,
         \<lparr>Bucket = ''other.org'', Channel = ''latest'', Pattern = Some (S ''(''), ObjectKey = None\<rparr>],
      printed = [Updating ''zips'', Ok]\<rparr>
   \<and> do_item (dynamodb []) example_re_compile (s3_record ''example.com'' ''a.zip'')
       (projected (example_table ! 1)) example_table [] =
     \<lparr>raised = None, store = example_table, printed = [Updating ''zips'', AlreadyUpToDate]\<rparr>
   \<and> dynamodb_update_item (update_item_call (JStr ''example.com'') (S ''zips'') (JStr ''a.zip'')) example_table =
       (Inl (ClientError ''ConditionalCheckFailedException''), example_table)
   \<and> pointer (snd (dynamodb_update_item (update_item_call (JStr ''example.com'') (S ''latest'') (JStr ''builds/v1.zip''))
         example_table)) ''example.com'' ''latest'' = Some (S ''builds/v1.zip'')
   \<and> pointer (snd (dynamodb_update_item (update_item_call (JStr ''example.com'') (S ''latest'') (JStr ''builds/v1.zip''))
         example_table)) ''example.com'' ''zips'' = Some (S ''a.zip'')
   \<and> store (do_item (recording example_throttled) example_re_compile (s3_record ''example.com'' ''a.zip'')
         (projected (example_table ! 1)) (example_table, []) []) =
       (example_table, [update_item_call (JStr ''example.com'') (S ''zips'') (JStr ''a.zip'')])
   \<and> lambda_handler example_loads example_re_compile (recording (dynamodb [1]))
       (direct_payload ''example.com'' ''builds/v1.zip'') (example_table, []) =
     Some \<lparr>raised = None,
       store =
         ([\<lparr>Bucket = ''example.com'', Channel = ''latest'', Pattern = Some (S ''^builds/''),
             ObjectKey = Some (S ''builds/v1.zip'')\<rparr>,
           \<lparr>Bucket = ''example.com'', Channel = ''zips'', Pattern = Some (S ''zip''),
             ObjectKey = Some (S ''builds/v1.zip'')\<rparr>,
           \<lparr>Bucket = ''other.org'', Channel = ''builds'', Pattern = Some (S ''^builds/''), ObjectKey = None\<rparr>,
           \<lparr>Bucket = ''other.org'', Channel = ''latest'', Pattern = Some (S ''(''), ObjectKey = None\<rparr>],
          [update_item_call (JStr ''example.com'') (S ''latest'') (JStr ''builds/v1.zip''),
           update_item_call (JStr ''example.com'') (S ''zips'') (JStr ''builds/v1.zip'')]),
       printed = banner (JStr ''example.com'') (JStr ''builds/v1.zip'') @
         [Updating ''latest'', Ok, Updating ''zips'', Ok]\<rparr>
   \<and> lambda_handler example_loads example_re_compile (recording (dynamodb []))
       (direct_payload ''example.com'' ''notes.txt'') (example_table, []) =
     Some \<lparr>raised = None, store = (example_table, []),
       printed = banner (JStr ''example.com'') (JStr ''notes.txt'')\<rparr>"
proof -
  note d = distinct_keys_example
  have a: "do_item (dynamodb []) example_re_compile (s3_record ''example.com'' ''builds/v1.zip'')
       (projected (example_table ! 1)) example_table [] =
     \<lparr>raised = None,
      store =
        [\<lparr>Bucket = ''example.com'', Channel = ''latest'', Pattern = Some (S ''^builds/''), ObjectKey = None\<rparr>,
         \<lparr>Bucket = ''example.com'', Channel = ''zips'', Pattern = Some (S ''zip''),
            ObjectKey = Some (S ''builds/v1.zip'')\<rparr>,
         \<lparr>Bucket = ''other.org'', Channel = ''builds'', Pattern = Some (S ''^builds/''), ObjectKey = None\<rparr>,
         \<lparr>Bucket = ''other.org'', Channel = ''latest'', Pattern = Some (S ''(''), ObjectKey = None\<rparr>],
      printed = [Updating ''zips'', Ok]\<rparr>"
    using conditioned_write [where tbl = example_table and r = "example_table ! 1"
        and b = "''example.com''" and k = "''builds/v1.zip''" and rc = example_re_compile
        and sizes = "[]" and out = "[]",
        THEN conjunct2, THEN conjunct2, THEN conjunct2, THEN conjunct2, THEN conjunct2,
        THEN conjunct1] d
    by (simp add: matches_def example_re_compile_def example_table_def)
  have b: "do_item (dynamodb []) example_re_compile (s3_record ''example.com'' ''a.zip'')
       (projected (example_table ! 1)) example_table [] =
     \<lparr>raised = None, store = example_table, printed = [Updating ''zips'', AlreadyUpToDate]\<rparr>"
    using conditioned_write [where tbl = example_table and r = "example_table ! 1"
        and b = "''example.com''" and k = "''a.zip''" and rc = example_re_compile
        and sizes = "[]" and out = "[]",
        THEN conjunct2, THEN conjunct2, THEN conjunct2, THEN conjunct2, THEN conjunct2,
        THEN conjunct1] d
    by (simp add: matches_def example_re_compile_def example_table_def)
  have p: "pointer example_table ''example.com'' ''zips'' = Some (S ''a.zip'')"
    "pointer example_table ''example.com'' ''latest'' = None"
    by (simp_all add: pointer_def example_table_def key_of_def)
  have c: "dynamodb_update_item (update_item_call (JStr ''example.com'') (S ''zips'') (JStr ''a.zip'')) example_table =
       (Inl (ClientError ''ConditionalCheckFailedException''), example_table)"
    using conditioned_write [where tbl = example_table and b = "''example.com''" and c = "''zips''"
        and k = "''a.zip''", THEN conjunct2, THEN conjunct2, THEN conjunct1]
    by (simp add: p)
  have e: "pointer (snd (dynamodb_update_item (update_item_call (JStr ''example.com'') (S ''latest'') (JStr ''builds/v1.zip''))
         example_table)) ''example.com'' ''latest'' = Some (S ''builds/v1.zip'')"
    by (rule conditioned_write [THEN conjunct2, THEN conjunct2, THEN conjunct2, THEN conjunct1, THEN mp])
      (simp add: p)
  have f: "pointer (snd (dynamodb_update_item (update_item_call (JStr ''example.com'') (S ''latest'') (JStr ''builds/v1.zip''))
         example_table)) ''example.com'' ''zips'' = Some (S ''a.zip'')"
    using conditioned_write [where tbl = example_table and b = "''example.com''" and c = "''latest''"
        and k = "''builds/v1.zip''" and b' = "''example.com''" and c'' = "''zips''",
        THEN conjunct2, THEN conjunct2, THEN conjunct2, THEN conjunct2, THEN conjunct1]
    by (simp add: p)
  have "store (do_item (recording example_throttled) example_re_compile (s3_record ''example.com'' ''a.zip'')
         (projected (example_table ! 1)) (example_table, []) []) =
      (snd (update_item example_throttled (update_item_call (JStr ''example.com'') (S ''zips'') (JStr ''a.zip''))
         example_table),
       [] @ [update_item_call (JStr ''example.com'') (S ''zips'') (JStr ''a.zip'')])"
    by (rule conditioned_write [where c' = "''zips''" and log = "[]" and out = "[]",
          THEN conjunct1, THEN mp, THEN conjunct2])
      (simp only: match_item_example_zips bucket_name_s3_record object_key_s3_record simp_thms)
  then have g: "store (do_item (recording example_throttled) example_re_compile (s3_record ''example.com'' ''a.zip'')
         (projected (example_table ! 1)) (example_table, []) []) =
       (example_table, [update_item_call (JStr ''example.com'') (S ''zips'') (JStr ''a.zip'')])"
    by (simp add: example_throttled_def)
  note h0 = conditioned_write [where loads = example_loads and rc = example_re_compile
      and tbl = example_table and b = "''example.com''" and log = "[]",
      THEN conjunct2, THEN conjunct2, THEN conjunct2, THEN conjunct2, THEN conjunct2,
      THEN conjunct2, THEN conjunct1, THEN mp, OF d]
  have v: "failure example_re_compile ''example.com'' example_table = None"
    "applied example_re_compile ''example.com'' ''builds/v1.zip'' example_table =
         [\<lparr>Bucket = ''example.com'', Channel = ''latest'', Pattern = Some (S ''^builds/''),
             ObjectKey = Some (S ''builds/v1.zip'')\<rparr>,
          \<lparr>Bucket = ''example.com'', Channel = ''zips'', Pattern = Some (S ''zip''),
             ObjectKey = Some (S ''builds/v1.zip'')\<rparr>,
          \<lparr>Bucket = ''other.org'', Channel = ''builds'', Pattern = Some (S ''^builds/''), ObjectKey = None\<rparr>,
          \<lparr>Bucket = ''other.org'', Channel = ''latest'', Pattern = Some (S ''(''), ObjectKey = None\<rparr>]"
    "concat (map (report example_re_compile ''builds/v1.zip'')
           (processed example_re_compile ''example.com'' example_table)) =
        [Updating ''latest'', Ok, Updating ''zips'', Ok]"
    "[] @ update_requests example_re_compile ''example.com'' ''builds/v1.zip'' example_table =
        [update_item_call (JStr ''example.com'') (S ''latest'') (JStr ''builds/v1.zip''),
         update_item_call (JStr ''example.com'') (S ''zips'') (JStr ''builds/v1.zip'')]"
    "applied example_re_compile ''example.com'' ''notes.txt'' example_table = example_table"
    "banner (JStr ''example.com'') (JStr ''notes.txt'') @
       concat (map (report example_re_compile ''notes.txt'')
           (processed example_re_compile ''example.com'' example_table)) =
        banner (JStr ''example.com'') (JStr ''notes.txt'')"
    "[] @ update_requests example_re_compile ''example.com'' ''notes.txt'' example_table = []"
    by (simp_all add: example_defs update_requests_def)
  have h: "lambda_handler example_loads example_re_compile (recording (dynamodb [1]))
       (direct_payload ''example.com'' ''builds/v1.zip'') (example_table, []) =
     Some \<lparr>raised = None,
       store =
         ([\<lparr>Bucket = ''example.com'', Channel = ''latest'', Pattern = Some (S ''^builds/''),
             ObjectKey = Some (S ''builds/v1.zip'')\<rparr>,
           \<lparr>Bucket = ''example.com'', Channel = ''zips'', Pattern = Some (S ''zip''),
             ObjectKey = Some (S ''builds/v1.zip'')\<rparr>,
           \<lparr>Bucket = ''other.org'', Channel = ''builds'', Pattern = Some (S ''^builds/''), ObjectKey = None\<rparr>,
           \<lparr>Bucket = ''other.org'', Channel = ''latest'', Pattern = Some (S ''(''), ObjectKey = None\<rparr>],
          [update_item_call (JStr ''example.com'') (S ''latest'') (JStr ''builds/v1.zip''),
           update_item_call (JStr ''example.com'') (S ''zips'') (JStr ''builds/v1.zip'')]),
       printed = banner (JStr ''example.com'') (JStr ''builds/v1.zip'') @
         [Updating ''latest'', Ok, Updating ''zips'', Ok]\<rparr>"
    using h0 [of "[1]" "''builds/v1.zip''"] by (simp only: v)
  have i: "lambda_handler example_loads example_re_compile (recording (dynamodb []))
       (direct_payload ''example.com'' ''notes.txt'') (example_table, []) =
     Some \<lparr>raised = None, store = (example_table, []),
       printed = banner (JStr ''example.com'') (JStr ''notes.txt'')\<rparr>"
    using h0 [of "[]" "''notes.txt''"] by (simp only: v)
  from a b c e f g h i show ?thesis by (intro conjI)
qed

text \<open>
  Claim C2 as stated, for every matching registration, fails: behind a registration whose
  pattern does not compile the invocation ends at line 110 without a single request,
  though a later registration of the bucket matches the object key.
\<close>

theorem conditioned_write_blocked:
  "lambda_handler example_loads example_re_compile (recording (dynamodb []))
       (direct_payload ''example.net'' ''a.zip'') (example_blocked, []) =
     Some \<lparr>raised = Some RegexError, store = (example_blocked, []),
       printed = banner (JStr ''example.net'') (JStr ''a.zip'')\<rparr>
   \<and> matches example_re_compile
       \<lparr>Bucket = ''example.net'', Channel = ''zips'', Pattern = Some (S ''zip''), ObjectKey = None\<rparr>
       ''a.zip''
   \<and> \<lparr>Bucket = ''example.net'', Channel = ''zips'', Pattern = Some (S ''zip''), ObjectKey = None\<rparr>
       \<in> set (bucket_rows ''example.net'' example_blocked)"
proof (intro conjI)
  have v: "failure example_re_compile ''example.net'' example_blocked = Some RegexError"
    "processed example_re_compile ''example.net'' example_blocked = []"
    by (simp_all add: failure_def processed_def bucket_rows_def valid_pattern_def
        registration_error_def example_blocked_def example_re_compile_def)
  have a: "applied example_re_compile ''example.net'' ''a.zip'' example_blocked = example_blocked"
    "update_requests example_re_compile ''example.net'' ''a.zip'' example_blocked = []"
    by (simp_all add: applied_def update_requests_def v)
  show "lambda_handler example_loads example_re_compile (recording (dynamodb []))
       (direct_payload ''example.net'' ''a.zip'') (example_blocked, []) =
     Some \<lparr>raised = Some RegexError, store = (example_blocked, []),
       printed = banner (JStr ''example.net'') (JStr ''a.zip'')\<rparr>"
    by (simp add: handler_recording_direct [OF distinct_keys_blocked] v a)
next
  show "matches example_re_compile
       \<lparr>Bucket = ''example.net'', Channel = ''zips'', Pattern = Some (S ''zip''), ObjectKey = None\<rparr>
       ''a.zip''"
    by (simp add: matches_def example_re_compile_def)
next
  show "\<lparr>Bucket = ''example.net'', Channel = ''zips'', Pattern = Some (S ''zip''), ObjectKey = None\<rparr>
       \<in> set (bucket_rows ''example.net'' example_blocked)"
    by (simp add: example_blocked_def)
qed

end
